(* ===== verification/MM_Prelude.thy ===== *)
theory MM_Prelude
  imports "HOL-Library.Word" "HOL-Library.Sublist"
begin

text \<open>
  The vocabulary the components of the driver share: machine integers, pointers, faults as
  values, the C \<open>switch\<close>, and the increment behind a condition that every rule check
  is made of. The collections \<open>mm_simps\<close> and \<open>mm_intros\<close> gather the facts
  the component proofs apply.
\<close>

unbundle bit_operations_syntax

named_theorems mm_simps \<open>unfolding rules of the model's small helpers\<close>
named_theorems mm_intros \<open>introduction rules of the model's invariants\<close>

section \<open>Machine integers and pointers\<close>

type_synonym u8 = "8 word"
type_synonym u16 = "16 word"
type_synonym u32 = "32 word"
type_synonym u64 = "64 word"

text \<open>A pointer is null, or an address together with what it points to.\<close>

datatype 'a ptr = Null | Ptr (addr: u64) (deref: 'a)

definition VALID_PAGE :: "'a ptr \<Rightarrow> bool" where
  "VALID_PAGE q = (case q of Null \<Rightarrow> False
     | Ptr a _ \<Rightarrow> 0xFFFF000000000000 < a \<and> a < 0xFFFFFFFFFFFFFF00)"

definition MM_TYPE_CHECK :: "('a \<Rightarrow> string) \<Rightarrow> 'a ptr \<Rightarrow> string \<Rightarrow> bool" where
  "MM_TYPE_CHECK tag q magic = (case q of Null \<Rightarrow> False | Ptr _ v \<Rightarrow> tag v = magic)"

lemma VALID_PAGE_Null [simp]: "\<not> VALID_PAGE Null"
  by (simp add: VALID_PAGE_def)

lemma VALID_PAGE_E [elim]:
  assumes "VALID_PAGE q"
  obtains a v where "q = Ptr a v" "0xFFFF000000000000 < a" "a < 0xFFFFFFFFFFFFFF00"
  using assms by (auto simp: VALID_PAGE_def split: ptr.splits)

lemma MM_TYPE_CHECK_simps [simp]:
  "\<not> MM_TYPE_CHECK tag Null magic"
  "MM_TYPE_CHECK tag (Ptr a v) magic \<longleftrightarrow> tag v = magic"
  by (simp_all add: MM_TYPE_CHECK_def)

section \<open>Faults as values\<close>

text \<open>What a wild access of the C code is in the model: a read or write through NULL, or
  outside an array or through a pointer that is not to the type it is used at, a second release
  of the same memory, or a release of memory that the pool has not given out. The kernel stops the machine there; nothing after it is executed.\<close>

datatype fault = NullDeref | OutOfBounds | DoubleFree | WildPointer | BadFree

type_synonym 'a res = "fault + 'a"

definition andthen :: "'a res \<Rightarrow> ('a \<Rightarrow> 'b res) \<Rightarrow> 'b res" where
  "andthen r f = (case r of Inl e \<Rightarrow> Inl e | Inr x \<Rightarrow> f x)"

lemma andthen_simps [simp]:
  "andthen (Inl e) f = Inl e"
  "andthen (Inr x) f = f x"
  by (simp_all add: andthen_def)

lemma andthen_Inr_iff:
  "andthen r f = Inr y \<longleftrightarrow> (\<exists>x. r = Inr x \<and> f x = Inr y)"
  by (cases r) auto

definition load :: "'a ptr \<Rightarrow> 'a res" where
  "load q = (case q of Null \<Rightarrow> Inl NullDeref | Ptr _ v \<Rightarrow> Inr v)"

lemma load_simps [simp]:
  "load Null = Inl NullDeref"
  "load (Ptr a v) = Inr v"
  by (simp_all add: load_def)

definition index :: "'a list \<Rightarrow> nat \<Rightarrow> 'a res" where
  "index xs i = (if i < length xs then Inr (xs ! i) else Inl OutOfBounds)"

lemma index_in [simp]: "i < length xs \<Longrightarrow> index xs i = Inr (xs ! i)"
  by (simp add: index_def)

lemma index_out [simp]: "length xs \<le> i \<Longrightarrow> index xs i = Inl OutOfBounds"
  by (simp add: index_def)

section \<open>The C switch\<close>

text \<open>A \<open>switch\<close> whose cases all end in \<open>break\<close> or \<open>return\<close>: the statement of the
  label that equals the scrutinee, the default otherwise.\<close>

fun switch :: "'k \<Rightarrow> ('k \<times> 'a) list \<Rightarrow> 'a \<Rightarrow> 'a" where
  "switch k [] d = d"
| "switch k ((l, s) # cs) d = (if k = l then s else switch k cs d)"

lemma switch_map_of: "switch k cs d = (case map_of cs k of None \<Rightarrow> d | Some s \<Rightarrow> s)"
  by (induction k cs d rule: switch.induct) auto

text \<open>Splitting a switch case by case, for facts that hold of every branch.\<close>

lemma switch_cases:
  assumes "P d" and "list_all (\<lambda>(l, s). P s) cs"
  shows "P (switch k cs d)"
  using assms by (induction k cs d rule: switch.induct) auto

lemma switch_comp: "f (switch k cs d) = switch k (map (\<lambda>(l, s). (l, f s)) cs) (f d)"
  by (induction k cs d rule: switch.induct) auto

lemma switch_app: "switch k cs d x = switch k (map (\<lambda>(l, s). (l, s x)) cs) (d x)"
  by (induction k cs d rule: switch.induct) auto

section \<open>Counting\<close>

text \<open>\<open>tick b m\<close> is the C statement \<open>"if (b) ++(*matches);"\<close> on a ULONG counter.\<close>

definition tick :: "bool \<Rightarrow> u32 \<Rightarrow> u32" where
  "tick b m = (if b then m + 1 else m)"

lemma tick_simps [simp]:
  "tick True m = m + 1"
  "tick False m = m"
  by (simp_all add: tick_def)

lemma tick_if: "(if b then tick c m else m) = tick (b \<and> c) m"
  by (simp add: tick_def)

lemma unat_of_nat_small: "n < 2 ^ 32 \<Longrightarrow> unat (of_nat n :: u32) = n"
  by (simp add: unat_of_nat take_bit_nat_eq_self)

lemma unat_bounds:
  "unat (a :: u8) < 256" "unat (b :: u16) < 65536" "unat (c :: u32) < 4294967296"
  using unsigned_less [of a, where 'a = nat] unsigned_less [of b, where 'a = nat]
    unsigned_less [of c, where 'a = nat] by simp_all

text \<open>On values below \<open>2 ^ 31\<close> the signed comparison is the comparison of the values.\<close>

lemma sint_small:
  fixes a :: u32
  assumes "unat a < 2 ^ 31"
  shows "sint a = int (unat a)"
proof -
  have "int (unat a) < int (2 ^ 31)" using assms by (simp only: of_nat_less_iff)
  then have "uint a < 2 ^ 31" by simp
  moreover have "- (2 ^ 31) \<le> uint a" by (rule order.trans [of _ 0]) simp_all
  ultimately have "signed_take_bit 31 (uint a) = uint a"
    by (intro signed_take_bit_int_eq_self) simp_all
  then show ?thesis by (simp add: sint_uint)
qed

lemma sless_small:
  fixes a b :: u32
  assumes "unat a < 2 ^ 31" "unat b < 2 ^ 31"
  shows "a <s b \<longleftrightarrow> unat a < unat b"
  unfolding word_sless_alt sint_small [OF assms(1)] sint_small [OF assms(2)] by (rule of_nat_less_iff)

section \<open>Little-endian integers\<close>

text \<open>The bytes \<open>memcpy\<close> copies out of an integer on a little-endian machine, and the value it makes
  of bytes copied into one.\<close>

fun le_bytes :: "nat \<Rightarrow> nat \<Rightarrow> u8 list" where
  "le_bytes 0 v = []"
| "le_bytes (Suc n) v = of_nat v # le_bytes n (v div 256)"

fun le_nat :: "u8 list \<Rightarrow> nat" where
  "le_nat [] = 0"
| "le_nat (b # bs) = unat b + 256 * le_nat bs"

lemma length_le_bytes [simp]: "length (le_bytes n v) = n"
  by (induction n arbitrary: v) auto

lemma le_nat_bytes: "le_nat (le_bytes n v) = v mod 256 ^ n"
proof (induction n arbitrary: v)
  case (Suc n)
  have "unat (of_nat v :: u8) = v mod 256"
    by (simp add: unat_of_nat take_bit_eq_mod)
  then show ?case using Suc by (simp add: mod_mult2_eq)
qed simp

lemma le_nat_word:
  "le_nat (le_bytes 2 (unat (a :: u16))) = unat a"
  "le_nat (le_bytes 4 (unat (b :: u32))) = unat b"
  "le_nat (le_bytes 8 (unat (c :: u64))) = unat c"
  using unsigned_less [of a, where 'a = nat] unsigned_less [of b, where 'a = nat]
    unsigned_less [of c, where 'a = nat] by (simp_all add: le_nat_bytes)

section \<open>Status values\<close>

text \<open>\<open>NTSTATUS\<close> is a signed 32-bit value; \<open>NT_SUCCESS\<close> is \<open>"Status >= 0"\<close>.\<close>

type_synonym NTSTATUS = u32

definition NT_SUCCESS :: "NTSTATUS \<Rightarrow> bool" where
  "NT_SUCCESS s = (0 \<le> sint s)"

end
