(* ===== verification/MM_Types.thy ===== *)
theory MM_Types
  imports MM_Prelude
begin

text \<open>
  The data model: \<open>src/MoonMon/DataTypes.h\<close>. The preprocessor constants keep their names
  (\<open>AND\<close> and \<open>NOT_AND\<close>, which clash with the library, are \<open>MM_AND\<close> and \<open>MM_NOT_AND\<close>);
  the structures are records whose fields keep the source's names, with a short prefix where
  two structures share one. The \<open>_\<close> member of a structure, which holds a magic value of eight
  characters, is the field \<open>xx_tag\<close>; the empty tag is the zeroed member. Signed members are
  words too, and the operations that read them as signed say so. Fields that only carry an opaque
  kernel object (the driver and device objects, the spin locks) are left out of \<open>GC\<close>.
\<close>

section \<open>Constants\<close>

subsection \<open>Generic constants\<close>

text \<open>Every \<open>#define\<close> is one word literal, usable at each width the code reads it.\<close>

abbreviation (input) BLOCKLIST_MAX :: "'a::len word" where
  "BLOCKLIST_MAX \<equiv> 32000"

abbreviation (input) PROCESS_TERMINATE :: "'a::len word" where
  "PROCESS_TERMINATE \<equiv> 0x0001"

abbreviation (input) PROCESS_QUERY_INFORMATION :: "'a::len word" where
  "PROCESS_QUERY_INFORMATION \<equiv> 0x400"

abbreviation (input) PROCESS_QUERY_LIMITED_INFORMATION :: "'a::len word" where
  "PROCESS_QUERY_LIMITED_INFORMATION \<equiv> 0x1000"

abbreviation (input) PROCESS_VM_READ :: "'a::len word" where
  "PROCESS_VM_READ \<equiv> 0x10"

subsection \<open>Type check magic values\<close>

abbreviation (input) GANYMEDE :: string where
  "GANYMEDE \<equiv> ''GANYMEDE''"

abbreviation (input) UMBRIEL :: string where
  "UMBRIEL \<equiv> ''UMBRIEL0''"

abbreviation (input) MAKEMAKE :: string where
  "MAKEMAKE \<equiv> ''MAKEMAKE''"

abbreviation (input) PHOEBE :: string where
  "PHOEBE \<equiv> ''PHOEBE00''"

abbreviation (input) DEIMOS :: string where
  "DEIMOS \<equiv> ''DEIMOS00''"

abbreviation (input) DIONE :: string where
  "DIONE \<equiv> ''DIONE000''"

abbreviation (input) PHOBOS :: string where
  "PHOBOS \<equiv> ''PHOBOS00''"

abbreviation (input) EUROPA :: string where
  "EUROPA \<equiv> ''EUROPA00''"

abbreviation (input) NEREID :: string where
  "NEREID \<equiv> ''NEREID00''"

abbreviation (input) CHARON :: string where
  "CHARON \<equiv> ''CHARON00''"

abbreviation (input) OBERON :: string where
  "OBERON \<equiv> ''OBERON00''"

abbreviation (input) CALLISTO :: string where
  "CALLISTO \<equiv> ''CALLISTO''"

abbreviation (input) CALIBAN :: string where
  "CALIBAN \<equiv> ''CALIBAN0''"

abbreviation (input) IAPETUS :: string where
  "IAPETUS \<equiv> ''IAPETUS0''"

abbreviation (input) MNEME :: string where
  "MNEME \<equiv> ''MNEME000''"

subsection \<open>States\<close>

abbreviation (input) INITIALIZED :: "'a::len word" where
  "INITIALIZED \<equiv> 0xaa"

abbreviation (input) UNREGISTERING :: "'a::len word" where
  "UNREGISTERING \<equiv> 0xab"

subsection \<open>Sizes and bounds\<close>

abbreviation (input) LIST_SIZE_MAX_BYTES :: "'a::len word" where
  "LIST_SIZE_MAX_BYTES \<equiv> 200000000"

abbreviation (input) LIST_PURGE_DIVISOR :: "'a::len word" where
  "LIST_PURGE_DIVISOR \<equiv> 8"

abbreviation (input) LIST_KEEP_MAX :: u32 where
  "LIST_KEEP_MAX \<equiv> LIST_SIZE_MAX_BYTES - LIST_SIZE_MAX_BYTES div LIST_PURGE_DIVISOR"

abbreviation (input) LIST_PURGE_CONGRUENT :: u32 where
  "LIST_PURGE_CONGRUENT \<equiv> LIST_KEEP_MAX div 20"

abbreviation (input) CONFIG_GROUP_MAX :: "'a::len word" where
  "CONFIG_GROUP_MAX \<equiv> 256"

abbreviation (input) PBL_ENTRIES_MAX :: "'a::len word" where
  "PBL_ENTRIES_MAX \<equiv> 65535"

abbreviation (input) PINC_ENTRIES_MAX :: "'a::len word" where
  "PINC_ENTRIES_MAX \<equiv> 65535"

abbreviation (input) PEXC_ENTRIES_MAX :: "'a::len word" where
  "PEXC_ENTRIES_MAX \<equiv> 65535"

abbreviation (input) PTINC_ENTRIES_MAX :: "'a::len word" where
  "PTINC_ENTRIES_MAX \<equiv> 65535"

abbreviation (input) PTEXC_ENTRIES_MAX :: "'a::len word" where
  "PTEXC_ENTRIES_MAX \<equiv> 65535"

abbreviation (input) TBL_ENTRIES_MAX :: "'a::len word" where
  "TBL_ENTRIES_MAX \<equiv> 65535"

abbreviation (input) TINC_ENTRIES_MAX :: "'a::len word" where
  "TINC_ENTRIES_MAX \<equiv> 65535"

abbreviation (input) TEXC_ENTRIES_MAX :: "'a::len word" where
  "TEXC_ENTRIES_MAX \<equiv> 65535"

abbreviation (input) MBL_ENTRIES_MAX :: "'a::len word" where
  "MBL_ENTRIES_MAX \<equiv> 65535"

abbreviation (input) MINC_ENTRIES_MAX :: "'a::len word" where
  "MINC_ENTRIES_MAX \<equiv> 65535"

abbreviation (input) MEXC_ENTRIES_MAX :: "'a::len word" where
  "MEXC_ENTRIES_MAX \<equiv> 65535"

abbreviation (input) OBL_ENTRIES_MAX :: "'a::len word" where
  "OBL_ENTRIES_MAX \<equiv> 65535"

abbreviation (input) OINC_ENTRIES_MAX :: "'a::len word" where
  "OINC_ENTRIES_MAX \<equiv> 65535"

abbreviation (input) OEXC_ENTRIES_MAX :: "'a::len word" where
  "OEXC_ENTRIES_MAX \<equiv> 65535"

abbreviation (input) RBL_ENTRIES_MAX :: "'a::len word" where
  "RBL_ENTRIES_MAX \<equiv> 65535"

abbreviation (input) RINC_ENTRIES_MAX :: "'a::len word" where
  "RINC_ENTRIES_MAX \<equiv> 65535"

abbreviation (input) REXC_ENTRIES_MAX :: "'a::len word" where
  "REXC_ENTRIES_MAX \<equiv> 65535"

abbreviation (input) FCBL_ENTRIES_MAX :: "'a::len word" where
  "FCBL_ENTRIES_MAX \<equiv> 65535"

abbreviation (input) FCINC_ENTRIES_MAX :: "'a::len word" where
  "FCINC_ENTRIES_MAX \<equiv> 65535"

abbreviation (input) FCEXC_ENTRIES_MAX :: "'a::len word" where
  "FCEXC_ENTRIES_MAX \<equiv> 65535"

abbreviation (input) FSBL_ENTRIES_MAX :: "'a::len word" where
  "FSBL_ENTRIES_MAX \<equiv> 65535"

abbreviation (input) FSINC_ENTRIES_MAX :: "'a::len word" where
  "FSINC_ENTRIES_MAX \<equiv> 65535"

abbreviation (input) FSEXC_ENTRIES_MAX :: "'a::len word" where
  "FSEXC_ENTRIES_MAX \<equiv> 65535"

abbreviation (input) WBL_ENTRIES_MAX :: "'a::len word" where
  "WBL_ENTRIES_MAX \<equiv> 65535"

abbreviation (input) WINC_ENTRIES_MAX :: "'a::len word" where
  "WINC_ENTRIES_MAX \<equiv> 65535"

abbreviation (input) WEXC_ENTRIES_MAX :: "'a::len word" where
  "WEXC_ENTRIES_MAX \<equiv> 65535"

abbreviation (input) NEW_PROCS_MAX :: "'a::len word" where
  "NEW_PROCS_MAX \<equiv> 32000"

subsection \<open>Event types\<close>

abbreviation (input) PROCESS_CREATION :: "'a::len word" where
  "PROCESS_CREATION \<equiv> 0x01"

abbreviation (input) MM_FILE_CREATE_TIME :: "'a::len word" where
  "MM_FILE_CREATE_TIME \<equiv> 0x2"

abbreviation (input) NETWORK_CONNECTION :: "'a::len word" where
  "NETWORK_CONNECTION \<equiv> 0x3"

abbreviation (input) MM_MESSAGE :: "'a::len word" where
  "MM_MESSAGE \<equiv> 0x4"

abbreviation (input) PROCESS_TERMINATED :: "'a::len word" where
  "PROCESS_TERMINATED \<equiv> 0x05"

abbreviation (input) DRIVER_LOADED :: "'a::len word" where
  "DRIVER_LOADED \<equiv> 0x6"

abbreviation (input) IMAGE_LOADED :: "'a::len word" where
  "IMAGE_LOADED \<equiv> 0x7"

abbreviation (input) CREATE_REMOTE_THREAD :: "'a::len word" where
  "CREATE_REMOTE_THREAD \<equiv> 0x8"

abbreviation (input) RAW_ACCESS_READ :: "'a::len word" where
  "RAW_ACCESS_READ \<equiv> 0x9"

abbreviation (input) PROCESS_ACCESS :: "'a::len word" where
  "PROCESS_ACCESS \<equiv> 0x10"

abbreviation (input) MM_FILE_CREATED :: "'a::len word" where
  "MM_FILE_CREATED \<equiv> 0x0a"

abbreviation (input) REGISTRY_EVENT :: "'a::len word" where
  "REGISTRY_EVENT \<equiv> 0x12"

abbreviation (input) MM_FILE_SET_INFO :: "'a::len word" where
  "MM_FILE_SET_INFO \<equiv> 0x13"

abbreviation (input) MM_NETWORK_RESOURCE :: "'a::len word" where
  "MM_NETWORK_RESOURCE \<equiv> 0x14"

subsection \<open>Field types\<close>

abbreviation (input) MATCH_ID :: "'a::len word" where
  "MATCH_ID \<equiv> 0x1d"

abbreviation (input) TIMESTAMP :: "'a::len word" where
  "TIMESTAMP \<equiv> 0x80"

abbreviation (input) IMAGE_FILE_NAME :: "'a::len word" where
  "IMAGE_FILE_NAME \<equiv> 0x81"

abbreviation (input) COMMAND_LINE :: "'a::len word" where
  "COMMAND_LINE \<equiv> 0x82"

abbreviation (input) PID :: "'a::len word" where
  "PID \<equiv> 0x83"

abbreviation (input) PARENT_PID :: "'a::len word" where
  "PARENT_PID \<equiv> 0x84"

abbreviation (input) PARENT_IMAGE_FILE_NAME :: "'a::len word" where
  "PARENT_IMAGE_FILE_NAME \<equiv> 0x85"

abbreviation (input) PARENT_COMMAND_LINE :: "'a::len word" where
  "PARENT_COMMAND_LINE \<equiv> 0x86"

abbreviation (input) PCWD :: "'a::len word" where
  "PCWD \<equiv> 0x87"

abbreviation (input) PFLAGS :: "'a::len word" where
  "PFLAGS \<equiv> 0x88"

abbreviation (input) PWINDOW_TITLE :: "'a::len word" where
  "PWINDOW_TITLE \<equiv> 0x89"

abbreviation (input) CREATING_THREAD_ID :: "'a::len word" where
  "CREATING_THREAD_ID \<equiv> 0x90"

abbreviation (input) CREATION_STATUS :: "'a::len word" where
  "CREATION_STATUS \<equiv> 0x91"

abbreviation (input) THREAD_ID :: "'a::len word" where
  "THREAD_ID \<equiv> 0x92"

abbreviation (input) LOADED_MODULE :: "'a::len word" where
  "LOADED_MODULE \<equiv> 0x93"

abbreviation (input) MODULE_PROPERTIES :: "'a::len word" where
  "MODULE_PROPERTIES \<equiv> 0x94"

abbreviation (input) TARGET_IMAGE_FILE_NAME :: "'a::len word" where
  "TARGET_IMAGE_FILE_NAME \<equiv> 0x95"

abbreviation (input) TARGET_COMMAND_LINE :: "'a::len word" where
  "TARGET_COMMAND_LINE \<equiv> 0x96"

abbreviation (input) TARGET_PID :: "'a::len word" where
  "TARGET_PID \<equiv> 0x97"

abbreviation (input) PHFLAGS :: "'a::len word" where
  "PHFLAGS \<equiv> 0x98"

abbreviation (input) PHOPERATION :: "'a::len word" where
  "PHOPERATION \<equiv> 0x99"

abbreviation (input) PHDESIRED_ACCESS :: "'a::len word" where
  "PHDESIRED_ACCESS \<equiv> 0x9a"

abbreviation (input) PHORIGINAL_DESIRED_ACCESS :: "'a::len word" where
  "PHORIGINAL_DESIRED_ACCESS \<equiv> 0x9b"

abbreviation (input) REG_KEY :: "'a::len word" where
  "REG_KEY \<equiv> 0x9c"

abbreviation (input) REG_KEY_NEW :: "'a::len word" where
  "REG_KEY_NEW \<equiv> 0x9d"

abbreviation (input) REG_VALUE_NAME :: "'a::len word" where
  "REG_VALUE_NAME \<equiv> 0x9e"

abbreviation (input) REG_DATA :: "'a::len word" where
  "REG_DATA \<equiv> 0x9f"

abbreviation (input) REG_OP :: "'a::len word" where
  "REG_OP \<equiv> 0xb0"

abbreviation (input) REG_OLD_FILE_NAME :: "'a::len word" where
  "REG_OLD_FILE_NAME \<equiv> 0xb1"

abbreviation (input) REG_NEW_FILE_NAME :: "'a::len word" where
  "REG_NEW_FILE_NAME \<equiv> 0xb2"

abbreviation (input) REG_DATA_TYPE :: "'a::len word" where
  "REG_DATA_TYPE \<equiv> 0xb3"

abbreviation (input) PROCESS_SID :: "'a::len word" where
  "PROCESS_SID \<equiv> 0xb4"

abbreviation (input) MM_FILE_NAME :: "'a::len word" where
  "MM_FILE_NAME \<equiv> 0xb5"

abbreviation (input) MM_FILE_VOLUME :: "'a::len word" where
  "MM_FILE_VOLUME \<equiv> 0xb6"

abbreviation (input) MM_FILE_EXTENSION :: "'a::len word" where
  "MM_FILE_EXTENSION \<equiv> 0xb7"

abbreviation (input) MM_FILE_SHARE :: "'a::len word" where
  "MM_FILE_SHARE \<equiv> 0xb8"

abbreviation (input) MM_FILE_STREAM :: "'a::len word" where
  "MM_FILE_STREAM \<equiv> 0xb9"

abbreviation (input) MM_FILE_FINAL_COMPONENT :: "'a::len word" where
  "MM_FILE_FINAL_COMPONENT \<equiv> 0xba"

abbreviation (input) MM_FILE_PARENT_DIR :: "'a::len word" where
  "MM_FILE_PARENT_DIR \<equiv> 0xbb"

abbreviation (input) MM_FILE_FLAGS :: "'a::len word" where
  "MM_FILE_FLAGS \<equiv> 0xbc"

abbreviation (input) MM_FILE_CREATION_TIME :: "'a::len word" where
  "MM_FILE_CREATION_TIME \<equiv> 0xbd"

abbreviation (input) MM_FILE_CHANGE_TIME :: "'a::len word" where
  "MM_FILE_CHANGE_TIME \<equiv> 0xbe"

abbreviation (input) MM_FILE_ACCESS_FLAGS :: "'a::len word" where
  "MM_FILE_ACCESS_FLAGS \<equiv> 0xbf"

abbreviation (input) MM_FILE_NEW_NAME :: "'a::len word" where
  "MM_FILE_NEW_NAME \<equiv> 0xc0"

abbreviation (input) MM_FILE_NETWORK_PROTOCOL :: "'a::len word" where
  "MM_FILE_NETWORK_PROTOCOL \<equiv> 0xc1"

abbreviation (input) MM_FILE_NETWORK_PROTOCOL_VERSION_MAJOR :: "'a::len word" where
  "MM_FILE_NETWORK_PROTOCOL_VERSION_MAJOR \<equiv> 0xc2"

abbreviation (input) MM_FILE_NETWORK_PROTOCOL_VERSION_MINOR :: "'a::len word" where
  "MM_FILE_NETWORK_PROTOCOL_VERSION_MINOR \<equiv> 0xc3"

abbreviation (input) MM_NAMED_PIPE_TYPE :: "'a::len word" where
  "MM_NAMED_PIPE_TYPE \<equiv> 0xc4"

abbreviation (input) MM_NAMED_PIPE_CONFIG :: "'a::len word" where
  "MM_NAMED_PIPE_CONFIG \<equiv> 0xc5"

abbreviation (input) MM_NAMED_PIPE_STATE :: "'a::len word" where
  "MM_NAMED_PIPE_STATE \<equiv> 0xc6"

abbreviation (input) MM_NAMED_PIPE_END :: "'a::len word" where
  "MM_NAMED_PIPE_END \<equiv> 0xc7"

abbreviation (input) MM_FILE_DELETION :: "'a::len word" where
  "MM_FILE_DELETION \<equiv> 0xc8"

abbreviation (input) MM_FILE_OPERATION :: "'a::len word" where
  "MM_FILE_OPERATION \<equiv> 0xc9"

abbreviation (input) MM_WFP_LAYER :: "'a::len word" where
  "MM_WFP_LAYER \<equiv> 0xca"

abbreviation (input) MM_NET_DIRECTION :: "'a::len word" where
  "MM_NET_DIRECTION \<equiv> 0xcb"

abbreviation (input) MM_NET_IP_PROTOCOL :: "'a::len word" where
  "MM_NET_IP_PROTOCOL \<equiv> 0xcc"

abbreviation (input) MM_NET_ADDRESS_TYPE :: "'a::len word" where
  "MM_NET_ADDRESS_TYPE \<equiv> 0xcd"

abbreviation (input) MM_NET_PROMISCUOUS :: "'a::len word" where
  "MM_NET_PROMISCUOUS \<equiv> 0xce"

abbreviation (input) MM_NET_LOCAL_PORT :: "'a::len word" where
  "MM_NET_LOCAL_PORT \<equiv> 0xcf"

abbreviation (input) MM_NET_REMOTE_PORT :: "'a::len word" where
  "MM_NET_REMOTE_PORT \<equiv> 0xd0"

abbreviation (input) MM_NET_LOCAL_IPV4_ADDR :: "'a::len word" where
  "MM_NET_LOCAL_IPV4_ADDR \<equiv> 0xd1"

abbreviation (input) MM_NET_REMOTE_IPV4_ADDR :: "'a::len word" where
  "MM_NET_REMOTE_IPV4_ADDR \<equiv> 0xd2"

abbreviation (input) MM_NET_INTERFACE_TYPE :: "'a::len word" where
  "MM_NET_INTERFACE_TYPE \<equiv> 0xd3"

abbreviation (input) MM_NET_INTERFACE :: "'a::len word" where
  "MM_NET_INTERFACE \<equiv> 0xd4"

abbreviation (input) MM_NET_LOCAL_IPV6_ADDR :: "'a::len word" where
  "MM_NET_LOCAL_IPV6_ADDR \<equiv> 0xd5"

abbreviation (input) MM_NET_REMOTE_IPV6_ADDR :: "'a::len word" where
  "MM_NET_REMOTE_IPV6_ADDR \<equiv> 0xd6"

abbreviation (input) TARGET_PARENT_IMAGE_FILE_NAME :: "'a::len word" where
  "TARGET_PARENT_IMAGE_FILE_NAME \<equiv> 0xd7"

abbreviation (input) TARGET_PARENT_COMMAND_LINE :: "'a::len word" where
  "TARGET_PARENT_COMMAND_LINE \<equiv> 0xd8"

abbreviation (input) TARGET_PWINDOW_TITLE :: "'a::len word" where
  "TARGET_PWINDOW_TITLE \<equiv> 0xd9"

abbreviation (input) TARGET_PCWD :: "'a::len word" where
  "TARGET_PCWD \<equiv> 0xda"

abbreviation (input) SID_DATA :: "'a::len word" where
  "SID_DATA \<equiv> 0xdb"

abbreviation (input) ACCOUNT_NAME :: "'a::len word" where
  "ACCOUNT_NAME \<equiv> 0xdc"

abbreviation (input) ACCOUNT_DOMAIN :: "'a::len word" where
  "ACCOUNT_DOMAIN \<equiv> 0xdd"

abbreviation (input) LOG_FLAGS :: "'a::len word" where
  "LOG_FLAGS \<equiv> 0xFE"

abbreviation (input) EVENT_TYPE :: "'a::len word" where
  "EVENT_TYPE \<equiv> 0xFF"

abbreviation (input) EVENT_END :: "'a::len word" where
  "EVENT_END \<equiv> 0xFC"

subsection \<open>Configuration list types\<close>

abbreviation (input) LIST_COUNT :: "'a::len word" where
  "LIST_COUNT \<equiv> 26"

abbreviation (input) PROCESS_BLOCK_LIST :: "'a::len word" where
  "PROCESS_BLOCK_LIST \<equiv> 0x10"

abbreviation (input) PROCESS_INCLUDE_LIST :: "'a::len word" where
  "PROCESS_INCLUDE_LIST \<equiv> 0xd0"

abbreviation (input) PROCESS_EXCLUDE_LIST :: "'a::len word" where
  "PROCESS_EXCLUDE_LIST \<equiv> 0xd1"

abbreviation (input) PROCESS_TERMINATED_INCLUDE_LIST :: "'a::len word" where
  "PROCESS_TERMINATED_INCLUDE_LIST \<equiv> 0xd2"

abbreviation (input) PROCESS_TERMINATED_EXCLUDE_LIST :: "'a::len word" where
  "PROCESS_TERMINATED_EXCLUDE_LIST \<equiv> 0xd3"

abbreviation (input) THREAD_BLOCK_LIST :: "'a::len word" where
  "THREAD_BLOCK_LIST \<equiv> 0xd4"

abbreviation (input) THREAD_INCLUDE_LIST :: "'a::len word" where
  "THREAD_INCLUDE_LIST \<equiv> 0xd5"

abbreviation (input) THREAD_EXCLUDE_LIST :: "'a::len word" where
  "THREAD_EXCLUDE_LIST \<equiv> 0xd6"

abbreviation (input) MODULE_BLOCK_LIST :: "'a::len word" where
  "MODULE_BLOCK_LIST \<equiv> 0xd7"

abbreviation (input) MODULE_INCLUDE_LIST :: "'a::len word" where
  "MODULE_INCLUDE_LIST \<equiv> 0xd8"

abbreviation (input) MODULE_EXCLUDE_LIST :: "'a::len word" where
  "MODULE_EXCLUDE_LIST \<equiv> 0xd9"

abbreviation (input) OBJECT_BLOCK_LIST :: "'a::len word" where
  "OBJECT_BLOCK_LIST \<equiv> 0xda"

abbreviation (input) OBJECT_INCLUDE_LIST :: "'a::len word" where
  "OBJECT_INCLUDE_LIST \<equiv> 0xdb"

abbreviation (input) OBJECT_EXCLUDE_LIST :: "'a::len word" where
  "OBJECT_EXCLUDE_LIST \<equiv> 0xdc"

abbreviation (input) REGISTRY_BLOCK_LIST :: "'a::len word" where
  "REGISTRY_BLOCK_LIST \<equiv> 0xdd"

abbreviation (input) REGISTRY_INCLUDE_LIST :: "'a::len word" where
  "REGISTRY_INCLUDE_LIST \<equiv> 0xde"

abbreviation (input) REGISTRY_EXCLUDE_LIST :: "'a::len word" where
  "REGISTRY_EXCLUDE_LIST \<equiv> 0xdf"

abbreviation (input) FILE_CREATE_BLOCK_LIST :: "'a::len word" where
  "FILE_CREATE_BLOCK_LIST \<equiv> 0xe0"

abbreviation (input) FILE_CREATE_INCLUDE_LIST :: "'a::len word" where
  "FILE_CREATE_INCLUDE_LIST \<equiv> 0xe1"

abbreviation (input) FILE_CREATE_EXCLUDE_LIST :: "'a::len word" where
  "FILE_CREATE_EXCLUDE_LIST \<equiv> 0xe2"

abbreviation (input) FILE_SET_INFO_BLOCK_LIST :: "'a::len word" where
  "FILE_SET_INFO_BLOCK_LIST \<equiv> 0xe3"

abbreviation (input) FILE_SET_INFO_INCLUDE_LIST :: "'a::len word" where
  "FILE_SET_INFO_INCLUDE_LIST \<equiv> 0xe4"

abbreviation (input) FILE_SET_INFO_EXCLUDE_LIST :: "'a::len word" where
  "FILE_SET_INFO_EXCLUDE_LIST \<equiv> 0xe5"

abbreviation (input) WFP_BLOCK_LIST :: "'a::len word" where
  "WFP_BLOCK_LIST \<equiv> 0xe6"

abbreviation (input) WFP_INCLUDE_LIST :: "'a::len word" where
  "WFP_INCLUDE_LIST \<equiv> 0xe7"

abbreviation (input) WFP_EXCLUDE_LIST :: "'a::len word" where
  "WFP_EXCLUDE_LIST \<equiv> 0xe8"

subsection \<open>Match operators\<close>

abbreviation (input) STARTS_WITH :: "'a::len word" where
  "STARTS_WITH \<equiv> 0x08"

abbreviation (input) NOT_STARTS_WITH :: "'a::len word" where
  "NOT_STARTS_WITH \<equiv> 0x80"

abbreviation (input) ENDS_WITH :: "'a::len word" where
  "ENDS_WITH \<equiv> 0x09"

abbreviation (input) NOT_ENDS_WITH :: "'a::len word" where
  "NOT_ENDS_WITH \<equiv> 0x90"

abbreviation (input) CONTAINS :: "'a::len word" where
  "CONTAINS \<equiv> 0xc0"

abbreviation (input) NOT_CONTAINS :: "'a::len word" where
  "NOT_CONTAINS \<equiv> 0x0c"

abbreviation (input) EQUALS :: "'a::len word" where
  "EQUALS \<equiv> 0xe0"

abbreviation (input) NOT_EQUALS :: "'a::len word" where
  "NOT_EQUALS \<equiv> 0x0e"

abbreviation (input) MM_AND :: "'a::len word" where
  "MM_AND \<equiv> 0xf0"

abbreviation (input) MM_NOT_AND :: "'a::len word" where
  "MM_NOT_AND \<equiv> 0x0f"

abbreviation (input) GREATER_THAN :: "'a::len word" where
  "GREATER_THAN \<equiv> 0xde"

abbreviation (input) NOT_GREATER_THAN :: "'a::len word" where
  "NOT_GREATER_THAN \<equiv> 0xed"

abbreviation (input) GREAT_OR_EQUAL :: "'a::len word" where
  "GREAT_OR_EQUAL \<equiv> 0x42"

abbreviation (input) LESS_THAN :: "'a::len word" where
  "LESS_THAN \<equiv> 0x37"

abbreviation (input) NOT_LESS_THAN :: "'a::len word" where
  "NOT_LESS_THAN \<equiv> 0x73"

abbreviation (input) LESS_OR_EQUAL :: "'a::len word" where
  "LESS_OR_EQUAL \<equiv> 0xee"

subsection \<open>Actions\<close>

abbreviation (input) MM_STATUS_ACCESS_DENIED :: "'a::len word" where
  "MM_STATUS_ACCESS_DENIED \<equiv> 0xC0000022"

abbreviation (input) MM_STATUS_NOT_FOUND :: "'a::len word" where
  "MM_STATUS_NOT_FOUND \<equiv> 0xC0000225"

abbreviation (input) MM_STATUS_PENDING :: "'a::len word" where
  "MM_STATUS_PENDING \<equiv> 0x00000103"
section \<open>Structures\<close>

text \<open>\<open>enum MM_DATA_TYPE\<close>, the type of a field's value.\<close>

datatype MM_TYPE = MM_BAD_TYPE | MM_META | MM_ENUM | MM_BOOL | MM_UINT8 | MM_INT8
  | MM_UINT16 | MM_INT16 | MM_UINT32 | MM_INT32 | MM_UINT64 | MM_INT64
  | MM_IPV4 | MM_IPV6 | MM_UNICODE

text \<open>\<open>UNICODE_STRING\<close>: a counted string. \<open>Length\<close> counts bytes; the buffer is the bytes
  that can be read at \<open>Buffer\<close>.\<close>

record UNICODE_STRING =
  Length :: u16
  MaximumLength :: u16
  Buffer :: "u8 list ptr"

text \<open>The bytes a counted string denotes.\<close>

definition ustr_bytes :: "UNICODE_STRING \<Rightarrow> u8 list" where
  "ustr_bytes s = (case Buffer s of Null \<Rightarrow> [] | Ptr _ bs \<Rightarrow> take (unat (Length s)) bs)"

text \<open>A string whose buffer is as long as its length says.\<close>

definition wf_ustr :: "UNICODE_STRING \<Rightarrow> bool" where
  "wf_ustr s = (case Buffer s of Null \<Rightarrow> Length s = 0 | Ptr _ bs \<Rightarrow> unat (Length s) \<le> length bs)"

lemma length_ustr_bytes [simp]: "wf_ustr s \<Longrightarrow> length (ustr_bytes s) = unat (Length s)"
  by (auto simp: wf_ustr_def ustr_bytes_def split: ptr.splits)

record LOG_ENTRY =
  le_size :: u32
  le_data :: "u8 list"
  le_tag :: string

record CFG =
  cfg_size :: u32
  cfg_type :: u16
  cfg_field_type :: u16
  cfg_match_type :: u8
  cfg_id :: u32
  cfg_actions :: u32

record CFI =
  match_type :: u8
  itemBoolean :: bool
  itemInt8 :: u8
  itemUint8 :: u8
  ipv6Prefix :: u8
  field_type :: u16
  itemUshort :: u16
  itemUlong :: u32
  ipv4Subnet :: u32
  ipv4SubnetMask :: u32
  itemLonglong :: u64
  ipv6Subnet :: "u8 list ptr"
  item :: "UNICODE_STRING ptr"
  cfi_tag :: string

record CONFIG_GROUP =
  entries :: "CFI ptr list"
  cg_count :: u32
  cg_id :: u32
  cg_actions :: u32
  cg_tag :: string

record USER_INFO =
  sid_data :: "u8 list ptr"
  sid_data_length :: u8
  ui_name :: "UNICODE_STRING ptr"
  ui_domain :: "UNICODE_STRING ptr"
  ui_tag :: string

record PROC_INFO =
  ImageFileName :: "UNICODE_STRING ptr"
  ParentImageFileName :: "UNICODE_STRING ptr"
  CommandLine :: "UNICODE_STRING ptr"
  ParentCommandLine :: "UNICODE_STRING ptr"
  WindowTitle :: "UNICODE_STRING ptr"
  CWD :: "UNICODE_STRING ptr"
  pi_UI :: "USER_INFO ptr"
  pi_tag :: string

record TC_INFO =
  tc_PI :: "PROC_INFO ptr"
  tc_TPI :: "PROC_INFO ptr"
  tc_tag :: string

record MODULE_INFO =
  ImageLoaded :: "UNICODE_STRING ptr"
  ImageProperties :: u32
  mi_PI :: "PROC_INFO ptr"
  mi_tag :: string

record REG_INFO =
  notifyClass :: u32
  RegistryKey :: "UNICODE_STRING ptr"
  RegistryKeyNew :: "UNICODE_STRING ptr"
  RegistryValueName :: "UNICODE_STRING ptr"
  NewFileName :: "UNICODE_STRING ptr"
  OldFilename :: "UNICODE_STRING ptr"
  ri_Data :: "u8 list ptr"
  ri_DataSize :: u32
  ri_DataType :: u32
  ri_PI :: "PROC_INFO ptr"
  ri_tag :: string

record OBPROC =
  ob_Operation :: u32
  ob_Flags :: u32
  DesiredAccess :: u32
  OriginalDesiredAccess :: u32
  ob_PI :: "PROC_INFO ptr"
  ob_TPI :: "PROC_INFO ptr"
  ob_tag :: string

record FILE_INFO =
  CreateOptions :: u32
  fi_Name :: "UNICODE_STRING ptr"
  fi_Volume :: "UNICODE_STRING ptr"
  fi_Share :: "UNICODE_STRING ptr"
  fi_Extension :: "UNICODE_STRING ptr"
  fi_Stream :: "UNICODE_STRING ptr"
  fi_FinalComponent :: "UNICODE_STRING ptr"
  fi_ParentDir :: "UNICODE_STRING ptr"
  fi_PI :: "PROC_INFO ptr"
  fi_tag :: string

record FILE_SET_INFO =
  fs_Operation :: u32
  fs_Name :: "UNICODE_STRING ptr"
  fs_Volume :: "UNICODE_STRING ptr"
  fs_Share :: "UNICODE_STRING ptr"
  fs_Extension :: "UNICODE_STRING ptr"
  fs_Stream :: "UNICODE_STRING ptr"
  fs_FinalComponent :: "UNICODE_STRING ptr"
  fs_ParentDir :: "UNICODE_STRING ptr"
  fs_PI :: "PROC_INFO ptr"
  CreationTime :: u64
  ChangeTime :: u64
  AccessFlags :: u32
  NewName :: "UNICODE_STRING ptr"
  Protocol :: u32
  ProtocolMajorVersion :: u16
  ProtocolMinorVersion :: u16
  NamedPipeType :: u32
  NamedPipeConfiguration :: u32
  NamedPipeState :: u32
  NamedPipeEnd :: u32
  DeleteFile :: u8
  fs_tag :: string

record WFP_INFO =
  Direction :: u8
  ipProtocol :: u8
  addrType :: u8
  promiscuous :: u8
  wfp_layer :: u16
  localPort :: u16
  remotePort :: u16
  localIpv4Addr :: u32
  remoteIpv4Addr :: u32
  interfaceType :: u32
  wfp_interface :: u64
  localIpv6Addr :: "u8 list ptr"
  remoteIpv6Addr :: "u8 list ptr"
  wfp_PI :: "PROC_INFO ptr"
  wfp_tag :: string

record PCACHE =
  pc_hits :: u64
  pc_p :: u64
  pc_New :: bool
  pc_InUse :: bool
  pc_PI :: "PROC_INFO ptr"
  pc_tag :: string

text \<open>The 26 configuration lists of the global context, each a pointer field \<open>X\<close> with its
  counter \<open>X_COUNT\<close>; the model keeps them as two functions of the list's name.\<close>

datatype rule_list = PBL | PINC | PEXC | PTINC | PTEXC | TBL | TINC | TEXC | MBL | MINC | MEXC
  | OBL | OINC | OEXC | RBL | RINC | REXC | FCBL | FCINC | FCEXC | FSBL | FSINC | FSEXC
  | WBL | WINC | WEXC

record GC =
  gc_State :: u16
  WFP_Registered :: bool
  KSECDD_LOADED :: bool
  BFENotifyHandle :: u64
  gc_Cookie :: u64
  gc_L :: "LOG_ENTRY list"
  PROCESS_CALLBACK :: bool
  THREAD_CALLBACK :: bool
  MODULE_CALLBACK :: bool
  OBJECT_CALLBACK :: bool
  REGISTRY_CALLBACK :: bool
  FILE_CALLBACK :: bool
  WFP_CALLBACK :: bool
  KEEP_EXCLUDES :: bool
  RESIST_TAMPERING :: bool
  ObRegHandle :: u64
  L_SIZE :: u32
  L_SIZE_BYTES :: u32
  gc_list :: "rule_list \<Rightarrow> CONFIG_GROUP ptr list ptr"
  gc_COUNT :: "rule_list \<Rightarrow> u32"
  REG_DATA_MAX_SIZE :: u32
  NEW_PROCS :: "PCACHE list"
  NEW_PROCS_INDEX :: u32
  gc_id :: u64
  clientpid :: u64
  clientppid :: u64
  gc_tag :: string

text \<open>The global context after \<open>memset(globals, 0, ...)\<close> and \<open>InitializeListHead\<close>.\<close>

definition zeroed_slot :: PCACHE where
  "zeroed_slot = \<lparr>pc_hits = 0, pc_p = 0, pc_New = False, pc_InUse = False, pc_PI = Null, pc_tag = ''''\<rparr>"

definition zeroed_gc :: GC where
  "zeroed_gc = \<lparr>gc_State = 0, WFP_Registered = False, KSECDD_LOADED = False, BFENotifyHandle = 0,
     gc_Cookie = 0, gc_L = [], PROCESS_CALLBACK = False, THREAD_CALLBACK = False,
     MODULE_CALLBACK = False, OBJECT_CALLBACK = False, REGISTRY_CALLBACK = False,
     FILE_CALLBACK = False, WFP_CALLBACK = False, KEEP_EXCLUDES = False, RESIST_TAMPERING = False,
     ObRegHandle = 0, L_SIZE = 0, L_SIZE_BYTES = 0, gc_list = \<lambda>_. Null, gc_COUNT = \<lambda>_. 0,
     REG_DATA_MAX_SIZE = 0, NEW_PROCS = replicate 32000 zeroed_slot, NEW_PROCS_INDEX = 0,
     gc_id = 0, clientpid = 0, clientppid = 0, gc_tag = ''''\<rparr>"

section \<open>Status codes of the Windows headers\<close>

abbreviation (input) STATUS_SUCCESS :: NTSTATUS where "STATUS_SUCCESS \<equiv> 0"
abbreviation (input) STATUS_PENDING :: NTSTATUS where "STATUS_PENDING \<equiv> 0x103"
abbreviation (input) STATUS_BUFFER_OVERFLOW :: NTSTATUS where "STATUS_BUFFER_OVERFLOW \<equiv> 0x80000005"
abbreviation (input) STATUS_NO_MORE_ENTRIES :: NTSTATUS where "STATUS_NO_MORE_ENTRIES \<equiv> 0x8000001A"
abbreviation (input) STATUS_UNSUCCESSFUL :: NTSTATUS where "STATUS_UNSUCCESSFUL \<equiv> 0xC0000001"
abbreviation (input) STATUS_INFO_LENGTH_MISMATCH :: NTSTATUS where "STATUS_INFO_LENGTH_MISMATCH \<equiv> 0xC0000004"
abbreviation (input) STATUS_INVALID_PARAMETER :: NTSTATUS where "STATUS_INVALID_PARAMETER \<equiv> 0xC000000D"
abbreviation (input) STATUS_NO_MEMORY :: NTSTATUS where "STATUS_NO_MEMORY \<equiv> 0xC0000017"
abbreviation (input) STATUS_ACCESS_DENIED :: NTSTATUS where "STATUS_ACCESS_DENIED \<equiv> 0xC0000022"
abbreviation (input) STATUS_BUFFER_TOO_SMALL :: NTSTATUS where "STATUS_BUFFER_TOO_SMALL \<equiv> 0xC0000023"
abbreviation (input) STATUS_INTERNAL_ERROR :: NTSTATUS where "STATUS_INTERNAL_ERROR \<equiv> 0xC00000E5"
abbreviation (input) STATUS_INVALID_BUFFER_SIZE :: NTSTATUS where "STATUS_INVALID_BUFFER_SIZE \<equiv> 0xC0000206"
abbreviation (input) STATUS_INVALID_MESSAGE :: NTSTATUS where "STATUS_INVALID_MESSAGE \<equiv> 0xC0000702"
abbreviation (input) STATUS_RESOURCE_IN_USE :: NTSTATUS where "STATUS_RESOURCE_IN_USE \<equiv> 0xC0000708"
abbreviation (input) STATUS_BAD_DATA :: NTSTATUS where "STATUS_BAD_DATA \<equiv> 0xC000090B"

end
