(* ===== verification/MM_Utils.thy ===== *)
theory MM_Utils
  imports MM_Types
begin

text \<open>
  \<open>src/MoonMon/Utils.c\<close>: the id generator, the string helpers and the rule checks that
  compare one rule item with one value of an event. A check takes the item, the value and the
  caller's match counter and returns the counter; each is shown to be \<open>tick b\<close> of the counter
  for a condition \<open>b\<close> that is characterised on its own.
\<close>

section \<open>The kernel runtime\<close>

text \<open>The routines of the NT kernel the string code calls. \<open>ExAllocatePool2\<close> answers a request
  with an address, 0 for NULL; its first argument distinguishes the requests of one run, so that
  any of them may fail. \<open>RtlDowncaseUnicodeString\<close> takes the capacity of the destination and
  returns its status and the bytes it wrote. The case-insensitivity argument of the prefix
  and suffix tests is always FALSE in the code.\<close>

record rtl =
  ExAllocatePool2 :: "u64 \<Rightarrow> nat \<Rightarrow> u64"
  RtlDowncaseUnicodeString :: "u16 \<Rightarrow> UNICODE_STRING \<Rightarrow> NTSTATUS \<times> u8 list"
  RtlPrefixUnicodeString :: "UNICODE_STRING \<Rightarrow> UNICODE_STRING \<Rightarrow> bool"
  RtlSuffixUnicodeString :: "UNICODE_STRING \<Rightarrow> UNICODE_STRING \<Rightarrow> bool"
  RtlCompareMemory :: "u8 list \<Rightarrow> u8 list \<Rightarrow> nat \<Rightarrow> nat"

text \<open>What the Windows documentation promises of them: the conversion succeeds when the
  destination is large enough and keeps the length, the tests compare the bytes of the two
  counted strings, and \<open>RtlCompareMemory\<close> counts the equal bytes before the first
  difference. The pool is not part of it: a request may be refused.\<close>

definition same_bytes :: "u8 list \<Rightarrow> u8 list \<Rightarrow> nat" where
  "same_bytes xs ys = length (takeWhile (\<lambda>(x, y). x = y) (zip xs ys))"

definition rtl_documented :: "rtl \<Rightarrow> (u8 list \<Rightarrow> u8 list) \<Rightarrow> bool" where
  "rtl_documented R low \<longleftrightarrow>
     (\<forall>bs. length (low bs) = length bs)
   \<and> (\<forall>m s. wf_ustr s \<longrightarrow> Length s \<le> m \<longrightarrow>
        (case RtlDowncaseUnicodeString R m s of (st, bs) \<Rightarrow> NT_SUCCESS st \<and> bs = low (ustr_bytes s)))
   \<and> (\<forall>p s. RtlPrefixUnicodeString R p s \<longleftrightarrow> prefix (ustr_bytes p) (ustr_bytes s))
   \<and> (\<forall>p s. RtlSuffixUnicodeString R p s \<longleftrightarrow> suffix (ustr_bytes p) (ustr_bytes s))
   \<and> (\<forall>xs ys n. RtlCompareMemory R xs ys n = same_bytes (take n xs) (take n ys))"

text \<open>No request of the pool is refused.\<close>

definition pool_ample :: "rtl \<Rightarrow> bool" where
  "pool_ample R \<longleftrightarrow> (\<forall>k n. ExAllocatePool2 R k n \<noteq> 0)"

text \<open>A concrete runtime that meets both: ASCII letters of little-endian UTF-16 are lowered.\<close>

fun lower_units :: "u8 list \<Rightarrow> u8 list" where
  "lower_units (l # h # r) =
     (if h = 0 \<and> 0x41 \<le> l \<and> l \<le> 0x5A then l + 0x20 else l) # h # lower_units r"
| "lower_units r = r"

definition ref_rtl :: rtl where
  "ref_rtl = \<lparr>ExAllocatePool2 = \<lambda>_ _. 0xFFFF800000001000,
     RtlDowncaseUnicodeString = \<lambda>m s. if Length s \<le> m then (STATUS_SUCCESS, lower_units (ustr_bytes s))
        else (STATUS_BUFFER_OVERFLOW, []),
     RtlPrefixUnicodeString = \<lambda>p s. prefix (ustr_bytes p) (ustr_bytes s),
     RtlSuffixUnicodeString = \<lambda>p s. suffix (ustr_bytes p) (ustr_bytes s),
     RtlCompareMemory = \<lambda>xs ys n. same_bytes (take n xs) (take n ys)\<rparr>"

lemma length_lower_units [simp]: "length (lower_units bs) = length bs"
  by (induction bs rule: lower_units.induct) auto

lemma ref_rtl_documented: "rtl_documented ref_rtl lower_units"
  by (simp add: rtl_documented_def ref_rtl_def NT_SUCCESS_def)

lemma ref_rtl_ample: "pool_ample ref_rtl"
  by (simp add: pool_ample_def ref_rtl_def)

lemma same_bytes_all:
  "length xs = length ys \<Longrightarrow> same_bytes xs ys = length xs \<longleftrightarrow> xs = ys"
proof (induction xs ys rule: list_induct2)
  case (Cons x xs y ys)
  then show ?case by (auto simp: same_bytes_def)
qed (simp add: same_bytes_def)

section \<open>The id generator\<close>

text \<open>\<open>_id\<close>: the incremented counter, which restarts at 0 once it enters the last sixteen values.\<close>

definition mm_id :: "GC \<Rightarrow> u64 \<times> GC" where
  "mm_id globals =
     (let newid = gc_id globals + 1;
          globals = globals\<lparr>gc_id := newid\<rparr> in
      if 0xfffffffffffffff0 \<le> newid AND 0xfffffffffffffff0
      then (newid, globals\<lparr>gc_id := 0\<rparr>) else (newid, globals))"

section \<open>Copying and destroying counted strings\<close>

abbreviation (input) UNICODE_STRING_MAX_BYTES :: u16 where "UNICODE_STRING_MAX_BYTES \<equiv> 65534"

text \<open>\<open>AllocateAndCopyUnicodeString\<close> leaves \<open>*dest\<close> alone on a bad source or a refused structure; when
  only the buffer is refused, \<open>*dest\<close> is a zeroed structure.\<close>

definition AllocateAndCopyUnicodeString ::
  "rtl \<Rightarrow> UNICODE_STRING ptr \<Rightarrow> UNICODE_STRING ptr \<Rightarrow> UNICODE_STRING ptr" where
  "AllocateAndCopyUnicodeString R source dest =
     (case source of Null \<Rightarrow> dest
      | Ptr sa src \<Rightarrow>
        if Length src < 1 \<or> UNICODE_STRING_MAX_BYTES < Length src then dest else
        let da = ExAllocatePool2 R sa 16 in
        if da = 0 then Null else
        let ba = ExAllocatePool2 R (sa + 1) (unat (Length src)) in
        if ba = 0 then Ptr da \<lparr>Length = 0, MaximumLength = 0, Buffer = Null\<rparr> else
        Ptr da \<lparr>Length = Length src, MaximumLength = Length src, Buffer = Ptr ba (ustr_bytes src)\<rparr>)"

text \<open>\<open>DeallocateAndDestroyUnicodeString\<close>: the new pointer and the addresses returned to the pool.\<close>

definition DeallocateAndDestroyUnicodeString ::
  "UNICODE_STRING ptr \<Rightarrow> UNICODE_STRING ptr \<times> u64 list" where
  "DeallocateAndDestroyUnicodeString U =
     (case U of Null \<Rightarrow> (Null, [])
      | Ptr a s \<Rightarrow>
        let (s', freed) =
              (if VALID_PAGE (Buffer s)
               then (\<lparr>Length = 0, MaximumLength = 0, Buffer = Null\<rparr>, [addr (Buffer s)])
               else (s, [])) in
        if VALID_PAGE U then (Null, freed @ [a]) else (Ptr a s', freed))"

lemma AllocateAndCopy_content:
  assumes "pool_ample R" "source = Ptr sa src" "wf_ustr src" "1 \<le> Length src" "Length src \<le> 65534"
  shows "\<exists>da s. AllocateAndCopyUnicodeString R source dest = Ptr da s \<and> wf_ustr s
           \<and> ustr_bytes s = ustr_bytes src \<and> MaximumLength s = Length s"
proof -
  have "\<not> Length src < 1" "\<not> (65534 :: u16) < Length src"
    using assms by auto
  then show ?thesis
    using assms by (auto simp: AllocateAndCopyUnicodeString_def pool_ample_def Let_def wf_ustr_def
        ustr_bytes_def split: ptr.splits)
qed
section \<open>Checks of numbers\<close>

text \<open>The five numeric checks have one text, over five widths and fields; \<open>INT8\<close> and \<open>LONGLONG\<close>
  compare as signed values. The case \<open>NOT_AND\<close> has no \<open>break\<close>: it runs into the statement of
  \<open>EQUALS\<close>, which the second \<open>tick\<close> of its line is.\<close>

definition CheckUlongEntry :: "CFI ptr \<Rightarrow> u32 \<Rightarrow> u32 \<Rightarrow> u32" where
  "CheckUlongEntry entry toMatch matches =
     (if \<not> MM_TYPE_CHECK cfi_tag entry CALLISTO then matches else
      let v = itemUlong (deref entry) in
      switch (match_type (deref entry))
        [(MM_AND, tick (toMatch AND v = v) matches),
         (MM_NOT_AND, tick (toMatch = v) (tick (toMatch AND v \<noteq> v) matches)),
         (EQUALS, tick (toMatch = v) matches),
         (NOT_EQUALS, tick (toMatch \<noteq> v) matches),
         (NOT_LESS_THAN, tick (v < toMatch) matches),
         (GREATER_THAN, tick (v < toMatch) matches),
         (GREAT_OR_EQUAL, tick (v \<le> toMatch) matches),
         (NOT_GREATER_THAN, tick (toMatch < v) matches),
         (LESS_THAN, tick (toMatch < v) matches),
         (LESS_OR_EQUAL, tick (toMatch \<le> v) matches)] matches)"

definition CheckUint8Entry :: "CFI ptr \<Rightarrow> u8 \<Rightarrow> u32 \<Rightarrow> u32" where
  "CheckUint8Entry entry toMatch matches =
     (if \<not> MM_TYPE_CHECK cfi_tag entry CALLISTO then matches else
      let v = itemUint8 (deref entry) in
      switch (match_type (deref entry))
        [(MM_AND, tick (toMatch AND v = v) matches),
         (MM_NOT_AND, tick (toMatch = v) (tick (toMatch AND v \<noteq> v) matches)),
         (EQUALS, tick (toMatch = v) matches),
         (NOT_EQUALS, tick (toMatch \<noteq> v) matches),
         (NOT_LESS_THAN, tick (v < toMatch) matches),
         (GREATER_THAN, tick (v < toMatch) matches),
         (GREAT_OR_EQUAL, tick (v \<le> toMatch) matches),
         (NOT_GREATER_THAN, tick (toMatch < v) matches),
         (LESS_THAN, tick (toMatch < v) matches),
         (LESS_OR_EQUAL, tick (toMatch \<le> v) matches)] matches)"

definition CheckInt8Entry :: "CFI ptr \<Rightarrow> u8 \<Rightarrow> u32 \<Rightarrow> u32" where
  "CheckInt8Entry entry toMatch matches =
     (if \<not> MM_TYPE_CHECK cfi_tag entry CALLISTO then matches else
      let v = itemInt8 (deref entry) in
      switch (match_type (deref entry))
        [(MM_AND, tick (toMatch AND v = v) matches),
         (MM_NOT_AND, tick (toMatch = v) (tick (toMatch AND v \<noteq> v) matches)),
         (EQUALS, tick (toMatch = v) matches),
         (NOT_EQUALS, tick (toMatch \<noteq> v) matches),
         (NOT_LESS_THAN, tick (v <s toMatch) matches),
         (GREATER_THAN, tick (v <s toMatch) matches),
         (GREAT_OR_EQUAL, tick (v \<le>s toMatch) matches),
         (NOT_GREATER_THAN, tick (toMatch <s v) matches),
         (LESS_THAN, tick (toMatch <s v) matches),
         (LESS_OR_EQUAL, tick (toMatch \<le>s v) matches)] matches)"

definition CheckUshortEntry :: "CFI ptr \<Rightarrow> u16 \<Rightarrow> u32 \<Rightarrow> u32" where
  "CheckUshortEntry entry toMatch matches =
     (if \<not> MM_TYPE_CHECK cfi_tag entry CALLISTO then matches else
      let v = itemUshort (deref entry) in
      switch (match_type (deref entry))
        [(MM_AND, tick (toMatch AND v = v) matches),
         (MM_NOT_AND, tick (toMatch = v) (tick (toMatch AND v \<noteq> v) matches)),
         (EQUALS, tick (toMatch = v) matches),
         (NOT_EQUALS, tick (toMatch \<noteq> v) matches),
         (NOT_LESS_THAN, tick (v < toMatch) matches),
         (GREATER_THAN, tick (v < toMatch) matches),
         (GREAT_OR_EQUAL, tick (v \<le> toMatch) matches),
         (NOT_GREATER_THAN, tick (toMatch < v) matches),
         (LESS_THAN, tick (toMatch < v) matches),
         (LESS_OR_EQUAL, tick (toMatch \<le> v) matches)] matches)"

definition CheckLonglongEntry :: "CFI ptr \<Rightarrow> u64 \<Rightarrow> u32 \<Rightarrow> u32" where
  "CheckLonglongEntry entry toMatch matches =
     (if \<not> MM_TYPE_CHECK cfi_tag entry CALLISTO then matches else
      let v = itemLonglong (deref entry) in
      switch (match_type (deref entry))
        [(MM_AND, tick (toMatch AND v = v) matches),
         (MM_NOT_AND, tick (toMatch = v) (tick (toMatch AND v \<noteq> v) matches)),
         (EQUALS, tick (toMatch = v) matches),
         (NOT_EQUALS, tick (toMatch \<noteq> v) matches),
         (NOT_LESS_THAN, tick (v <s toMatch) matches),
         (GREATER_THAN, tick (v <s toMatch) matches),
         (GREAT_OR_EQUAL, tick (v \<le>s toMatch) matches),
         (NOT_GREATER_THAN, tick (toMatch <s v) matches),
         (LESS_THAN, tick (toMatch <s v) matches),
         (LESS_OR_EQUAL, tick (toMatch \<le>s v) matches)] matches)"
text \<open>The condition a numeric check tests, for the order of its type.\<close>

definition num_rel :: "('a::len word \<Rightarrow> 'a word \<Rightarrow> bool) \<Rightarrow> u8 \<Rightarrow> 'a word \<Rightarrow> 'a word \<Rightarrow> bool" where
  "num_rel lt mt x v =
     (if mt = MM_AND then x AND v = v
      else if mt = MM_NOT_AND then x AND v \<noteq> v \<or> x = v
      else if mt = EQUALS then x = v
      else if mt = NOT_EQUALS then x \<noteq> v
      else if mt = NOT_LESS_THAN \<or> mt = GREATER_THAN then lt v x
      else if mt = GREAT_OR_EQUAL then lt v x \<or> v = x
      else if mt = NOT_GREATER_THAN \<or> mt = LESS_THAN then lt x v
      else mt = LESS_OR_EQUAL \<and> (lt x v \<or> x = v))"

text \<open>What the names of the operators say, with the negated ones as complements.\<close>

definition num_meaning :: "('a::len word \<Rightarrow> 'a word \<Rightarrow> bool) \<Rightarrow> u8 \<Rightarrow> 'a word \<Rightarrow> 'a word \<Rightarrow> bool" where
  "num_meaning lt mt x v =
     (if mt = MM_AND then x AND v = v
      else if mt = MM_NOT_AND then x AND v \<noteq> v
      else if mt = EQUALS then x = v
      else if mt = NOT_EQUALS then x \<noteq> v
      else if mt = NOT_LESS_THAN \<or> mt = GREAT_OR_EQUAL then lt v x \<or> v = x
      else if mt = GREATER_THAN then lt v x
      else if mt = NOT_GREATER_THAN \<or> mt = LESS_OR_EQUAL then lt x v \<or> x = v
      else mt = LESS_THAN \<and> lt x v)"

text \<open>The two agree on unequal operands, and on equal ones except for the three negated
  operators, where exactly \<open>NOT_AND\<close> matches.\<close>

lemma num_rel_meaning:
  assumes "\<And>y. \<not> lt y y"
  shows "num_rel lt mt x v \<longleftrightarrow>
    (if x = v \<and> mt \<in> {MM_NOT_AND, NOT_LESS_THAN, NOT_GREATER_THAN} then mt = MM_NOT_AND
     else num_meaning lt mt x v)"
  using assms by (auto simp: num_rel_def num_meaning_def)

lemma tick_tick_excl: "\<not> (a \<and> b) \<Longrightarrow> tick a (tick b m) = tick (b \<or> a) m"
  by (auto simp: tick_def)

lemma Check_numeric:
  "CheckUlongEntry entry x m = tick (MM_TYPE_CHECK cfi_tag entry CALLISTO
     \<and> num_rel (<) (match_type (deref entry)) x (itemUlong (deref entry))) m"
  "CheckUint8Entry entry y m = tick (MM_TYPE_CHECK cfi_tag entry CALLISTO
     \<and> num_rel (<) (match_type (deref entry)) y (itemUint8 (deref entry))) m"
  "CheckInt8Entry entry y m = tick (MM_TYPE_CHECK cfi_tag entry CALLISTO
     \<and> num_rel (<s) (match_type (deref entry)) y (itemInt8 (deref entry))) m"
  "CheckUshortEntry entry z m = tick (MM_TYPE_CHECK cfi_tag entry CALLISTO
     \<and> num_rel (<) (match_type (deref entry)) z (itemUshort (deref entry))) m"
  "CheckLonglongEntry entry w m = tick (MM_TYPE_CHECK cfi_tag entry CALLISTO
     \<and> num_rel (<s) (match_type (deref entry)) w (itemLonglong (deref entry))) m"
  by (auto simp: CheckUlongEntry_def CheckUint8Entry_def CheckInt8Entry_def CheckUshortEntry_def
      CheckLonglongEntry_def num_rel_def Let_def tick_def signed.le_less)

section \<open>Checks of addresses\<close>

definition htonl :: "u32 \<Rightarrow> u32" where
  "htonl l = (drop_bit 24 (l AND 0xFF000000) OR drop_bit 8 (l AND 0x00FF0000)
           OR push_bit 8 (l AND 0x0000FF00) OR push_bit 24 (l AND 0x000000FF))"

definition CheckIpv4 :: "CFI ptr \<Rightarrow> u32 \<Rightarrow> bool \<Rightarrow> u32 \<Rightarrow> u32" where
  "CheckIpv4 entry toMatch littleEndian matches =
     (if \<not> MM_TYPE_CHECK cfi_tag entry CALLISTO \<or> toMatch = 0 then matches else
      let toMatch = (if littleEndian then htonl toMatch else toMatch) in
      tick (toMatch AND ipv4SubnetMask (deref entry) = ipv4Subnet (deref entry)) matches)"

text \<open>The loop of \<open>CheckIpv6\<close>, at byte \<open>i\<close>; \<open>addr6\<close> and \<open>subnet\<close> are the bytes of the two
  addresses, and the result is \<open>subnet_match\<close>.\<close>

function ipv6_loop :: "u8 \<Rightarrow> u8 list \<Rightarrow> u8 list \<Rightarrow> nat \<Rightarrow> u8 \<Rightarrow> u8 \<Rightarrow> bool res" where
  "ipv6_loop prefix_len addr6 subnet i bits_left matching_bits =
     (if i < 16 then
        andthen (index addr6 i) (\<lambda>a. andthen (index subnet i) (\<lambda>b.
          if 8 \<le> bits_left then
            (if a = b then
               (if 0 < bits_left - 8
                then ipv6_loop prefix_len addr6 subnet (i + 1) (bits_left - 8) (matching_bits + 8)
                else Inr (matching_bits + 8 = prefix_len))
             else Inr False)
          else Inr (push_bit (8 - unat bits_left) a = push_bit (8 - unat bits_left) b)))
      else Inr False)"
  by pat_completeness auto
termination by (relation "measure (\<lambda>(_, _, _, i, _, _). 16 - i)") auto

declare ipv6_loop.simps [simp del]

definition CheckIpv6 :: "CFI ptr \<Rightarrow> u8 list ptr \<Rightarrow> u32 \<Rightarrow> u32 res" where
  "CheckIpv6 entry toMatch matches =
     (case toMatch of Null \<Rightarrow> Inr matches
      | Ptr _ addr6 \<Rightarrow>
        if \<not> MM_TYPE_CHECK cfi_tag entry CALLISTO \<or> \<not> VALID_PAGE (ipv6Subnet (deref entry))
        then Inr matches else
        andthen (ipv6_loop (ipv6Prefix (deref entry)) addr6 (deref (ipv6Subnet (deref entry)))
                   0 (ipv6Prefix (deref entry)) 0)
          (\<lambda>subnet_match. Inr (tick subnet_match matches)))"

text \<open>The bytes and the remaining bits the loop still has to compare at byte \<open>i\<close>.\<close>

definition ipv6_rest :: "nat \<Rightarrow> u8 list \<Rightarrow> u8 list \<Rightarrow> nat \<Rightarrow> bool" where
  "ipv6_rest p a s i \<longleftrightarrow> p \<le> 128 \<and> list_all (\<lambda>j. a ! j = s ! j) [i..<p div 8]
     \<and> (p mod 8 = 0 \<or> push_bit (8 - p mod 8) (a ! (p div 8)) = push_bit (8 - p mod 8) (s ! (p div 8)))"

lemma ipv6_rest_iff:
  "ipv6_rest p a s i \<longleftrightarrow> p \<le> 128
     \<and> (\<forall>j. i \<le> j \<and> j < p div 8 \<longrightarrow> a ! j = s ! j)
     \<and> (p mod 8 = 0 \<or> push_bit (8 - p mod 8) (a ! (p div 8)) = push_bit (8 - p mod 8) (s ! (p div 8)))"
  by (auto simp: ipv6_rest_def list_all_iff)

lemma push_bit_8_u8: "push_bit 8 (w :: u8) = 0"
  by (rule bit_word_eqI) (simp add: bit_push_bit_iff)

lemma ipv6_rest_Suc:
  assumes "8 * i + 8 \<le> p"
  shows "ipv6_rest p a s i \<longleftrightarrow> a ! i = s ! i \<and> ipv6_rest p a s (Suc i)"
proof -
  have "i < p div 8" using assms by auto
  then have "(\<forall>j. i \<le> j \<and> j < p div 8 \<longrightarrow> a ! j = s ! j)
    \<longleftrightarrow> a ! i = s ! i \<and> (\<forall>j. Suc i \<le> j \<and> j < p div 8 \<longrightarrow> a ! j = s ! j)"
    by (metis Suc_leD Suc_leI le_neq_implies_less order_refl)
  then show ?thesis unfolding ipv6_rest_iff by blast
qed

lemma ipv6_loop_rest:
  assumes "16 \<le> length a" "16 \<le> length s" "unat pre = p"
    "8 * i \<le> p" "i \<le> 16" "unat bits = p - 8 * i" "unat mb = 8 * i" "0 < bits \<or> i = 0"
  shows "ipv6_loop pre a s i bits mb = Inr (ipv6_rest p a s i)"
  using assms
proof (induction "16 - i" arbitrary: i bits mb)
  case 0
  then have "i = 16" "p \<noteq> 128" by (auto simp: word_less_nat_alt)
  then show ?case
    using 0 by (auto simp: ipv6_loop.simps [of _ _ _ 16] ipv6_rest_iff)
next
  case (Suc n)
  then have i: "i < 16" by auto
  have p: "p < 256" using Suc.prems(3) unsigned_less [of pre] by auto
  show ?case
  proof (cases "8 \<le> bits")
    case True
    then have ge: "8 * i + 8 \<le> p"
      using Suc.prems by (auto simp: word_le_nat_alt)
    have bits': "unat (bits - 8) = p - 8 * Suc i"
      using True Suc.prems by (simp add: unat_sub word_le_nat_alt)
    have mb': "unat (mb + 8) = 8 * Suc i"
      using Suc.prems i by (simp add: unat_word_ariths)
    show ?thesis
    proof (cases "0 < bits - 8")
      case True
      have "ipv6_loop pre a s (Suc i) (bits - 8) (mb + 8) = Inr (ipv6_rest p a s (Suc i))"
        using Suc.prems Suc.hyps(2) bits' mb' ge i True
        by (intro Suc.hyps(1)) auto
      then show ?thesis
        using Suc.prems i \<open>8 \<le> bits\<close> True ipv6_rest_Suc [OF ge, of a s]
        by (subst ipv6_loop.simps) (simp add: Let_def)
    next
      case False
      then have "bits - 8 = 0" by (metis word_gt_0)
      with bits' ge have p_eq: "p = 8 * Suc i" by simp
      then have "mb + 8 = pre"
        using mb' Suc.prems(3) by (metis unsigned_word_eqI)
      moreover have "ipv6_rest p a s (Suc i)"
        using p_eq i by (auto simp: ipv6_rest_iff)
      ultimately show ?thesis
        using Suc.prems i \<open>8 \<le> bits\<close> False ipv6_rest_Suc [OF ge, of a s]
        by (subst ipv6_loop.simps) (simp add: Let_def)
    qed
  next
    case False
    then have lt: "p - 8 * i < 8" using Suc.prems by (simp add: word_le_nat_alt)
    define r where "r = p - 8 * i"
    have "p = 8 * i + r" "r < 8" using lt Suc.prems(4) by (auto simp: r_def)
    then have div: "p div 8 = i" and md: "p mod 8 = p - 8 * i"
      by auto
    have "p mod 8 = 0 \<Longrightarrow> push_bit (8 - p mod 8) (w :: u8) = 0" for w
      by (simp add: push_bit_8_u8)
    then show ?thesis
      using Suc.prems i False div md
      by (subst ipv6_loop.simps) (auto simp: ipv6_rest_iff)
  qed
qed

lemma CheckIpv6_exact:
  assumes "MM_TYPE_CHECK cfi_tag entry CALLISTO" "VALID_PAGE (ipv6Subnet (deref entry))"
    "16 \<le> length a" "16 \<le> length (deref (ipv6Subnet (deref entry)))"
  shows "CheckIpv6 entry (Ptr ta a) m =
    Inr (tick (ipv6_rest (unat (ipv6Prefix (deref entry))) a (deref (ipv6Subnet (deref entry))) 0) m)"
  using assms by (simp add: CheckIpv6_def ipv6_loop_rest [where p = "unat (ipv6Prefix (deref entry))"])

text \<open>The shifts of the last, partial byte compare its low bits.\<close>

lemma push_bit_low:
  fixes a b :: u8
  assumes "r \<le> 8"
  shows "push_bit (8 - r) a = push_bit (8 - r) b \<longleftrightarrow> take_bit r a = take_bit r b"
proof -
  have up: "bit (push_bit (8 - r) w) (n + (8 - r)) = bit (take_bit r w) n" if "n < r" for w :: u8 and n
    using assms that by (auto simp: bit_push_bit_iff bit_take_bit_iff)
  have down: "bit (push_bit (8 - r) w) n = (8 - r \<le> n \<and> bit (take_bit r w) (n - (8 - r)))"
    if "n < 8" for w :: u8 and n
    using assms that up [of "n - (8 - r)" w] by (cases "8 - r \<le> n") (auto simp: bit_push_bit_iff)
  show ?thesis
  proof
    assume eq: "push_bit (8 - r) a = push_bit (8 - r) b"
    show "take_bit r a = take_bit r b"
    proof (rule bit_word_eqI)
      fix n
      show "bit (take_bit r a) n = bit (take_bit r b) n"
        using up [of n a] up [of n b] eq by (cases "n < r") (simp_all add: bit_take_bit_iff)
    qed
  next
    assume eq: "take_bit r a = take_bit r b"
    show "push_bit (8 - r) a = push_bit (8 - r) b"
      by (rule bit_word_eqI) (simp add: down eq)
  qed
qed

lemma ipv6_rest_bytes:
  assumes "16 \<le> length a" "16 \<le> length s" "p \<le> 128" "p mod 8 = 0"
  shows "ipv6_rest p a s 0 \<longleftrightarrow> take (p div 8) a = take (p div 8) s"
  using assms by (auto simp: ipv6_rest_iff list_eq_iff_nth_eq)

text \<open>Byte order. The two masks of an octet are disjoint, so \<open>htonl\<close> is its own inverse.\<close>

lemma htonl_bit:
  assumes "n < 32"
  shows "bit (htonl l) n = bit l (8 * (3 - n div 8) + n mod 8)"
proof -
  have "n = 0 \<or> n = 1 \<or> n = 2 \<or> n = 3 \<or> n = 4 \<or> n = 5 \<or> n = 6 \<or> n = 7
    \<or> n = 8 \<or> n = 9 \<or> n = 10 \<or> n = 11 \<or> n = 12 \<or> n = 13 \<or> n = 14
    \<or> n = 15 \<or> n = 16 \<or> n = 17 \<or> n = 18 \<or> n = 19 \<or> n = 20 \<or> n = 21
    \<or> n = 22 \<or> n = 23 \<or> n = 24 \<or> n = 25 \<or> n = 26 \<or> n = 27 \<or> n = 28
    \<or> n = 29 \<or> n = 30 \<or> n = 31"
    using assms by arith
  then show ?thesis
    by (elim disjE) ((simp add: htonl_def bit_simps; simp add: eval_nat_numeral)+)
qed

lemma htonl_htonl: "htonl (htonl l) = l"
proof (rule bit_word_eqI)
  fix n assume "n < LENGTH(32)"
  then have n: "n < 32" by simp
  define q r where "q = n div 8" and "r = n mod 8"
  have qr: "q \<le> 3" "r < 8" "n = 8 * q + r"
    using n by (auto simp: q_def r_def)
  define k where "k = 8 * (3 - q) + r"
  have k: "k < 32" "k div 8 = 3 - q" "k mod 8 = r"
    using qr by (auto simp: k_def)
  have "bit (htonl (htonl l)) n = bit (htonl l) k"
    using n by (simp add: htonl_bit k_def q_def r_def)
  also have "\<dots> = bit l (8 * (3 - (3 - q)) + r)"
    using htonl_bit [OF k(1), of l] k by simp
  finally show "bit (htonl (htonl l)) n = bit l n"
    using qr by simp
qed

section \<open>Checks of strings\<close>

text \<open>The local \<open>lower_string\<close>, which holds the bytes the conversion wrote.\<close>

definition lower_string :: "u64 \<Rightarrow> u16 \<Rightarrow> u8 list \<Rightarrow> UNICODE_STRING" where
  "lower_string buf mx bs = \<lparr>Length = of_nat (length bs), MaximumLength = mx, Buffer = Ptr buf bs\<rparr>"

definition EndsWith :: "rtl \<Rightarrow> UNICODE_STRING ptr \<Rightarrow> UNICODE_STRING ptr \<Rightarrow> bool" where
  "EndsWith R sfx str =
     (if \<not> VALID_PAGE sfx \<or> \<not> VALID_PAGE str then False else
      let s = deref str; buf = ExAllocatePool2 R (addr sfx) (unat (Length s)) in
      if buf = 0 then False else
      case RtlDowncaseUnicodeString R (Length s) s of (status, bs) \<Rightarrow>
        if \<not> NT_SUCCESS status then RtlSuffixUnicodeString R (deref sfx) s
        else RtlSuffixUnicodeString R (deref sfx) (lower_string buf (Length s) bs))"

definition StartsWith :: "rtl \<Rightarrow> UNICODE_STRING ptr \<Rightarrow> UNICODE_STRING ptr \<Rightarrow> bool" where
  "StartsWith R pfx str =
     (if \<not> VALID_PAGE pfx \<or> \<not> VALID_PAGE str then False else
      let s = deref str; buf = ExAllocatePool2 R (addr pfx) (unat (Length s)) in
      if buf = 0 then False else
      case RtlDowncaseUnicodeString R (Length s) s of (status, bs) \<Rightarrow>
        if \<not> NT_SUCCESS status then RtlPrefixUnicodeString R (deref pfx) s
        else RtlPrefixUnicodeString R (deref pfx) (lower_string buf (Length s) bs))"

text \<open>The loop of \<open>Contains\<close>: \<open>str\<close> is the moving byte pointer, \<open>n\<close> and \<open>k\<close> are
  \<open>toBeSearchedLength\<close> and \<open>toSearchLength\<close>. The counter is a \<open>nat\<close>: it is decremented only while it
  is positive, because a pattern of no bytes matches at once.\<close>

fun contains_loop :: "rtl \<Rightarrow> u8 list \<Rightarrow> u8 list \<Rightarrow> nat \<Rightarrow> nat \<Rightarrow> bool" where
  "contains_loop R str search n k =
     (if RtlCompareMemory R str search k = k then True
      else if 0 < n - 1 \<and> k \<le> n - 1 then contains_loop R (tl str) search (n - 1) k
      else False)"

declare contains_loop.simps [simp del]

definition Contains :: "rtl \<Rightarrow> UNICODE_STRING ptr \<Rightarrow> UNICODE_STRING ptr \<Rightarrow> bool" where
  "Contains R toSearch toBesearched =
     (if \<not> VALID_PAGE toSearch \<or> \<not> VALID_PAGE toBesearched then False else
      let s = deref toBesearched in
      if ExAllocatePool2 R (addr toSearch) (unat (Length s) + 1) = 0 then False else
      case RtlDowncaseUnicodeString R (Length s) s of (status, str) \<Rightarrow>
        if \<not> NT_SUCCESS status then False else
        case Buffer (deref toSearch) of Null \<Rightarrow> False
        | Ptr _ search \<Rightarrow>
          let toBeSearchedLength = length str; toSearchLength = unat (Length (deref toSearch)) in
          if toSearchLength \<le> toBeSearchedLength
          then contains_loop R str search toBeSearchedLength toSearchLength else False)"

definition Equals :: "rtl \<Rightarrow> UNICODE_STRING ptr \<Rightarrow> UNICODE_STRING ptr \<Rightarrow> bool" where
  "Equals R toSearch toBesearched =
     (if \<not> VALID_PAGE toSearch \<or> \<not> VALID_PAGE toBesearched then False
      else if Length (deref toSearch) \<noteq> Length (deref toBesearched) then False
      else Contains R toSearch toBesearched)"

definition CheckUnicodeEntry :: "rtl \<Rightarrow> CFI ptr \<Rightarrow> UNICODE_STRING ptr \<Rightarrow> u32 \<Rightarrow> u32" where
  "CheckUnicodeEntry R entry toMatch matches =
     (if toMatch = Null \<or> \<not> MM_TYPE_CHECK cfi_tag entry CALLISTO then matches else
      let item = item (deref entry) in
      switch (match_type (deref entry))
        [(EQUALS, tick (Equals R item toMatch) matches),
         (NOT_EQUALS, tick (\<not> Equals R item toMatch) matches),
         (STARTS_WITH, tick (StartsWith R item toMatch) matches),
         (NOT_STARTS_WITH, tick (\<not> StartsWith R item toMatch) matches),
         (ENDS_WITH, tick (EndsWith R item toMatch) matches),
         (NOT_ENDS_WITH, tick (\<not> EndsWith R item toMatch) matches),
         (CONTAINS, tick (Contains R item toMatch) matches),
         (NOT_CONTAINS, tick (\<not> Contains R item toMatch) matches)] matches)"

text \<open>The condition the string check tests.\<close>

definition str_rel :: "rtl \<Rightarrow> u8 \<Rightarrow> UNICODE_STRING ptr \<Rightarrow> UNICODE_STRING ptr \<Rightarrow> bool" where
  "str_rel R mt pat s =
     (if mt = EQUALS then Equals R pat s else if mt = NOT_EQUALS then \<not> Equals R pat s
      else if mt = STARTS_WITH then StartsWith R pat s
      else if mt = NOT_STARTS_WITH then \<not> StartsWith R pat s
      else if mt = ENDS_WITH then EndsWith R pat s
      else if mt = NOT_ENDS_WITH then \<not> EndsWith R pat s
      else if mt = CONTAINS then Contains R pat s
      else mt = NOT_CONTAINS \<and> \<not> Contains R pat s)"

definition unicode_pred :: "rtl \<Rightarrow> CFI ptr \<Rightarrow> UNICODE_STRING ptr \<Rightarrow> bool" where
  "unicode_pred R entry s \<longleftrightarrow> s \<noteq> Null \<and> MM_TYPE_CHECK cfi_tag entry CALLISTO
     \<and> str_rel R (match_type (deref entry)) (item (deref entry)) s"

lemma CheckUnicodeEntry_tick: "CheckUnicodeEntry R entry s m = tick (unicode_pred R entry s) m"
  by (simp add: CheckUnicodeEntry_def unicode_pred_def str_rel_def Let_def tick_def)

text \<open>The search finds the pattern at any byte, not only at the start of a UTF-16 unit.\<close>

lemma contains_loop_sublist:
  assumes "rtl_documented R low" "k \<le> n" "n \<le> length str" "k \<le> length search" "n = length str"
  shows "contains_loop R str search n k \<longleftrightarrow> sublist (take k search) str"
  using assms(2-)
proof (induction n arbitrary: str)
  case 0
  then show ?case
    using assms(1) by (subst contains_loop.simps) (simp add: rtl_documented_def same_bytes_def)
next
  case (Suc n)
  then obtain c cs where str: "str = c # cs" by (cases str) auto
  have cmp: "RtlCompareMemory R str search k = k \<longleftrightarrow> prefix (take k search) str"
    using assms(1) Suc.prems same_bytes_all [of "take k str" "take k search"]
    by (auto simp: rtl_documented_def prefix_def min_def
        dest: sym intro: exI [of _ "drop k str"]) (metis append_take_drop_id)
  show ?case
  proof (cases "k \<le> n \<and> 0 < n")
    case True
    then show ?thesis
      using Suc.prems Suc.IH [of cs] cmp str
      by (subst contains_loop.simps) (auto simp: sublist_Cons_right)
  next
    case False
    then have "k = Suc n \<or> n = 0" using Suc.prems by auto
    then show ?thesis
      using Suc.prems cmp str False
      by (subst contains_loop.simps)
         (auto simp: sublist_Cons_right dest!: sublist_length_le intro!: gr0I)
  qed
qed

lemma ustr_bytes_lower_string:
  "length bs < 2 ^ 16 \<Longrightarrow> ustr_bytes (lower_string a m bs) = bs"
  by (simp add: ustr_bytes_def lower_string_def unat_of_nat take_bit_nat_eq_self)

lemma downcase_documented:
  assumes "rtl_documented R low" "wf_ustr s"
  obtains st where "RtlDowncaseUnicodeString R (Length s) s = (st, low (ustr_bytes s))"
    "NT_SUCCESS st" "length (low (ustr_bytes s)) = unat (Length s)"
    "ustr_bytes (lower_string a m (low (ustr_bytes s))) = low (ustr_bytes s)"
proof -
  obtain st bs where r: "RtlDowncaseUnicodeString R (Length s) s = (st, bs)" by force
  then have "NT_SUCCESS st \<and> bs = low (ustr_bytes s)"
    using assms by (fastforce simp: rtl_documented_def)
  moreover have "length (low (ustr_bytes s)) = unat (Length s)"
    using assms by (simp add: rtl_documented_def)
  ultimately show thesis
    using that r ustr_bytes_lower_string [of "low (ustr_bytes s)"] unat_bounds(2) [of "Length s"]
    by simp
qed

text \<open>Under the documented runtime, the four tests on the bytes of the lowered string.\<close>

lemma string_tests:
  assumes R: "rtl_documented R low" "pool_ample R" and pages: "VALID_PAGE p" "VALID_PAGE s"
    and wf: "wf_ustr (deref p)" "wf_ustr (deref s)" and buf: "Buffer (deref p) \<noteq> Null"
  shows EndsWith_bytes: "EndsWith R p s \<longleftrightarrow> suffix (ustr_bytes (deref p)) (low (ustr_bytes (deref s)))"
    and StartsWith_bytes: "StartsWith R p s \<longleftrightarrow> prefix (ustr_bytes (deref p)) (low (ustr_bytes (deref s)))"
    and Contains_bytes: "Contains R p s \<longleftrightarrow> sublist (ustr_bytes (deref p)) (low (ustr_bytes (deref s)))"
    and Equals_bytes: "Equals R p s \<longleftrightarrow> ustr_bytes (deref p) = low (ustr_bytes (deref s))"
proof -
  let ?s = "deref s" and ?buf = "ExAllocatePool2 R (addr p) (unat (Length (deref s)))"
  obtain st where st: "RtlDowncaseUnicodeString R (Length ?s) ?s = (st, low (ustr_bytes ?s))"
    "NT_SUCCESS st" "length (low (ustr_bytes ?s)) = unat (Length ?s)"
    "ustr_bytes (lower_string ?buf (Length ?s) (low (ustr_bytes ?s))) = low (ustr_bytes ?s)"
    using downcase_documented [OF R(1) wf(2), of ?buf "Length ?s"] by blast
  have tests: "RtlSuffixUnicodeString R x y \<longleftrightarrow> suffix (ustr_bytes x) (ustr_bytes y)"
    "RtlPrefixUnicodeString R x y \<longleftrightarrow> prefix (ustr_bytes x) (ustr_bytes y)" for x y
    using R(1) by (auto simp: rtl_documented_def)
  show "EndsWith R p s \<longleftrightarrow> suffix (ustr_bytes (deref p)) (low (ustr_bytes ?s))"
    "StartsWith R p s \<longleftrightarrow> prefix (ustr_bytes (deref p)) (low (ustr_bytes ?s))"
    using R(2) pages st by (auto simp: EndsWith_def StartsWith_def Let_def pool_ample_def tests)
  obtain a search where search: "Buffer (deref p) = Ptr a search"
    using buf by (cases "Buffer (deref p)") auto
  then have pat: "ustr_bytes (deref p) = take (unat (Length (deref p))) search"
    "unat (Length (deref p)) \<le> length search"
    using wf(1) by (auto simp: ustr_bytes_def wf_ustr_def)
  show contains: "Contains R p s \<longleftrightarrow> sublist (ustr_bytes (deref p)) (low (ustr_bytes ?s))"
    using R pages st search pat
    by (auto simp: Contains_def Let_def pool_ample_def contains_loop_sublist dest: sublist_length_le)
  show "Equals R p s \<longleftrightarrow> ustr_bytes (deref p) = low (ustr_bytes ?s)"
  proof (cases "Length (deref p) = Length ?s")
    case True
    then have "sublist (ustr_bytes (deref p)) (low (ustr_bytes ?s)) \<longleftrightarrow> ustr_bytes (deref p) = low (ustr_bytes ?s)"
      using st(3) pat by (auto simp: sublist_def)  (metis append_Nil append_Nil2)
    with True pages contains show ?thesis by (simp add: Equals_def)
  next
    case False
    then have "length (ustr_bytes (deref p)) \<noteq> length (low (ustr_bytes ?s))"
      using st(3) pat by (simp add: word_unat_eq_iff)
    with False show ?thesis by (auto simp: Equals_def)
  qed
qed

section \<open>Ids are fresh\<close>

text \<open>The ids of \<open>n\<close> successive calls.\<close>

fun mm_ids :: "nat \<Rightarrow> GC \<Rightarrow> u64 list" where
  "mm_ids 0 G = []"
| "mm_ids (Suc n) G = (case mm_id G of (i, G') \<Rightarrow> i # mm_ids n G')"

definition id_period :: nat where "id_period = 18446744073709551600"

lemma id_mask: "0xfffffffffffffff0 \<le> (w :: u64) AND 0xfffffffffffffff0 \<longleftrightarrow> id_period \<le> unat w"
proof -
  have m: "(0xfffffffffffffff0 :: u64) = push_bit 4 (mask 60)"
    by (simp add: mask_eq_exp_minus_1)
  have "w AND 0xfffffffffffffff0 = push_bit 4 (drop_bit 4 w)"
    unfolding m by (rule bit_word_eqI) (auto simp: bit_simps)
  moreover have "unat (push_bit 4 (drop_bit 4 w)) = unat w div 16 * 16"
  proof -
    have "unat w < 2 ^ 64" using unsigned_less [of w, where 'a = nat] by simp
    then show ?thesis
      by (simp add: push_bit_eq_mult drop_bit_eq_div unat_word_ariths unat_div)
  qed
  moreover have "id_period \<le> unat w div 16 * 16 \<longleftrightarrow> id_period \<le> unat w"
    using less_eq_div_iff_mult_less_eq [of 16 1152921504606846975 "unat w"]
    by (simp add: id_period_def mult.commute [of _ 16])
  ultimately show ?thesis
    by (simp add: word_le_nat_alt id_period_def)
qed

lemma mm_id_step:
  assumes "unat (gc_id G) < id_period"
  shows "fst (mm_id G) = of_nat (unat (gc_id G) + 1)"
    and "unat (fst (mm_id G)) = unat (gc_id G) + 1"
    and "unat (gc_id (snd (mm_id G))) = (unat (gc_id G) + 1) mod id_period"
proof -
  have s: "unat (gc_id G + 1) = unat (gc_id G) + 1"
    using assms by (simp add: unat_word_ariths id_period_def)
  then show "unat (fst (mm_id G)) = unat (gc_id G) + 1"
    by (simp add: mm_id_def Let_def)
  show "fst (mm_id G) = of_nat (unat (gc_id G) + 1)"
    by (simp add: mm_id_def Let_def)
  show "unat (gc_id (snd (mm_id G))) = (unat (gc_id G) + 1) mod id_period"
    using s assms mod_less [of "unat (gc_id G) + 1" id_period]
    by (cases "unat (gc_id G) + 1 = id_period") (auto simp: mm_id_def Let_def id_mask)
qed

lemma mm_ids_nth:
  assumes "unat (gc_id G) < id_period" "i < n"
  shows "unat (mm_ids n G ! i) = (unat (gc_id G) + i) mod id_period + 1"
  using assms
proof (induction n arbitrary: G i)
  case (Suc n)
  obtain w G' where step: "mm_id G = (w, G')" by force
  note s = mm_id_step [OF Suc.prems(1), unfolded step, simplified]
  show ?case
  proof (cases i)
    case 0
    then show ?thesis using step s Suc.prems by simp
  next
    case (Suc j)
    have "unat (mm_ids n G' ! j) = (unat (gc_id G') + j) mod id_period + 1"
      using s Suc Suc.prems by (intro Suc.IH) auto
    then show ?thesis using step s Suc by (simp add: mod_add_left_eq)
  qed
qed simp

lemma length_mm_ids [simp]: "length (mm_ids n G) = n"
  by (induction n arbitrary: G) (auto split: prod.split)

lemma mod_add_inj:
  fixes c i j m :: nat
  assumes "(c + i) mod m = (c + j) mod m" "i < m" "j < m"
  shows "i = j"
proof -
  have aux: "x = y" if "(c + y) mod m = (c + x) mod m" "x \<le> y" "y < m" for x y
  proof -
    have "m dvd y - x"
      using that mod_eq_dvd_iff_nat [of "c + x" "c + y" m] by simp
    then show ?thesis using that by (auto dest: dvd_imp_le)
  qed
  show ?thesis
  proof (cases "i \<le> j")
    case True
    then show ?thesis using aux [of j i] assms by simp
  next
    case False
    then show ?thesis using aux [of i j] assms by simp
  qed
qed

lemma mm_ids_fresh:
  assumes "unat (gc_id G) < id_period" "n \<le> id_period"
  shows "distinct (mm_ids n G) \<and> 0 \<notin> set (mm_ids n G)"
proof
  show "distinct (mm_ids n G)"
    unfolding distinct_conv_nth
  proof (intro allI impI notI)
    fix i j assume ij: "i < length (mm_ids n G)" "j < length (mm_ids n G)" "i \<noteq> j"
      "mm_ids n G ! i = mm_ids n G ! j"
    then have "(unat (gc_id G) + i) mod id_period = (unat (gc_id G) + j) mod id_period"
      using mm_ids_nth [OF assms(1), of i n] mm_ids_nth [OF assms(1), of j n] by simp
    then show False
      using mod_add_inj [of "unat (gc_id G)" i id_period j] ij assms(2) by simp
  qed
  show "0 \<notin> set (mm_ids n G)"
  proof
    assume "0 \<in> set (mm_ids n G)"
    then obtain i where i: "i < n" "mm_ids n G ! i = 0" by (auto simp: in_set_conv_nth)
    then show False using mm_ids_nth [OF assms(1) i(1)] by simp
  qed
qed

end
