(* ===== verification/MM_Match.thy ===== *)
theory MM_Match
  imports MM_Utils
begin

text \<open>
  The matching engine. The eight \<open>...ListMatch\<close> functions of the driver share one text: a
  loop over the groups of a list and, inside it, a loop over the items of a group that counts the
  matching ones; only the \<open>switch\<close> on the field type differs. The loops are defined here
  over that switch, with \<open>src/MoonMon/Process.c\<close> as the instance whose lines are named, and the
  locales state what the loops need to know of it.
\<close>

section \<open>The two loops\<close>

text \<open>What a \<open>ListMatch\<close> function gives its caller: the result and the two out-parameters.\<close>

record list_result =
  lr_matched :: bool
  lr_id :: u32
  lr_actions :: u32

abbreviation no_match :: list_result where
  "no_match \<equiv> \<lparr>lr_matched = False, lr_id = 0, lr_actions = 0\<rparr>"

text \<open>The inner loop is \<open>do ... while (j < PL[i]->count)\<close>: the first item is read whatever the
  count is. Reading past the array of 256 entries, or through a null entry, is a fault.\<close>

type_synonym field_check = "CFI ptr \<Rightarrow> u32 \<Rightarrow> u32 res"

function entries_loop :: "field_check \<Rightarrow> CONFIG_GROUP \<Rightarrow> nat \<Rightarrow> u32 \<Rightarrow> u32 res" where
  "entries_loop check g j matches =
     andthen (index (entries g) j) (\<lambda>entry. andthen (load entry) (\<lambda>_.
       andthen (check entry matches) (\<lambda>matches'.
         if Suc j < unat (cg_count g) then entries_loop check g (Suc j) matches' else Inr matches')))"
  by pat_completeness auto
termination by (relation "measure (\<lambda>(_, g, j, _). unat (cg_count g) - j)") auto

declare entries_loop.simps [simp del]

text \<open>The outer loop, on the \<open>n\<close> groups that are left from index \<open>i\<close>. A slot that does not pass
  the type check ends the search.\<close>

fun groups_loop :: "field_check \<Rightarrow> CONFIG_GROUP ptr list \<Rightarrow> nat \<Rightarrow> nat \<Rightarrow> list_result res" where
  "groups_loop check PL i 0 = Inr no_match"
| "groups_loop check PL i (Suc n) =
     andthen (index PL i) (\<lambda>slot.
       if \<not> MM_TYPE_CHECK cg_tag slot CALIBAN then Inr no_match else
       let g = deref slot in
       andthen (entries_loop check g 0 0) (\<lambda>matches.
         if cg_count g \<le> matches
         then Inr \<lparr>lr_matched = True, lr_id = cg_id g, lr_actions = cg_actions g\<rparr>
         else groups_loop check PL (Suc i) n))"

text \<open>The whole function: the list the switch on \<open>LIST_TYPE\<close> selects, unless it is unknown or
  its pointer is not a valid page.\<close>

definition list_match ::
  "GC \<Rightarrow> rule_list option \<Rightarrow> u32 \<Rightarrow> field_check \<Rightarrow> list_result res" where
  "list_match globals which PL_COUNT check =
     (case which of None \<Rightarrow> Inr no_match
      | Some l \<Rightarrow>
        let PL = gc_list globals l in
        if \<not> VALID_PAGE PL then Inr no_match
        else groups_loop check (deref PL) 0 (unat PL_COUNT))"

section \<open>Well-formed groups and the meaning of a list\<close>

text \<open>A group as the loader builds it: between one and 256 items, none of them null, and the
  IPv6 prefix of an item, where it has one, 16 bytes long.\<close>

definition group_items :: "CONFIG_GROUP \<Rightarrow> CFI ptr list" where
  "group_items g = take (unat (cg_count g)) (entries g)"

definition wf_item :: "CFI ptr \<Rightarrow> bool" where
  "wf_item e = (case e of Null \<Rightarrow> False
     | Ptr _ x \<Rightarrow> (case ipv6Subnet x of Null \<Rightarrow> True | Ptr _ bs \<Rightarrow> 16 \<le> length bs))"

definition wf_group :: "CONFIG_GROUP \<Rightarrow> bool" where
  "wf_group g \<longleftrightarrow> 0 < cg_count g \<and> unat (cg_count g) \<le> length (entries g)
     \<and> length (entries g) \<le> 256 \<and> list_all wf_item (group_items g)"

text \<open>The groups a search over the first \<open>n\<close> slots looks at.\<close>

definition live_groups :: "CONFIG_GROUP ptr list \<Rightarrow> nat \<Rightarrow> CONFIG_GROUP list" where
  "live_groups PL n = map deref (takeWhile (\<lambda>q. MM_TYPE_CHECK cg_tag q CALIBAN) (take n PL))"

definition wf_list :: "CONFIG_GROUP ptr list \<Rightarrow> nat \<Rightarrow> bool" where
  "wf_list PL n \<longleftrightarrow> n \<le> length PL \<and> (\<forall>g \<in> set (live_groups PL n). wf_group g)"

text \<open>All items a search may look at satisfy \<open>fit\<close>, which is where a switch that is only well
  behaved on some field types says so.\<close>

definition fit_list :: "(CFI ptr \<Rightarrow> bool) \<Rightarrow> CONFIG_GROUP ptr list \<Rightarrow> nat \<Rightarrow> bool" where
  "fit_list fit PL n \<longleftrightarrow> (\<forall>g \<in> set (live_groups PL n). list_all fit (group_items g))"

lemma fit_list_True [simp]: "fit_list (\<lambda>_. True) PL n"
  by (simp add: fit_list_def list_all_iff)

text \<open>The contract of a rule list: the first group all of whose items hold decides.\<close>

definition first_match :: "(CFI ptr \<Rightarrow> bool) \<Rightarrow> CONFIG_GROUP list \<Rightarrow> list_result" where
  "first_match holds gs =
     (case find (\<lambda>g. \<forall>e \<in> set (group_items g). holds e) gs of
        None \<Rightarrow> no_match
      | Some g \<Rightarrow> \<lparr>lr_matched = True, lr_id = cg_id g, lr_actions = cg_actions g\<rparr>)"

text \<open>The same for a condition on whole groups.\<close>

definition first_group :: "(CONFIG_GROUP \<Rightarrow> bool) \<Rightarrow> CONFIG_GROUP list \<Rightarrow> list_result" where
  "first_group holds gs =
     (case find holds gs of
        None \<Rightarrow> no_match
      | Some g \<Rightarrow> \<lparr>lr_matched = True, lr_id = cg_id g, lr_actions = cg_actions g\<rparr>)"

lemma first_group_simps [simp]:
  "first_group holds [] = no_match"
  "first_group holds (g # gs) =
     (if holds g then \<lparr>lr_matched = True, lr_id = cg_id g, lr_actions = cg_actions g\<rparr>
      else first_group holds gs)"
  by (simp_all add: first_group_def)

lemma live_groups_0 [simp]: "live_groups PL 0 = []"
  by (simp add: live_groups_def)

lemma live_groups_drop:
  assumes "i < length PL"
  shows "live_groups (drop i PL) (Suc n) =
    (if MM_TYPE_CHECK cg_tag (PL ! i) CALIBAN
     then deref (PL ! i) # live_groups (drop (Suc i) PL) n else [])"
  using assms by (simp add: live_groups_def flip: Cons_nth_drop_Suc)

lemma first_match_simps [simp]:
  "first_match holds [] = no_match"
  "first_match holds (g # gs) =
     (if \<forall>e \<in> set (group_items g). holds e
      then \<lparr>lr_matched = True, lr_id = cg_id g, lr_actions = cg_actions g\<rparr>
      else first_match holds gs)"
  by (simp_all add: first_match_def)

section \<open>Switches that count\<close>

text \<open>The weaker contract: an item moves the counter by at most one and never faults.\<close>

locale counting_check =
  fixes check :: "'v \<Rightarrow> CFI ptr \<Rightarrow> u32 \<Rightarrow> u32 res"
    and ok :: "'v \<Rightarrow> bool"
    and fit :: "CFI ptr \<Rightarrow> bool"
    and step :: "'v \<Rightarrow> CFI ptr \<Rightarrow> u32 \<Rightarrow> bool"
  assumes counts: "ok v \<Longrightarrow> wf_item e \<Longrightarrow> fit e \<Longrightarrow> check v e m = Inr (tick (step v e m) m)"
begin

text \<open>The counter after the items \<open>es\<close>.\<close>

fun tally :: "'v \<Rightarrow> CFI ptr list \<Rightarrow> u32 \<Rightarrow> u32" where
  "tally v [] m = m"
| "tally v (e # es) m = tally v es (tick (step v e m) m)"

lemma tally_bounds:
  assumes "unat m + length es < 2 ^ 32"
  shows "unat m \<le> unat (tally v es m) \<and> unat (tally v es m) \<le> unat m + length es"
  using assms
proof (induction es arbitrary: m)
  case (Cons e es)
  have "unat (tick (step v e m) m) = (if step v e m then Suc (unat m) else unat m)"
    using Cons.prems by (auto simp: tick_def unat_word_ariths)
  then show ?case
    using Cons.IH [of "tick (step v e m) m"] Cons.prems by (auto split: if_splits)
qed simp

lemma entries_loop_tally:
  assumes "ok v" "wf_group g" "list_all fit (group_items g)" "j < unat (cg_count g)"
  shows "entries_loop (check v) g j m = Inr (tally v (drop j (group_items g)) m)"
  using assms(4)
proof (induction "unat (cg_count g) - j" arbitrary: j m)
  case (Suc n)
  have len: "length (group_items g) = unat (cg_count g)"
    using assms(2) by (simp add: wf_group_def group_items_def)
  have j: "j < length (entries g)" "entries g ! j = group_items g ! j"
    using Suc.prems assms(2) by (auto simp: wf_group_def group_items_def)
  have nn: "wf_item (group_items g ! j)" "fit (group_items g ! j)"
    using assms(2,3) Suc.prems len by (auto simp: wf_group_def list_all_length)
  then obtain a x where e: "group_items g ! j = Ptr a x"
    by (cases "group_items g ! j") (auto simp: wf_item_def)
  have step: "drop j (group_items g) = group_items g ! j # drop (Suc j) (group_items g)"
    using Suc.prems len by (simp add: Cons_nth_drop_Suc)
  show ?case
  proof (cases "Suc j < unat (cg_count g)")
    case True
    have n: "n = unat (cg_count g) - Suc j" using Suc.hyps(2) by auto
    show ?thesis
      using Suc.hyps(1) [OF n True] counts [OF assms(1) nn] True j e step
      by (subst entries_loop.simps) simp
  next
    case False
    then have "drop (Suc j) (group_items g) = []" using len by simp
    then show ?thesis
      using counts [OF assms(1) nn] False j e step
      by (subst entries_loop.simps) simp
  qed
qed simp

text \<open>A group whose items are all counted is found; the search never faults.\<close>

lemma groups_loop_total:
  assumes "ok v" "wf_list (drop i PL) n" "fit_list fit (drop i PL) n"
  shows "\<exists>r. groups_loop (check v) PL i n = Inr r"
  using assms(2,3)
proof (induction n arbitrary: i)
  case (Suc n)
  then have i: "i < length PL" by (auto simp: wf_list_def)
  show ?case
  proof (cases "MM_TYPE_CHECK cg_tag (PL ! i) CALIBAN")
    case True
    then have g: "wf_group (deref (PL ! i))" "list_all fit (group_items (deref (PL ! i)))"
      and rest: "wf_list (drop (Suc i) PL) n" "fit_list fit (drop (Suc i) PL) n"
      using Suc.prems live_groups_drop [OF i, of n] by (auto simp: wf_list_def fit_list_def)
    have "entries_loop (check v) (deref (PL ! i)) 0 0
        = Inr (tally v (drop 0 (group_items (deref (PL ! i)))) 0)"
      using g by (intro entries_loop_tally [OF assms(1) g]) (simp add: wf_group_def word_gt_0 unat_gt_0)
    then show ?thesis
      using True i Suc.IH [OF rest] by (simp add: Let_def)
  next
    case False
    then show ?thesis using i by simp
  qed
qed simp

text \<open>The counter reaches the number of the items only by moving at each of them, so that it stands at the
  item's position there. A search that looks at the counter looks at that position.\<close>

lemma tally_full:
  assumes "unat m + length es < 2 ^ 32"
  shows "unat (tally v es m) = unat m + length es \<longleftrightarrow> (\<forall>j < length es. step v (es ! j) (m + of_nat j))"
  using assms
proof (induction es arbitrary: m)
  case (Cons e es)
  show ?case
  proof (cases "step v e m")
    case True
    have "unat (m + 1) = Suc (unat m)" using Cons.prems by (simp add: unat_word_ariths)
    then show ?thesis
      using Cons.IH [of "m + 1"] Cons.prems True by (simp add: All_less_Suc2 add.assoc)
  next
    case False
    then have "tally v (e # es) m = tally v es m" by simp
    then show ?thesis
      using tally_bounds [of m es v] Cons.prems False by (auto simp: All_less_Suc2)
  qed
qed simp

definition counts_all :: "'v \<Rightarrow> CONFIG_GROUP \<Rightarrow> bool" where
  "counts_all v g \<longleftrightarrow> (\<forall>j < length (group_items g). step v (group_items g ! j) (of_nat j))"

lemma group_counts:
  assumes "wf_group g"
  shows "cg_count g \<le> tally v (group_items g) 0 \<longleftrightarrow> counts_all v g"
proof -
  have len: "length (group_items g) = unat (cg_count g)" "unat (cg_count g) \<le> 256"
    using assms by (auto simp: wf_group_def group_items_def)
  then have "unat (tally v (group_items g) 0) = length (group_items g) \<longleftrightarrow> counts_all v g"
    using tally_full [of 0 "group_items g" v] by (simp add: counts_all_def)
  moreover have "unat (tally v (group_items g) 0) \<le> length (group_items g)"
    using tally_bounds [of 0 "group_items g" v] len by simp
  ultimately show ?thesis using len by (auto simp: word_le_nat_alt)
qed

lemma groups_loop_first_group:
  assumes "ok v" "wf_list (drop i PL) n" "fit_list fit (drop i PL) n"
  shows "groups_loop (check v) PL i n = Inr (first_group (counts_all v) (live_groups (drop i PL) n))"
  using assms(2,3)
proof (induction n arbitrary: i)
  case (Suc n)
  then have i: "i < length PL" by (auto simp: wf_list_def)
  show ?case
  proof (cases "MM_TYPE_CHECK cg_tag (PL ! i) CALIBAN")
    case True
    then have g: "wf_group (deref (PL ! i))" "list_all fit (group_items (deref (PL ! i)))"
      and rest: "wf_list (drop (Suc i) PL) n" "fit_list fit (drop (Suc i) PL) n"
      using Suc.prems live_groups_drop [OF i, of n] by (auto simp: wf_list_def fit_list_def)
    have "entries_loop (check v) (deref (PL ! i)) 0 0
        = Inr (tally v (drop 0 (group_items (deref (PL ! i)))) 0)"
      using g by (intro entries_loop_tally [OF assms(1) g]) (simp add: wf_group_def word_gt_0 unat_gt_0)
    then show ?thesis
      using True i Suc.IH [OF rest] group_counts [OF g(1), of v] live_groups_drop [OF i, of n]
      by (simp add: Let_def)
  next
    case False
    then show ?thesis using i live_groups_drop [OF i, of n] by simp
  qed
qed simp

end

section \<open>Switches that test a condition\<close>

text \<open>The stronger contract: whether an item is counted does not depend on the counter.\<close>

locale predicate_check =
  fixes check :: "'v \<Rightarrow> CFI ptr \<Rightarrow> u32 \<Rightarrow> u32 res"
    and ok :: "'v \<Rightarrow> bool"
    and fit :: "CFI ptr \<Rightarrow> bool"
    and holds :: "'v \<Rightarrow> CFI ptr \<Rightarrow> bool"
  assumes tests: "ok v \<Longrightarrow> wf_item e \<Longrightarrow> fit e \<Longrightarrow> check v e m = Inr (tick (holds v e) m)"

sublocale predicate_check \<subseteq> counting_check check ok fit "\<lambda>v e _. holds v e"
  by unfold_locales (rule tests)

context predicate_check
begin

lemma tally_all:
  assumes "unat m + length es < 2 ^ 32"
  shows "unat (tally v es m) = unat m + length (filter (holds v) es)"
  using assms
proof (induction es arbitrary: m)
  case (Cons e es)
  have "unat (tick (holds v e) m) = (if holds v e then Suc (unat m) else unat m)"
    using Cons.prems by (auto simp: tick_def unat_word_ariths)
  then show ?case
    using Cons.IH [of "tick (holds v e) m"] Cons.prems by (auto split: if_splits)
qed simp

lemma group_decides:
  assumes "wf_group g"
  shows "cg_count g \<le> tally v (group_items g) 0 \<longleftrightarrow> (\<forall>e \<in> set (group_items g). holds v e)"
proof -
  have len: "length (group_items g) = unat (cg_count g)" "unat (cg_count g) \<le> 256"
    using assms by (auto simp: wf_group_def group_items_def)
  then have "unat (tally v (group_items g) 0) = length (filter (holds v) (group_items g))"
    by (subst tally_all) auto
  moreover have "length (filter (holds v) (group_items g)) \<le> length (group_items g)"
    by (rule length_filter_le)
  ultimately have "cg_count g \<le> tally v (group_items g) 0
      \<longleftrightarrow> length (filter (holds v) (group_items g)) = length (group_items g)"
    using len by (auto simp: word_le_nat_alt)
  then show ?thesis by (metis filter_True filter_id_conv length_filter_less linorder_neq_iff)
qed

theorem groups_loop_first_match:
  assumes "ok v" "wf_list (drop i PL) n" "fit_list fit (drop i PL) n"
  shows "groups_loop (check v) PL i n = Inr (first_match (holds v) (live_groups (drop i PL) n))"
  using assms(2,3)
proof (induction n arbitrary: i)
  case (Suc n)
  then have i: "i < length PL" by (auto simp: wf_list_def)
  show ?case
  proof (cases "MM_TYPE_CHECK cg_tag (PL ! i) CALIBAN")
    case True
    then have g: "wf_group (deref (PL ! i))" "list_all fit (group_items (deref (PL ! i)))"
      and rest: "wf_list (drop (Suc i) PL) n" "fit_list fit (drop (Suc i) PL) n"
      using Suc.prems live_groups_drop [OF i, of n] by (auto simp: wf_list_def fit_list_def)
    have "entries_loop (check v) (deref (PL ! i)) 0 0
        = Inr (tally v (drop 0 (group_items (deref (PL ! i)))) 0)"
      using g by (intro entries_loop_tally [OF assms(1) g]) (simp add: wf_group_def word_gt_0 unat_gt_0)
    then show ?thesis
      using True i Suc.IH [OF rest] group_decides [OF g(1)] live_groups_drop [OF i, of n]
      by (simp add: Let_def)
  next
    case False
    then show ?thesis using i live_groups_drop [OF i, of n] by simp
  qed
qed simp

text \<open>The refinement every \<open>ListMatch\<close> function inherits.\<close>

theorem list_match_refines:
  assumes "ok v" "VALID_PAGE (gc_list G l)" "wf_list (deref (gc_list G l)) (unat PL_COUNT)"
    "fit_list fit (deref (gc_list G l)) (unat PL_COUNT)"
  shows "list_match G (Some l) PL_COUNT (check v)
       = Inr (first_match (holds v) (live_groups (deref (gc_list G l)) (unat PL_COUNT)))"
  using assms groups_loop_first_match [of v 0 "deref (gc_list G l)" "unat PL_COUNT"]
  by (simp add: list_match_def Let_def)

end

end
