(* ===== verification/MM_Rules.thy ===== *)
theory MM_Rules
  imports MM_Match
begin

text \<open>
  What the \<open>...ListMatch\<close> and \<open>Inspect...\<close> functions of the event types share: the guarded
  checks of the fields of a process, the transfer of a \<open>switch\<close> of checks to its condition, and the
  two decision tables the inspections implement.
\<close>

section \<open>Checks through the process information\<close>

text \<open>The statement \<open>if (MM_TYPE_CHECK(X->PI, PHOEBE)) CheckUnicodeEntry(entry, X->PI->field,
  &matches);\<close> for one of the string fields of the process.\<close>

definition CheckProcEntry ::
  "rtl \<Rightarrow> PROC_INFO ptr \<Rightarrow> (PROC_INFO \<Rightarrow> UNICODE_STRING ptr) \<Rightarrow> CFI ptr \<Rightarrow> u32 \<Rightarrow> u32" where
  "CheckProcEntry R PI fld entry matches =
     (if MM_TYPE_CHECK pi_tag PI PHOEBE
      then CheckUnicodeEntry R entry (fld (deref PI)) matches else matches)"

definition proc_pred ::
  "rtl \<Rightarrow> PROC_INFO ptr \<Rightarrow> (PROC_INFO \<Rightarrow> UNICODE_STRING ptr) \<Rightarrow> CFI ptr \<Rightarrow> bool" where
  "proc_pred R PI fld entry \<longleftrightarrow> MM_TYPE_CHECK pi_tag PI PHOEBE \<and> unicode_pred R entry (fld (deref PI))"

lemma CheckProcEntry_tick:
  "CheckProcEntry R PI fld entry m = tick (proc_pred R PI fld entry) m"
  by (simp add: CheckProcEntry_def proc_pred_def CheckUnicodeEntry_tick)

text \<open>The conditions of the numeric and address checks.\<close>

definition num_pred :: "('a::len word \<Rightarrow> 'a word \<Rightarrow> bool) \<Rightarrow> (CFI \<Rightarrow> 'a word) \<Rightarrow> CFI ptr \<Rightarrow> 'a word \<Rightarrow> bool" where
  "num_pred lt fld entry x \<longleftrightarrow> MM_TYPE_CHECK cfi_tag entry CALLISTO
     \<and> num_rel lt (match_type (deref entry)) x (fld (deref entry))"

definition ipv4_pred :: "bool \<Rightarrow> CFI ptr \<Rightarrow> u32 \<Rightarrow> bool" where
  "ipv4_pred littleEndian entry x \<longleftrightarrow> MM_TYPE_CHECK cfi_tag entry CALLISTO \<and> x \<noteq> 0
     \<and> (if littleEndian then htonl x else x) AND ipv4SubnetMask (deref entry) = ipv4Subnet (deref entry)"

lemma CheckIpv4_tick: "CheckIpv4 entry x le m = tick (ipv4_pred le entry x) m"
  by (auto simp: CheckIpv4_def ipv4_pred_def Let_def tick_def)

lemmas check_ticks =
  CheckUnicodeEntry_tick CheckProcEntry_tick CheckIpv4_tick Check_numeric [folded num_pred_def]

text \<open>A switch of checks counts exactly when the switch of their conditions holds.\<close>

lemma switch_tick:
  assumes "list_all2 (\<lambda>(l, s) (l', b). l = l' \<and> s = Inr (tick b m)) cs bs"
  shows "switch k cs (Inr m) = Inr (tick (switch k bs False) m)"
  using assms
  by (induction cs bs rule: list_all2_induct) auto

section \<open>Decisions\<close>

text \<open>What an inspection gives its callback: the status (0 where it has none) and the two
  out-parameters \<open>skip_logging\<close> and \<open>match_id\<close>.\<close>

record inspection =
  in_status :: u32
  in_skip :: bool
  in_id :: u32

text \<open>A rule list of the configuration is fit for a search: not used, or a valid array of
  well-formed groups.\<close>

definition wf_rules :: "GC \<Rightarrow> rule_list \<Rightarrow> bool" where
  "wf_rules G l \<longleftrightarrow> gc_COUNT G l = 0
     \<or> VALID_PAGE (gc_list G l) \<and> wf_list (deref (gc_list G l)) (unat (gc_COUNT G l))"

definition rules_hit :: "(CFI ptr \<Rightarrow> bool) \<Rightarrow> GC \<Rightarrow> rule_list \<Rightarrow> list_result" where
  "rules_hit holds G l = first_match holds (live_groups (deref (gc_list G l)) (unat (gc_COUNT G l)))"

lemma rules_hit_unused [simp]: "gc_COUNT G l = 0 \<Longrightarrow> rules_hit holds G l = no_match"
  by (simp add: rules_hit_def)

lemma rules_hit_unmatched [simp]:
  "\<not> lr_matched (rules_hit holds G l) \<Longrightarrow> lr_id (rules_hit holds G l) = 0"
  "\<not> lr_matched (rules_hit holds G l) \<Longrightarrow> lr_actions (rules_hit holds G l) = 0"
  by (auto simp: rules_hit_def first_match_def split: option.splits)

context predicate_check
begin

lemma rules_hit_refines:
  assumes "ok v" "wf_rules G l" "0 < gc_COUNT G l"
    "fit_list fit (deref (gc_list G l)) (unat (gc_COUNT G l))"
  shows "list_match G (Some l) (gc_COUNT G l) (check v) = Inr (rules_hit (holds v) G l)"
  using assms list_match_refines [of v G l "gc_COUNT G l"]
  by (auto simp: wf_rules_def rules_hit_def word_gt_0)

end

text \<open>The table of the inspections that can block: a block hit gives the group's action, or
  access denied where it has none; an include hit keeps the event; otherwise an exclude hit drops
  it, unless a rule with an id has already matched.\<close>

definition block_status :: "list_result \<Rightarrow> u32" where
  "block_status blk = (if \<not> lr_matched blk then STATUS_SUCCESS
     else if lr_actions blk = 0 then STATUS_ACCESS_DENIED else lr_actions blk)"

definition decide_block :: "list_result \<Rightarrow> list_result \<Rightarrow> list_result \<Rightarrow> inspection" where
  "decide_block blk inc exc =
     (if lr_matched inc
      then \<lparr>in_status = block_status blk, in_skip = False,
            in_id = if lr_id blk = 0 then lr_id inc else lr_id blk\<rparr>
      else if lr_id blk = 0 \<and> lr_matched exc
      then \<lparr>in_status = block_status blk, in_skip = True, in_id = lr_id exc\<rparr>
      else \<lparr>in_status = block_status blk, in_skip = False, in_id = lr_id blk\<rparr>)"

text \<open>The table of the inspections that only decide about logging.\<close>

definition decide_log :: "list_result \<Rightarrow> list_result \<Rightarrow> inspection" where
  "decide_log inc exc = decide_block no_match inc exc"

lemma decide_log_simps:
  "decide_log inc exc =
     (if lr_matched inc then \<lparr>in_status = 0, in_skip = False, in_id = lr_id inc\<rparr>
      else if lr_matched exc then \<lparr>in_status = 0, in_skip = True, in_id = lr_id exc\<rparr>
      else \<lparr>in_status = 0, in_skip = False, in_id = 0\<rparr>)"
  by (simp add: decide_log_def decide_block_def block_status_def)

text \<open>A dropped event was not blocked by a rule with an id and matched an exclude rule only.\<close>

lemma decide_block_skip:
  "in_skip (decide_block blk inc exc) \<longleftrightarrow> \<not> lr_matched inc \<and> lr_id blk = 0 \<and> lr_matched exc"
  by (simp add: decide_block_def)

lemma decide_block_status: "in_status (decide_block blk inc exc) = block_status blk"
  by (simp add: decide_block_def)

end
