(* ===== verification/MM_Config.thy ===== *)
theory MM_Config
  imports MM_Rules
begin

text \<open>
  \<open>src/MoonMon/Config.c\<close>, first part: the configuration lists, how an item enters one, and how they
  are released. \<open>add_rule\<close> is the abstract operation an insertion refines.
\<close>

section \<open>Lists by type\<close>

text \<open>The list pointer, the counter the out-parameter \<open>c\<close> points to (named by its list; \<open>None\<close> is the
  null pointer) and \<open>list_max\<close>.\<close>

definition resolveList :: "GC \<Rightarrow> u16 \<Rightarrow> CONFIG_GROUP ptr list ptr \<times> rule_list option \<times> u32" where
  "resolveList G listType =
     switch listType
       [(PROCESS_BLOCK_LIST, (gc_list G PBL, Some PBL, PBL_ENTRIES_MAX)),
        (PROCESS_INCLUDE_LIST, (gc_list G PINC, Some PINC, PINC_ENTRIES_MAX)),
        (PROCESS_EXCLUDE_LIST, (gc_list G PEXC, Some PEXC, PEXC_ENTRIES_MAX)),
        (PROCESS_TERMINATED_INCLUDE_LIST, (gc_list G PTINC, Some PTINC, PTINC_ENTRIES_MAX)),
        (PROCESS_TERMINATED_EXCLUDE_LIST, (gc_list G PTEXC, Some PTEXC, PTEXC_ENTRIES_MAX)),
        (THREAD_BLOCK_LIST, (gc_list G TBL, Some TBL, TBL_ENTRIES_MAX)),
        (THREAD_INCLUDE_LIST, (gc_list G TINC, Some TINC, TINC_ENTRIES_MAX)),
        (THREAD_EXCLUDE_LIST, (gc_list G TEXC, Some TEXC, TEXC_ENTRIES_MAX)),
        (MODULE_BLOCK_LIST, (gc_list G MBL, Some MBL, MBL_ENTRIES_MAX)),
        (MODULE_INCLUDE_LIST, (gc_list G MINC, Some MINC, MINC_ENTRIES_MAX)),
        (MODULE_EXCLUDE_LIST, (gc_list G MEXC, Some MEXC, MEXC_ENTRIES_MAX)),
        (OBJECT_BLOCK_LIST, (gc_list G OBL, Some OBL, OBL_ENTRIES_MAX)),
        (OBJECT_INCLUDE_LIST, (gc_list G OINC, Some OINC, OINC_ENTRIES_MAX)),
        (OBJECT_EXCLUDE_LIST, (gc_list G OEXC, Some OEXC, OEXC_ENTRIES_MAX)),
        (REGISTRY_BLOCK_LIST, (gc_list G RBL, Some RBL, RBL_ENTRIES_MAX)),
        (REGISTRY_INCLUDE_LIST, (gc_list G RINC, Some RINC, RINC_ENTRIES_MAX)),
        (REGISTRY_EXCLUDE_LIST, (gc_list G REXC, Some REXC, REXC_ENTRIES_MAX)),
        (FILE_CREATE_BLOCK_LIST, (gc_list G FCBL, Some FCBL, FCBL_ENTRIES_MAX)),
        (FILE_CREATE_INCLUDE_LIST, (gc_list G FCINC, Some FCINC, FCINC_ENTRIES_MAX)),
        (FILE_CREATE_EXCLUDE_LIST, (gc_list G FCEXC, Some FCEXC, FCEXC_ENTRIES_MAX)),
        (FILE_SET_INFO_BLOCK_LIST, (gc_list G FSBL, Some FSBL, FSBL_ENTRIES_MAX)),
        (FILE_SET_INFO_INCLUDE_LIST, (gc_list G FSINC, Some FSINC, FSINC_ENTRIES_MAX)),
        (FILE_SET_INFO_EXCLUDE_LIST, (gc_list G FSEXC, Some FSEXC, FSEXC_ENTRIES_MAX)),
        (WFP_BLOCK_LIST, (gc_list G WBL, Some WBL, WBL_ENTRIES_MAX)),
        (WFP_INCLUDE_LIST, (gc_list G WINC, Some WINC, WINC_ENTRIES_MAX)),
        (WFP_EXCLUDE_LIST, (gc_list G WEXC, Some WEXC, WEXC_ENTRIES_MAX))] (Null, None, 0)"

text \<open>The list a type stands for.\<close>

definition list_of_type :: "u16 \<Rightarrow> rule_list option" where
  "list_of_type t = map_of
       [(PROCESS_BLOCK_LIST, PBL),
        (PROCESS_INCLUDE_LIST, PINC),
        (PROCESS_EXCLUDE_LIST, PEXC),
        (PROCESS_TERMINATED_INCLUDE_LIST, PTINC),
        (PROCESS_TERMINATED_EXCLUDE_LIST, PTEXC),
        (THREAD_BLOCK_LIST, TBL),
        (THREAD_INCLUDE_LIST, TINC),
        (THREAD_EXCLUDE_LIST, TEXC),
        (MODULE_BLOCK_LIST, MBL),
        (MODULE_INCLUDE_LIST, MINC),
        (MODULE_EXCLUDE_LIST, MEXC),
        (OBJECT_BLOCK_LIST, OBL),
        (OBJECT_INCLUDE_LIST, OINC),
        (OBJECT_EXCLUDE_LIST, OEXC),
        (REGISTRY_BLOCK_LIST, RBL),
        (REGISTRY_INCLUDE_LIST, RINC),
        (REGISTRY_EXCLUDE_LIST, REXC),
        (FILE_CREATE_BLOCK_LIST, FCBL),
        (FILE_CREATE_INCLUDE_LIST, FCINC),
        (FILE_CREATE_EXCLUDE_LIST, FCEXC),
        (FILE_SET_INFO_BLOCK_LIST, FSBL),
        (FILE_SET_INFO_INCLUDE_LIST, FSINC),
        (FILE_SET_INFO_EXCLUDE_LIST, FSEXC),
        (WFP_BLOCK_LIST, WBL),
        (WFP_INCLUDE_LIST, WINC),
        (WFP_EXCLUDE_LIST, WEXC)] t"

lemma resolveList_list:
  "resolveList G t = (case list_of_type t of None \<Rightarrow> (Null, None, 0)
     | Some l \<Rightarrow> (gc_list G l, Some l, 65535))"
  by (simp add: resolveList_def list_of_type_def)

text \<open>\<open>initConfigLists\<close> allocates the lists one after the other and gives up at the first refusal.
  The table of a list is zeroed: 65535 null slots.\<close>

definition all_rule_lists :: "rule_list list" where
  "all_rule_lists = [PBL, PINC, PEXC, PTINC, PTEXC, TBL, TINC, TEXC, MBL, MINC, MEXC, OBL, OINC,
     OEXC, RBL, RINC, REXC, FCBL, FCINC, FCEXC, FSBL, FSINC, FSEXC, WBL, WINC, WEXC]"

text \<open>They are all lists there are, so that statements about every list can be evaluated.\<close>

instantiation rule_list :: enum
begin

definition enum_rule_list :: "rule_list list" where
  "enum_rule_list = all_rule_lists"

definition enum_all_rule_list :: "(rule_list \<Rightarrow> bool) \<Rightarrow> bool" where
  "enum_all_rule_list P \<longleftrightarrow> list_all P all_rule_lists"

definition enum_ex_rule_list :: "(rule_list \<Rightarrow> bool) \<Rightarrow> bool" where
  "enum_ex_rule_list P \<longleftrightarrow> list_ex P all_rule_lists"

instance
proof
  have "l \<in> set all_rule_lists" for l :: rule_list by (cases l) (simp_all add: all_rule_lists_def)
  then have all: "set all_rule_lists = UNIV" by blast
  then show "(UNIV :: rule_list set) = set enum_class.enum" by (simp add: enum_rule_list_def)
  show "distinct (enum_class.enum :: rule_list list)" by (simp add: enum_rule_list_def all_rule_lists_def)
  show "enum_class.enum_all P \<longleftrightarrow> Ball UNIV P" for P :: "rule_list \<Rightarrow> bool"
    unfolding all [symmetric] by (simp add: enum_all_rule_list_def list_all_iff)
  show "enum_class.enum_ex P \<longleftrightarrow> Bex UNIV P" for P :: "rule_list \<Rightarrow> bool"
    unfolding all [symmetric] by (simp add: enum_ex_rule_list_def list_ex_iff)
qed

end

lemma all_rule_lists_UNIV: "l \<in> set all_rule_lists"
  using UNIV_enum [where 'a = rule_list] by (auto simp: enum_rule_list_def)

fun init_lists :: "rtl \<Rightarrow> rule_list list \<Rightarrow> nat \<Rightarrow> GC \<Rightarrow> NTSTATUS \<times> GC" where
  "init_lists R [] k G = (STATUS_SUCCESS, G)"
| "init_lists R (l # ls) k G =
     (let a = ExAllocatePool2 R (of_nat k) (8 * 65535) in
      if a = 0 then (STATUS_NO_MEMORY, G\<lparr>gc_list := (gc_list G)(l := Null)\<rparr>)
      else init_lists R ls (Suc k) (G\<lparr>gc_list := (gc_list G)(l := Ptr a (replicate 65535 Null))\<rparr>))"

definition initConfigLists :: "rtl \<Rightarrow> GC \<Rightarrow> NTSTATUS \<times> GC" where
  "initConfigLists R G = init_lists R all_rule_lists 0 G"

section \<open>Inserting an item\<close>

text \<open>The search for a group with the item's id among the first \<open>n\<close> slots from \<open>i\<close>.\<close>

fun find_group :: "CONFIG_GROUP ptr list \<Rightarrow> u32 \<Rightarrow> nat \<Rightarrow> nat \<Rightarrow> nat option res" where
  "find_group List gid i 0 = Inr None"
| "find_group List gid i (Suc n) =
     andthen (index List i) (\<lambda>slot.
       if \<not> MM_TYPE_CHECK cg_tag slot CALIBAN then Inr None
       else if cg_id (deref slot) = gid then Inr (Some i)
       else find_group List gid (Suc i) n)"

definition set_list :: "rule_list \<Rightarrow> CONFIG_GROUP ptr list ptr \<Rightarrow> GC \<Rightarrow> GC" where
  "set_list l List G = G\<lparr>gc_list := (gc_list G)(l := List)\<rparr>"

definition set_count :: "rule_list \<Rightarrow> u32 \<Rightarrow> GC \<Rightarrow> GC" where
  "set_count l c G = G\<lparr>gc_COUNT := (gc_COUNT G)(l := c)\<rparr>"

text \<open>A fresh group, with the item as its first entry. \<open>ExAllocatePool2\<close> zeroes what it returns.\<close>

definition new_group :: "CFG \<Rightarrow> CFI ptr \<Rightarrow> CONFIG_GROUP" where
  "new_group cfg newitem =
     \<lparr>entries = (replicate 256 Null)[0 := newitem], cg_count = 1, cg_id = cfg_id cfg,
      cg_actions = cfg_actions cfg, cg_tag = CALIBAN\<rparr>"

text \<open>Neither the 256 entries of a group nor the 65535 slots of a list are checked before the
  write; the model faults where the C code writes past them.\<close>

definition loadConfigItem ::
  "rtl \<Rightarrow> GC \<Rightarrow> u16 \<Rightarrow> CFG \<Rightarrow> CFI ptr \<Rightarrow> (NTSTATUS \<times> GC) res" where
  "loadConfigItem R G listType cfg newitem =
     (case resolveList G listType of (List, C, list_max) \<Rightarrow>
      case List of Null \<Rightarrow> Inr (STATUS_INVALID_MESSAGE, G)
      | Ptr la slots \<Rightarrow>
        case C of None \<Rightarrow> Inr (STATUS_INVALID_MESSAGE, G)
        | Some l \<Rightarrow>
          let c = gc_COUNT G l in
          andthen (find_group slots (cfg_id cfg) 0 (unat c)) (\<lambda>found.
            case found of
              Some i \<Rightarrow>
                let g = deref (slots ! i) in
                if length (entries g) \<le> unat (cg_count g) then Inl OutOfBounds else
                let g' = g\<lparr>entries := (entries g)[unat (cg_count g) := newitem],
                           cg_actions := cg_actions g AND cfg_actions cfg,
                           cg_count := cg_count g + 1\<rparr> in
                Inr (STATUS_SUCCESS, set_list l (Ptr la (slots[i := Ptr (addr (slots ! i)) g'])) G)
            | None \<Rightarrow>
                if length slots \<le> unat c then Inl OutOfBounds else
                let a = ExAllocatePool2 R (la + ucast c) 2072 in
                if a = 0
                then Inr (STATUS_NO_MEMORY, set_list l (Ptr la (slots[unat c := Null])) G)
                else Inr (STATUS_SUCCESS,
                       set_count l (if c < list_max then c + 1 else c)
                         (set_list l (Ptr la (slots[unat c := Ptr a (new_group cfg newitem)])) G))))"

section \<open>The abstract rule list\<close>

text \<open>Abstractly a list is a sequence of rules: an id, an action, and the items that must all hold.\<close>

type_synonym rule = "u32 \<times> u32 \<times> CFI ptr list"

fun add_rule :: "rule list \<Rightarrow> u32 \<Rightarrow> u32 \<Rightarrow> CFI ptr \<Rightarrow> rule list" where
  "add_rule [] i a x = [(i, a, [x])]"
| "add_rule ((j, b, xs) # rs) i a x =
     (if j = i then (j, b AND a, xs @ [x]) # rs else (j, b, xs) # add_rule rs i a x)"

definition abs_group :: "CONFIG_GROUP \<Rightarrow> rule" where
  "abs_group g = (cg_id g, cg_actions g, group_items g)"

definition rules_of :: "GC \<Rightarrow> rule_list \<Rightarrow> rule list" where
  "rules_of G l = map abs_group (live_groups (deref (gc_list G l)) (unat (gc_COUNT G l)))"

text \<open>The invariant of a list under construction: a table of 65535 slots whose used ones are typed
  groups with distinct ids and 256 entries each.\<close>

definition built_group :: "CONFIG_GROUP ptr \<Rightarrow> bool" where
  "built_group q \<longleftrightarrow> MM_TYPE_CHECK cg_tag q CALIBAN \<and> wf_group (deref q) \<and> length (entries (deref q)) = 256"

definition built_list :: "GC \<Rightarrow> rule_list \<Rightarrow> bool" where
  "built_list G l \<longleftrightarrow> VALID_PAGE (gc_list G l) \<and> length (deref (gc_list G l)) = 65535
     \<and> unat (gc_COUNT G l) \<le> 65535
     \<and> list_all built_group (take (unat (gc_COUNT G l)) (deref (gc_list G l)))
     \<and> distinct (map fst (rules_of G l))"

lemma add_rule_at:
  assumes "k < length rs" "fst (rs ! k) = i" "\<forall>j < k. fst (rs ! j) \<noteq> i"
  shows "add_rule rs i a x
    = rs[k := (i, fst (snd (rs ! k)) AND a, snd (snd (rs ! k)) @ [x])]"
  using assms
proof (induction rs i a x arbitrary: k rule: add_rule.induct)
  case (2 j b xs rs i a x)
  then show ?case
  proof (cases k)
    case (Suc k')
    have "\<forall>j < k'. fst (rs ! j) \<noteq> i"
      using 2(4) Suc by (metis Suc_mono nth_Cons_Suc)
    moreover have "j \<noteq> i" using 2(4) Suc by (metis fst_conv nth_Cons_0 zero_less_Suc)
    ultimately show ?thesis using 2(1) [of k'] 2(2,3) Suc by simp
  qed simp
qed simp

lemma add_rule_new:
  "i \<notin> fst ` set rs \<Longrightarrow> add_rule rs i a x = rs @ [(i, a, [x])]"
  by (induction rs i a x rule: add_rule.induct) auto

lemma add_rule_ids: "fst ` set (add_rule rs i a x) = insert i (fst ` set rs)"
  by (induction rs i a x rule: add_rule.induct) auto

lemma add_rule_distinct: "distinct (map fst rs) \<Longrightarrow> distinct (map fst (add_rule rs i a x))"
proof (induction rs i a x rule: add_rule.induct)
  case (2 j b xs rs i a x)
  then show ?case using add_rule_ids [of rs i a x] by (auto simp flip: set_map)
qed simp

lemma find_group_spec:
  assumes "i + n \<le> length slots" "list_all (\<lambda>q. MM_TYPE_CHECK cg_tag q CALIBAN) (take n (drop i slots))"
  shows "(\<exists>k. find_group slots gid i n = Inr (Some k) \<and> i \<le> k \<and> k < i + n
            \<and> cg_id (deref (slots ! k)) = gid \<and> (\<forall>j. i \<le> j \<and> j < k \<longrightarrow> cg_id (deref (slots ! j)) \<noteq> gid))
       \<or> find_group slots gid i n = Inr None \<and> (\<forall>j. i \<le> j \<and> j < i + n \<longrightarrow> cg_id (deref (slots ! j)) \<noteq> gid)"
  using assms
proof (induction slots gid i n rule: find_group.induct)
  case (2 slots gid i n)
  have i: "i < length slots" using 2(2) by simp
  have "take (Suc n) (drop i slots) = slots ! i # take n (drop (Suc i) slots)"
    using i by (simp flip: Cons_nth_drop_Suc)
  then have tc: "MM_TYPE_CHECK cg_tag (slots ! i) CALIBAN"
    and rest: "list_all (\<lambda>q. MM_TYPE_CHECK cg_tag q CALIBAN) (take n (drop (Suc i) slots))"
    using 2(3) by simp_all
  show ?case
  proof (cases "cg_id (deref (slots ! i)) = gid")
    case True
    then show ?thesis using i tc by auto
  next
    case False
    have eq: "find_group slots gid i (Suc n) = find_group slots gid (Suc i) n"
      using False i tc by simp
    have between: "i \<le> j \<and> j < m \<longleftrightarrow> (j = i \<and> i < m) \<or> (Suc i \<le> j \<and> j < m)" for j m by auto
    show ?thesis
      using 2(1) [of "slots ! i"] 2(2) rest i tc False
      unfolding eq between by fastforce
  qed
qed auto

lemma live_groups_typed:
  assumes "list_all (\<lambda>q. MM_TYPE_CHECK cg_tag q CALIBAN) (take n slots)"
  shows "live_groups slots n = map deref (take n slots)"
  using assms by (simp add: live_groups_def list_all_iff takeWhile_eq_all_conv [THEN iffD2])

lemma built_typed: "list_all built_group qs \<Longrightarrow> list_all (\<lambda>q. MM_TYPE_CHECK cg_tag q CALIBAN) qs"
  by (auto simp: list_all_iff built_group_def)

lemma rules_of_built:
  assumes "built_list G l"
  shows "rules_of G l = map (abs_group \<circ> deref) (take (unat (gc_COUNT G l)) (deref (gc_list G l)))"
  using assms by (simp add: rules_of_def built_list_def live_groups_typed built_typed)

lemma built_list_wf: "built_list G l \<Longrightarrow> wf_list (deref (gc_list G l)) (unat (gc_COUNT G l))"
  by (auto simp: built_list_def wf_list_def live_groups_typed built_typed built_group_def list_all_iff)

text \<open>An item for an existing group, and an item that opens one.\<close>

lemma abs_group_append:
  assumes "wf_group g" "length (entries g) = 256" "unat (cg_count g) < 256"
  shows "abs_group (g\<lparr>entries := (entries g)[unat (cg_count g) := x],
      cg_actions := b, cg_count := cg_count g + 1\<rparr>) = (cg_id g, b, group_items g @ [x])"
proof -
  have "unat (cg_count g + 1) = Suc (unat (cg_count g))"
    using assms(3) by (simp add: unat_word_ariths)
  then show ?thesis
    using assms(2,3) by (simp add: abs_group_def group_items_def take_Suc_conv_app_nth)
qed

lemma built_group_append:
  assumes "built_group q" "unat (cg_count (deref q)) < 256" "wf_item x"
  shows "built_group (Ptr a ((deref q)\<lparr>entries := (entries (deref q))[unat (cg_count (deref q)) := x],
      cg_actions := b, cg_count := cg_count (deref q) + 1\<rparr>))"
proof -
  have s: "unat (cg_count (deref q) + 1) = Suc (unat (cg_count (deref q)))"
    using assms(2) by (simp add: unat_word_ariths)
  then have "cg_count (deref q) + 1 \<noteq> 0" by (metis Zero_not_Suc unsigned_0)
  moreover have "cg_tag (deref q) = CALIBAN"
    using assms(1) by (cases q) (auto simp: built_group_def)
  ultimately show ?thesis
    using assms s abs_group_append [where g = "deref q" and x = x and b = b]
    by (auto simp: built_group_def wf_group_def abs_group_def word_gt_0)
qed

lemma built_group_new:
  assumes "wf_item x"
  shows "built_group (Ptr a (new_group cfg x))"
    and "abs_group (new_group cfg x) = (cfg_id cfg, cfg_actions cfg, [x])"
proof -
  have "(replicate 256 Null :: CFI ptr list) = Null # replicate 255 Null"
    using replicate_Suc [of 255] by (simp only: Suc_numeral semiring_norm)
  then have r: "(replicate 256 Null)[0 := x] = x # replicate 255 Null"
    by (simp only: list_update_code)
  have items: "group_items (new_group cfg x) = [x]"
    unfolding group_items_def new_group_def CONFIG_GROUP.simps r by simp
  then show "abs_group (new_group cfg x) = (cfg_id cfg, cfg_actions cfg, [x])"
    by (simp add: abs_group_def new_group_def)
  show "built_group (Ptr a (new_group cfg x))"
    using items assms by (simp add: built_group_def wf_group_def) (simp add: new_group_def)
qed

text \<open>The table after an insertion: the group of the id gets the item, or a new group is put at its end.\<close>

lemma grown_group:
  assumes "list_all built_group (take n slots)" "n \<le> length slots" "k < n" "wf_item x"
    and "cg_id (deref (slots ! k)) = i" "\<forall>j < k. cg_id (deref (slots ! j)) \<noteq> i" "unat (cg_count (deref (slots ! k))) < 256"
    and q: "q = Ptr b ((deref (slots ! k))\<lparr>entries := (entries (deref (slots ! k)))[unat (cg_count (deref (slots ! k))) := x],
      cg_actions := cg_actions (deref (slots ! k)) AND a, cg_count := cg_count (deref (slots ! k)) + 1\<rparr>)"
  shows "list_all built_group (take n (slots[k := q]))"
    "map (abs_group \<circ> deref) (take n (slots[k := q])) = add_rule (map (abs_group \<circ> deref) (take n slots)) i a x"
proof -
  let ?g = "deref (slots ! k)"
  have bg: "built_group (slots ! k)" using assms(1-3) by (auto simp: list_all_length)
  have bq: "built_group q" unfolding q by (rule built_group_append [OF bg assms(7,4)])
  have abs_q: "abs_group (deref q) = (cg_id ?g, cg_actions ?g AND a, group_items ?g @ [x])"
    using bg assms(7) by (simp add: q abs_group_append built_group_def)
  have tk: "take n (slots[k := q]) = (take n slots)[k := q]" by (simp add: take_update_swap)
  show "list_all built_group (take n (slots[k := q]))"
    using assms(1) bq by (auto simp: tk list_all_iff dest!: set_update_subset_insert [THEN subsetD])
  show "map (abs_group \<circ> deref) (take n (slots[k := q])) = add_rule (map (abs_group \<circ> deref) (take n slots)) i a x"
    using add_rule_at [of k "map (abs_group \<circ> deref) (take n slots)" i a x] assms(2,3,5,6)
    by (simp add: tk map_update abs_q) (simp add: abs_group_def)
qed

lemma added_group:
  assumes "list_all built_group (take n slots)" "n < length slots" "wf_item x"
    and "\<forall>j < n. cg_id (deref (slots ! j)) \<noteq> cfg_id cfg"
  shows "list_all built_group (take (Suc n) (slots[n := Ptr b (new_group cfg x)]))"
    "map (abs_group \<circ> deref) (take (Suc n) (slots[n := Ptr b (new_group cfg x)]))
      = add_rule (map (abs_group \<circ> deref) (take n slots)) (cfg_id cfg) (cfg_actions cfg) x"
proof -
  have tk: "take (Suc n) (slots[n := Ptr b (new_group cfg x)]) = take n slots @ [Ptr b (new_group cfg x)]"
    using assms(2) by (simp add: take_Suc_conv_app_nth)
  show "list_all built_group (take (Suc n) (slots[n := Ptr b (new_group cfg x)]))"
    unfolding tk using assms(1) built_group_new(1) [OF assms(3)] by simp
  have "cfg_id cfg \<notin> fst ` set (map (abs_group \<circ> deref) (take n slots))"
    using assms(2,4) by (auto simp: in_set_conv_nth abs_group_def) blast
  then show "map (abs_group \<circ> deref) (take (Suc n) (slots[n := Ptr b (new_group cfg x)]))
      = add_rule (map (abs_group \<circ> deref) (take n slots)) (cfg_id cfg) (cfg_actions cfg) x"
    using built_group_new(2) [OF assms(3), of cfg] by (simp add: tk add_rule_new)
qed

text \<open>A list whose table has changed in such a way.\<close>

lemma built_list_table:
  assumes "gc_list G' l = Ptr la slots" "unat (gc_COUNT G' l) = n" "n \<le> 65535" "VALID_PAGE (Ptr la slots)"
    and "length slots = 65535" "list_all built_group (take n slots)" "distinct (map fst rs)"
    and "map (abs_group \<circ> deref) (take n slots) = add_rule rs i a x"
  shows "rules_of G' l = add_rule rs i a x \<and> built_list G' l"
proof -
  have "rules_of G' l = add_rule rs i a x"
    using live_groups_typed [OF built_typed [OF assms(6)]] assms(1,2,8) by (simp add: rules_of_def)
  then show ?thesis using assms add_rule_distinct by (simp add: built_list_def)
qed

lemma loadConfigItem_refines:
  assumes t: "list_of_type t = Some l" and b: "built_list G l" and x: "wf_item x"
    and room: "\<forall>r \<in> set (rules_of G l). fst r = cfg_id cfg \<longrightarrow> length (snd (snd r)) < 256"
    and slot: "gc_COUNT G l < 65535" and pool: "pool_ample R"
  shows "\<exists>G'. loadConfigItem R G t cfg x = Inr (STATUS_SUCCESS, G')
     \<and> rules_of G' l = add_rule (rules_of G l) (cfg_id cfg) (cfg_actions cfg) x
     \<and> built_list G' l
     \<and> (\<forall>l'. l' \<noteq> l \<longrightarrow> gc_list G' l' = gc_list G l' \<and> gc_COUNT G' l' = gc_COUNT G l')"
proof -
  obtain la slots where L: "gc_list G l = Ptr la slots" using b by (cases "gc_list G l") (auto simp: built_list_def)
  have vp: "VALID_PAGE (Ptr la s)" for s :: "CONFIG_GROUP ptr list" using b L by (simp add: built_list_def VALID_PAGE_def)
  have len: "length slots = 65535" using b L by (simp add: built_list_def)
  define n where "n = unat (gc_COUNT G l)"
  have n: "n < 65535" using slot by (simp add: n_def word_less_nat_alt)
  have grp: "list_all built_group (take n slots)" using b L by (simp add: built_list_def n_def)
  have rules: "rules_of G l = map (abs_group \<circ> deref) (take n slots)" "distinct (map fst (rules_of G l))"
    using rules_of_built [OF b] L b by (simp_all add: n_def built_list_def)
  note spec = find_group_spec [of 0 n slots "cfg_id cfg", simplified, OF _ built_typed [OF grp]]
  consider (old) k where "find_group slots (cfg_id cfg) 0 n = Inr (Some k)" "k < n"
      "cg_id (deref (slots ! k)) = cfg_id cfg" "\<forall>j < k. cg_id (deref (slots ! j)) \<noteq> cfg_id cfg"
    | (new) "find_group slots (cfg_id cfg) 0 n = Inr None"
      "\<forall>j < n. cg_id (deref (slots ! j)) \<noteq> cfg_id cfg"
    using spec n len by auto
  then show ?thesis
  proof cases
    case old
    let ?g = "deref (slots ! k)"
    let ?q = "Ptr (addr (slots ! k)) (?g\<lparr>entries := (entries ?g)[unat (cg_count ?g) := x],
      cg_actions := cg_actions ?g AND cfg_actions cfg, cg_count := cg_count ?g + 1\<rparr>)"
    let ?G = "set_list l (Ptr la (slots[k := ?q])) G"
    have bg: "built_group (slots ! k)" using grp old(2) n len by (auto simp: list_all_length)
    have "abs_group ?g \<in> set (rules_of G l)" using old(2) n len by (force simp: rules(1) in_set_conv_nth)
    then have cnt: "unat (cg_count ?g) < 256"
      using room old(3) bg by (auto simp: abs_group_def group_items_def built_group_def wf_group_def)
    have load: "loadConfigItem R G t cfg x = Inr (STATUS_SUCCESS, ?G)"
      using t L old(1) bg cnt by (simp add: loadConfigItem_def resolveList_list Let_def built_group_def flip: n_def)
    have le: "n \<le> length slots" using n len by simp
    note grown = grown_group [OF grp le old(2) x old(3,4) cnt refl, of "addr (slots ! k)" "cfg_actions cfg"]
    have "rules_of ?G l = add_rule (rules_of G l) (cfg_id cfg) (cfg_actions cfg) x \<and> built_list ?G l"
      by (rule built_list_table [where n = n]) (use grown n len vp rules in \<open>simp_all add: set_list_def n_def [symmetric]\<close>)
    then show ?thesis using load by (auto simp: set_list_def)
  next
    case new
    define a where "a = ExAllocatePool2 R (la + ucast (gc_COUNT G l)) 2072"
    have a: "a \<noteq> 0" using pool by (simp add: a_def pool_ample_def)
    let ?G = "set_count l (gc_COUNT G l + 1) (set_list l (Ptr la (slots[n := Ptr a (new_group cfg x)])) G)"
    have load: "loadConfigItem R G t cfg x = Inr (STATUS_SUCCESS, ?G)"
      using t L new(1) a n len slot by (simp add: loadConfigItem_def resolveList_list Let_def flip: n_def a_def)
    have n': "unat (gc_COUNT G l + 1) = Suc n" using n by (simp add: n_def unat_word_ariths)
    have lt: "n < length slots" using n len by simp
    note added = added_group [OF grp lt x new(2), of a]
    have "rules_of ?G l = add_rule (rules_of G l) (cfg_id cfg) (cfg_actions cfg) x \<and> built_list ?G l"
      by (rule built_list_table [where n = "Suc n"]) (use added n len vp rules n' in \<open>simp_all add: set_list_def set_count_def\<close>)
    then show ?thesis using load by (auto simp: set_list_def set_count_def)
  qed
qed

text \<open>The 257th item of a group is written past its table of entries.\<close>

lemma loadConfigItem_overflow:
  assumes t: "list_of_type t = Some l" and b: "built_list G l"
    and r: "r \<in> set (rules_of G l)" "fst r = cfg_id cfg" "length (snd (snd r)) = 256"
  shows "loadConfigItem R G t cfg x = Inl OutOfBounds"
proof -
  have vp: "VALID_PAGE (gc_list G l)" using b by (simp add: built_list_def)
  then obtain la slots where L: "gc_list G l = Ptr la slots" by (cases "gc_list G l") auto
  define n where "n = unat (gc_COUNT G l)"
  have n: "n \<le> length slots" and grp: "list_all built_group (take n slots)"
    and rules: "rules_of G l = map (abs_group \<circ> deref) (take n slots)"
    using b L rules_of_built [OF b] by (simp_all add: built_list_def n_def)
  have dist: "distinct (map (cg_id \<circ> deref) (take n slots))"
    using b by (simp add: built_list_def rules abs_group_def comp_def)
  obtain m where m: "m < n" "r = abs_group (deref (slots ! m))"
    using r(1) n by (auto simp: rules in_set_conv_nth)
  have "list_all (\<lambda>q. MM_TYPE_CHECK cg_tag q CALIBAN) (take n (drop 0 slots))"
    using built_typed [OF grp] by simp
  from find_group_spec [OF _ this, of "cfg_id cfg"] n m r(2)
  obtain k where k: "find_group slots (cfg_id cfg) 0 n = Inr (Some k)" "k < n"
    "cg_id (deref (slots ! k)) = cfg_id cfg"
    by (auto simp: abs_group_def)
  have "k = m"
    using dist k m r(2) n nth_eq_iff_index_eq [OF dist, of k m] by (simp add: abs_group_def)
  moreover have "built_group (slots ! m)" using grp m n by (auto simp: list_all_length)
  ultimately have "length (entries (deref (slots ! k))) \<le> unat (cg_count (deref (slots ! k)))"
    using m r(3) by (auto simp: abs_group_def group_items_def built_group_def wf_group_def)
  then show ?thesis
    using t L k(1) by (simp add: loadConfigItem_def resolveList_list Let_def flip: n_def)
qed

section \<open>What a sequence of insertions builds\<close>

text \<open>The items of a configuration for one list, in the order they are read: id, action, item.\<close>

definition load_rules :: "(u32 \<times> u32 \<times> CFI ptr) list \<Rightarrow> rule list" where
  "load_rules xs = foldl (\<lambda>rs (i, a, x). add_rule rs i a x) [] xs"

lemma map_of_add_rule:
  "map_of (add_rule rs i a x) j =
     (if j = i then Some (case map_of rs i of None \<Rightarrow> (a, [x]) | Some (b, ys) \<Rightarrow> (b AND a, ys @ [x]))
      else map_of rs j)"
  by (induction rs i a x rule: add_rule.induct) auto

text \<open>One rule per id: its items are all the items with that id, in order, and its action the
  conjunction of their actions.\<close>

lemma load_rules_groups:
  "map_of (load_rules xs) i =
    (case filter (\<lambda>e. fst e = i) xs of [] \<Rightarrow> None
     | (_, a, x) # ys \<Rightarrow> Some (foldl (AND) a (map (fst \<circ> snd) ys), x # map (snd \<circ> snd) ys))"
proof (induction xs rule: rev_induct)
  case (snoc y xs)
  obtain j a x where y: "y = (j, a, x)" by (cases y)
  have "load_rules (xs @ [y]) = add_rule (load_rules xs) j a x"
    by (simp add: load_rules_def y)
  then show ?case
    using snoc.IH y
    by (cases "filter (\<lambda>e. fst e = i) xs") (auto simp: map_of_add_rule split: prod.splits)
qed (simp add: load_rules_def)

lemma load_rules_distinct: "distinct (map fst (load_rules xs))"
proof (induction xs rule: rev_induct)
  case (snoc y xs)
  then show ?case by (cases y) (simp add: load_rules_def add_rule_distinct)
qed (simp add: load_rules_def)

text \<open>The driver's loop of insertions into one list, from a list that holds \<open>rs\<close>.\<close>

fun load_items :: "rtl \<Rightarrow> GC \<Rightarrow> u16 \<Rightarrow> (CFG \<times> CFI ptr) list \<Rightarrow> GC res" where
  "load_items R G t [] = Inr G"
| "load_items R G t ((cfg, x) # xs) =
     andthen (loadConfigItem R G t cfg x) (\<lambda>(_, G'). load_items R G' t xs)"

abbreviation item_of :: "CFG \<times> CFI ptr \<Rightarrow> u32 \<times> u32 \<times> CFI ptr" where
  "item_of \<equiv> \<lambda>(cfg, x). (cfg_id cfg, cfg_actions cfg, x)"

lemma load_rules_length: "length (load_rules xs) \<le> length xs"
proof (induction xs rule: rev_induct)
  case (snoc y xs)
  obtain i a x where y: "y = (i, a, x)" by (cases y)
  have "length (add_rule rs i a x) \<le> Suc (length rs)" for rs
    by (induction rs i a x rule: add_rule.induct) auto
  from this [of "load_rules xs"] show ?case using snoc y by (simp add: load_rules_def)
qed (simp add: load_rules_def)

lemma load_rules_items:
  assumes "r \<in> set (load_rules ys)"
  shows "length (snd (snd r)) = length (filter (\<lambda>e. fst e = fst r) ys)"
proof -
  have "map_of (load_rules ys) (fst r) = Some (snd r)"
    using assms load_rules_distinct [of ys] map_of_is_SomeI [of "load_rules ys" "fst r" "snd r"] by simp
  then show ?thesis
    by (cases r) (auto simp: load_rules_groups split: list.splits prod.splits)
qed

lemma load_items_aux:
  assumes "list_of_type t = Some l" "pool_ample R"
    and "built_list G l" "rules_of G l = load_rules (map item_of ys)"
    and "list_all (\<lambda>(_, x). wf_item x) xs" "length ys + length xs \<le> 65535"
    and "\<forall>i. length (filter (\<lambda>e. fst e = i) (map item_of (ys @ xs))) \<le> 256"
  shows "\<exists>G'. load_items R G t xs = Inr G' \<and> built_list G' l
     \<and> rules_of G' l = load_rules (map item_of (ys @ xs))"
  using assms(3-)
proof (induction xs arbitrary: G ys)
  case (Cons p xs)
  obtain cfg x where p: "p = (cfg, x)" by (cases p)
  have "length (rules_of G l) = unat (gc_COUNT G l)"
    using Cons.prems(1) rules_of_built [OF Cons.prems(1)] by (simp add: built_list_def)
  then have slot: "gc_COUNT G l < 65535"
    using load_rules_length [of "map item_of ys"] Cons.prems(2,4) by (simp add: word_less_nat_alt)
  have room: "\<forall>r \<in> set (rules_of G l). fst r = cfg_id cfg \<longrightarrow> length (snd (snd r)) < 256"
  proof (intro ballI impI)
    fix r assume r: "r \<in> set (rules_of G l)" "fst r = cfg_id cfg"
    show "length (snd (snd r)) < 256"
      using load_rules_items [of r "map item_of ys"] r Cons.prems(2) p
        Cons.prems(5) [THEN spec, of "cfg_id cfg"] by simp
  qed
  have wf: "wf_item x" using Cons.prems(3) p by simp
  obtain G' where G': "loadConfigItem R G t cfg x = Inr (STATUS_SUCCESS, G')"
    "rules_of G' l = add_rule (rules_of G l) (cfg_id cfg) (cfg_actions cfg) x" "built_list G' l"
    using loadConfigItem_refines [OF assms(1) Cons.prems(1) wf room slot assms(2)] by blast
  have "rules_of G' l = load_rules (map item_of (ys @ [p]))"
    using G'(2) Cons.prems(2) p by (simp add: load_rules_def)
  then show ?case
    using Cons.IH [of G' "ys @ [p]"] Cons.prems(3-) G' p by simp
qed simp

lemma load_items_refines:
  assumes "list_of_type t = Some l" "pool_ample R" "built_list G l" "gc_COUNT G l = 0"
    and "list_all (\<lambda>(_, x). wf_item x) xs" "length xs \<le> 65535"
    and "\<forall>i. length (filter (\<lambda>e. fst e = i) (map item_of xs)) \<le> 256"
  shows "\<exists>G'. load_items R G t xs = Inr G' \<and> built_list G' l
     \<and> rules_of G' l = load_rules (map item_of xs)"
proof -
  have "rules_of G l = load_rules (map item_of [])"
    using assms(4) by (simp add: rules_of_def load_rules_def)
  from load_items_aux [OF assms(1-3) this assms(5)] show ?thesis using assms(6,7) by simp
qed

section \<open>Releasing a list\<close>

text \<open>The addresses \<open>purgeConfigList\<close> gives back, in order, and the slots after it: the groups are
  freed and their counts cleared, but the table keeps pointing to them, and neither it nor the
  counter of the list is released.\<close>

fun free_entries :: "CONFIG_GROUP \<Rightarrow> nat \<Rightarrow> nat \<Rightarrow> u64 list res" where
  "free_entries g j 0 = Inr []"
| "free_entries g j (Suc n) =
     andthen (index (entries g) j) (\<lambda>e. andthen (case e of Null \<Rightarrow> Inl NullDeref | Ptr a _ \<Rightarrow> Inr a) (\<lambda>a.
       andthen (free_entries g (Suc j) n) (\<lambda>fs. Inr (a # fs))))"

fun purge_loop :: "CONFIG_GROUP ptr list \<Rightarrow> nat \<Rightarrow> nat \<Rightarrow> (CONFIG_GROUP ptr list \<times> u64 list) res" where
  "purge_loop List i 0 = Inr (List, [])"
| "purge_loop List i (Suc n) =
     andthen (index List i) (\<lambda>slot.
       if slot = Null then Inr (List, [])
       else if \<not> MM_TYPE_CHECK cg_tag slot CALIBAN then purge_loop List (Suc i) n
       else
         let g = deref slot in
         andthen (free_entries g 0 (unat (cg_count g))) (\<lambda>fs.
         andthen (purge_loop (List[i := Ptr (addr slot) (g\<lparr>cg_count := 0\<rparr>)]) (Suc i) n) (\<lambda>(List', rest).
           Inr (List', fs @ [addr slot] @ rest))))"

definition purgeConfigList :: "GC \<Rightarrow> u16 \<Rightarrow> (NTSTATUS \<times> GC \<times> u64 list) res" where
  "purgeConfigList G listType =
     (case resolveList G listType of (List, C, list_max) \<Rightarrow>
      case List of Null \<Rightarrow> Inr (STATUS_INVALID_MESSAGE, G, [])
      | Ptr la slots \<Rightarrow>
        case C of None \<Rightarrow> Inr (STATUS_INVALID_MESSAGE, G, [])
        | Some l \<Rightarrow>
          andthen (purge_loop slots 0 (min (unat (gc_COUNT G l)) (unat list_max))) (\<lambda>(slots', freed).
            Inr (STATUS_SUCCESS, set_list l (Ptr la slots') G, freed)))"

text \<open>What a list owns: its items and its groups.\<close>

definition owned :: "CONFIG_GROUP ptr list \<Rightarrow> u64 list" where
  "owned qs = concat (map (\<lambda>q. map addr (group_items (deref q)) @ [addr q]) qs)"

lemma free_entries_owned:
  assumes "wf_group g" "j + n = unat (cg_count g)"
  shows "free_entries g j n = Inr (map addr (drop j (group_items g)))"
  using assms(2)
proof (induction n arbitrary: j)
  case 0
  then show ?case using assms(1) by (simp add: wf_group_def group_items_def)
next
  case (Suc n)
  have len: "length (group_items g) = unat (cg_count g)" "j < length (entries g)"
    "entries g ! j = group_items g ! j"
    using assms(1) Suc.prems by (auto simp: wf_group_def group_items_def)
  have "wf_item (group_items g ! j)"
    using assms(1) Suc.prems len by (auto simp: wf_group_def list_all_length)
  then obtain a x where e: "group_items g ! j = Ptr a x"
    by (cases "group_items g ! j") (auto simp: wf_item_def)
  have "drop j (group_items g) = group_items g ! j # drop (Suc j) (group_items g)"
    using Suc.prems len by (simp add: Cons_nth_drop_Suc)
  then show ?case using Suc.IH [of "Suc j"] Suc.prems len e by simp
qed

lemma purge_loop_owned:
  assumes "list_all built_group (take n (drop i slots))" "i + n \<le> length slots"
  shows "\<exists>slots'. purge_loop slots i n = Inr (slots', owned (take n (drop i slots)))
    \<and> length slots' = length slots"
  using assms
proof (induction n arbitrary: i slots)
  case (Suc n)
  have i: "i < length slots" using Suc.prems(2) by simp
  have tk: "take (Suc n) (drop i slots) = slots ! i # take n (drop (Suc i) slots)"
    using i by (simp flip: Cons_nth_drop_Suc)
  have b: "built_group (slots ! i)" and rest: "list_all built_group (take n (drop (Suc i) slots))"
    using Suc.prems(1) by (simp_all add: tk)
  let ?u = "slots[i := Ptr (addr (slots ! i)) (deref (slots ! i)\<lparr>cg_count := 0\<rparr>)]"
  have "slots ! i \<noteq> Null" "MM_TYPE_CHECK cg_tag (slots ! i) CALIBAN"
    using b by (auto simp: built_group_def)
  moreover have "free_entries (deref (slots ! i)) 0 (unat (cg_count (deref (slots ! i))))
      = Inr (map addr (group_items (deref (slots ! i))))"
    using b free_entries_owned [of "deref (slots ! i)" 0] by (simp add: built_group_def)
  moreover have "\<exists>s'. purge_loop ?u (Suc i) n = Inr (s', owned (take n (drop (Suc i) slots)))
      \<and> length s' = length slots"
    using Suc.IH [of "Suc i" ?u] rest Suc.prems(2) by simp
  ultimately show ?case
    using i by (auto simp: Let_def owned_def tk)
qed (simp add: owned_def)

lemma purge_frees_owned:
  assumes "list_of_type t = Some l" "built_list G l"
  shows "\<exists>G'. purgeConfigList G t = Inr (STATUS_SUCCESS, G', owned (take (unat (gc_COUNT G l)) (deref (gc_list G l))))
     \<and> gc_COUNT G' l = gc_COUNT G l"
proof -
  have vp: "VALID_PAGE (gc_list G l)" using assms(2) by (simp add: built_list_def)
  then obtain la slots where L: "gc_list G l = Ptr la slots" by (cases "gc_list G l") auto
  define n where "n = unat (gc_COUNT G l)"
  have "list_all built_group (take n (drop 0 slots))" "0 + n \<le> length slots" "n \<le> 65535"
    using assms(2) L by (simp_all add: built_list_def n_def)
  then show ?thesis
    using purge_loop_owned [of n 0 slots] assms(1) L
    by (auto simp: purgeConfigList_def resolveList_list set_list_def simp flip: n_def)
qed

section \<open>What a loaded list decides\<close>

text \<open>The verdict of a list of abstract rules: the first one all of whose items hold.\<close>

definition rule_verdict :: "(CFI ptr \<Rightarrow> bool) \<Rightarrow> rule list \<Rightarrow> list_result" where
  "rule_verdict holds rs =
     (case find (\<lambda>(_, _, xs). \<forall>x \<in> set xs. holds x) rs of
        None \<Rightarrow> no_match
      | Some (i, a, _) \<Rightarrow> \<lparr>lr_matched = True, lr_id = i, lr_actions = a\<rparr>)"

lemma first_match_verdict: "first_match holds gs = rule_verdict holds (map abs_group gs)"
  by (induction gs) (auto simp: rule_verdict_def abs_group_def)

lemma rules_hit_verdict: "rules_hit holds G l = rule_verdict holds (rules_of G l)"
  by (simp add: rules_hit_def rules_of_def first_match_verdict)

lemma built_list_rules: "built_list G l \<Longrightarrow> wf_rules G l"
  using built_list_wf [of G l] by (simp add: wf_rules_def built_list_def)

end
