(* ===== verification/MM_Log.thy ===== *)
theory MM_Log
  imports MM_Utils
begin

text \<open>
  The log: \<open>AddLogEntry\<close> and \<open>DeleteLogEntry\<close> of \<open>src/MoonMon/Logging.c\<close>, the reader \<open>ReadLogEntry\<close> of
  \<open>src/MoonMon/MoonMon.c\<close>, and the format of a record. The list \<open>G->L\<close> is \<open>gc_L\<close>, from its head
  (\<open>Flink\<close>) to its tail (\<open>Blink\<close>). Each operation runs under \<open>LLOCK\<close> and is one step.
\<close>

section \<open>The format of a record\<close>

definition ascii :: "string \<Rightarrow> u8 list" where
  "ascii s = map (\<lambda>c. of_nat (of_char c)) s"

abbreviation MM_HEADER :: string where "MM_HEADER \<equiv> ''MOONMON''"

text \<open>\<open>MOONMON<ULONG:size><USHORT:type><LONG64:id><LONGLONG:Timestamp><DATA>\<close>\<close>

definition log_record :: "u32 \<Rightarrow> u16 \<Rightarrow> u64 \<Rightarrow> u64 \<Rightarrow> u8 list \<Rightarrow> u8 list" where
  "log_record sz type rid Timestamp bs =
     ascii MM_HEADER @ le_bytes 4 (unat sz) @ le_bytes 2 (unat type) @ le_bytes 8 (unat rid)
       @ le_bytes 8 (unat Timestamp) @ bs"

section \<open>Adding and deleting\<close>

definition DeleteLogEntry :: "GC \<Rightarrow> LOG_ENTRY \<Rightarrow> GC" where
  "DeleteLogEntry G entry =
     (let b = L_SIZE_BYTES G - le_size entry in
      G\<lparr>L_SIZE_BYTES := if b <s 0 then 0 else b\<rparr>)"

text \<open>The eviction loop: it takes entries from \<open>Blink\<close>, the tail. On an empty list \<open>Blink\<close> is the list
  head itself, which is no log entry.\<close>

function evict_loop :: "u32 \<Rightarrow> GC \<Rightarrow> GC res" where
  "evict_loop keep_max G =
     (if gc_L G = [] then Inl WildPointer else
      let G' = DeleteLogEntry (G\<lparr>gc_L := butlast (gc_L G)\<rparr>) (last (gc_L G)) in
      if keep_max <s L_SIZE_BYTES G' then evict_loop keep_max G' else Inr G')"
  by pat_completeness auto
termination by (relation "measure (\<lambda>(_, G). length (gc_L G))") (auto simp: DeleteLogEntry_def Let_def)

declare evict_loop.simps [simp del]

text \<open>\<open>rand\<close> is the value of \<open>MM_Genrand\<close>, and \<open>k\<close> distinguishes the allocations of the call.\<close>

definition AddLogEntry ::
  "rtl \<Rightarrow> u32 \<Rightarrow> u64 \<Rightarrow> GC \<Rightarrow> u64 \<Rightarrow> u64 \<Rightarrow> u32 \<Rightarrow> u16 \<Rightarrow> u8 list ptr \<Rightarrow> GC res" where
  "AddLogEntry R rand k G rid Timestamp sz type Data =
     (if \<not> VALID_PAGE Data then Inr G
      else if sz = 0 then Inr G
      else
        let header_fields_size = 29; max_sz = (- 1) - header_fields_size - 8 in
        if ExAllocatePool2 R k 40 = 0 then Inr G
        else if max_sz < sz then Inr G
        else
          let esize = sz + header_fields_size in
          if esize < 7 then Inr G
          else if ExAllocatePool2 R (k + 1) (unat esize) = 0 then Inr G
          else if length (deref Data) < unat sz then Inl OutOfBounds
          else
            let Entry = \<lparr>le_size = esize,
                  le_data = log_record sz type rid Timestamp (take (unat sz) (deref Data)),
                  le_tag = EUROPA\<rparr>;
                insert = (\<lambda>G. G\<lparr>gc_L := gc_L G @ [Entry], L_SIZE_BYTES := L_SIZE_BYTES G + esize\<rparr>) in
            if L_SIZE_BYTES G <s LIST_SIZE_MAX_BYTES then Inr (insert G)
            else
              let jitter = rand mod LIST_PURGE_CONGRUENT;
                  keep_max = (if jitter \<le> 0 then LIST_KEEP_MAX else LIST_KEEP_MAX + jitter) in
              andthen (evict_loop keep_max G) (\<lambda>G'. Inr (insert G')))"

section \<open>Reading\<close>

abbreviation POSTAMBLE :: string where "POSTAMBLE \<equiv> ''NOMNOOM''"

text \<open>The inner loop, from a state with at least one entry: \<open>bytes\<close> have been copied into the
  client's buffer, and \<open>out\<close> are they. The result is the status, the bytes, whether an entry was
  copied, and the new state.\<close>

function read_loop :: "u32 \<Rightarrow> u8 list \<Rightarrow> bool \<Rightarrow> GC \<Rightarrow> NTSTATUS \<times> u8 list \<times> bool \<times> GC" where
  "read_loop len out copied G =
     (case gc_L G of [] \<Rightarrow> (STATUS_SUCCESS, out, copied, G)
      | entry # rest \<Rightarrow>
        if le_tag entry \<noteq> EUROPA then (STATUS_SUCCESS, out, copied, G\<lparr>gc_L := rest\<rparr>)
        else if unat len < length out + unat (le_size entry)
        then (if out = [] then STATUS_INVALID_BUFFER_SIZE else STATUS_SUCCESS, out, copied, G)
        else
          let out' = out @ take (unat (le_size entry)) (le_data entry);
              G' = DeleteLogEntry (G\<lparr>gc_L := rest\<rparr>) entry in
          if rest \<noteq> [] \<and> length out' < unat (len - 12) then read_loop len out' True G'
          else (STATUS_SUCCESS, out', True, G'))"
  by pat_completeness auto
termination by (relation "measure (\<lambda>(_, _, _, G). length (gc_L G))")
  (auto simp: DeleteLogEntry_def Let_def)

declare read_loop.simps [simp del]

text \<open>What the request completes with: status, \<open>Information\<close>, and the client's buffer where it has
  been written. \<open>mapped\<close> says whether \<open>MmGetSystemAddressForMdlSafe\<close> has mapped it.\<close>

abbreviation STATUS_INSUFFICIENT_RESOURCES :: NTSTATUS where
  "STATUS_INSUFFICIENT_RESOURCES \<equiv> 0xC000009A"

record read_result =
  rr_status :: NTSTATUS
  rr_bytes :: nat
  rr_buffer :: "u8 list option"

definition ReadLogEntry :: "GC ptr \<Rightarrow> u32 \<Rightarrow> bool \<Rightarrow> read_result \<times> GC ptr" where
  "ReadLogEntry globals len mapped =
     (if \<not> MM_TYPE_CHECK gc_tag globals GANYMEDE \<or> gc_State (deref globals) \<noteq> INITIALIZED
      then (\<lparr>rr_status = STATUS_PENDING, rr_bytes = 0, rr_buffer = None\<rparr>, globals)
      else if gc_L (deref globals) = []
      then (\<lparr>rr_status = STATUS_NO_MORE_ENTRIES, rr_bytes = 0, rr_buffer = None\<rparr>, globals)
      else if \<not> mapped
      then (\<lparr>rr_status = STATUS_INSUFFICIENT_RESOURCES, rr_bytes = 0, rr_buffer = None\<rparr>, globals)
      else case read_loop len [] False (deref globals) of (status, out, copied, G') \<Rightarrow>
        let pad = unat len - length out;
            tail = (if copied \<and> 7 < pad then ascii POSTAMBLE @ replicate (pad - 7) 0 else replicate pad 0) in
        (\<lparr>rr_status = status, rr_bytes = length out, rr_buffer = Some (out @ tail)\<rparr>,
         Ptr (addr globals) G'))"

section \<open>The records can be told apart\<close>

text \<open>What a reader of the stream recovers, record by record: type, id, timestamp and data.\<close>

type_synonym log_field = "u16 \<times> u64 \<times> u64 \<times> u8 list"

function decode_log :: "u8 list \<Rightarrow> log_field list" where
  "decode_log bs =
     (if length bs < 29 \<or> take 7 bs \<noteq> ascii MM_HEADER then []
      else let n = le_nat (take 4 (drop 7 bs)) in
        if length bs < 29 + n then []
        else (of_nat (le_nat (take 2 (drop 11 bs))), of_nat (le_nat (take 8 (drop 13 bs))),
              of_nat (le_nat (take 8 (drop 21 bs))), take n (drop 29 bs)) # decode_log (drop (29 + n) bs))"
  by pat_completeness auto
termination by (relation "measure length") auto

declare decode_log.simps [simp del]

definition encode_field :: "log_field \<Rightarrow> u8 list" where
  "encode_field f = (case f of (type, rid, ts, bs) \<Rightarrow> log_record (of_nat (length bs)) type rid ts bs)"

lemma length_ascii [simp]: "length (ascii s) = length s"
  by (simp add: ascii_def)

lemma length_log_record [simp]: "length (log_record sz type rid ts bs) = 29 + length bs"
  by (simp add: log_record_def)

lemma decode_log_record:
  assumes "length bs < 2 ^ 32"
  shows "decode_log (log_record (of_nat (length bs)) type rid ts bs @ rest)
       = (type, rid, ts, bs) # decode_log rest"
proof -
  let ?r = "log_record (of_nat (length bs)) type rid ts bs @ rest"
  have n: "unat (of_nat (length bs) :: u32) = length bs"
    using assms by (simp add: unat_of_nat take_bit_nat_eq_self)
  have parts: "take 7 ?r = ascii MM_HEADER" "take 4 (drop 7 ?r) = le_bytes 4 (length bs)"
    "take 2 (drop 11 ?r) = le_bytes 2 (unat type)" "take 8 (drop 13 ?r) = le_bytes 8 (unat rid)"
    "take 8 (drop 21 ?r) = le_bytes 8 (unat ts)" "take (length bs) (drop 29 ?r) = bs"
    "drop (29 + length bs) ?r = rest"
    by (simp_all add: log_record_def n)
  have sz: "le_nat (le_bytes 4 (length bs)) = length bs"
    using assms by (simp add: le_nat_bytes)
  show ?thesis
    by (subst decode_log.simps) (simp only: parts sz Let_def le_nat_word, simp)
qed

lemma decode_log_other: "take 7 bs \<noteq> ascii MM_HEADER \<Longrightarrow> decode_log bs = []"
  by (subst decode_log.simps) simp

lemma decode_encode:
  assumes "\<forall>f \<in> set fs. length (snd (snd (snd f))) < 2 ^ 32"
  shows "decode_log (concat (map encode_field fs) @ rest) = fs @ decode_log rest"
  using assms
  by (induction fs) (auto simp: encode_field_def decode_log_record)

section \<open>The invariant of the log\<close>

text \<open>An entry of the log holds one record, typed, with its length. The largest data the callbacks
  log stays far below \<open>10 ^ 9\<close> bytes; the bound keeps the signed counter from overflowing.\<close>

definition entry_of :: "LOG_ENTRY \<Rightarrow> log_field \<Rightarrow> bool" where
  "entry_of e f \<longleftrightarrow> le_tag e = EUROPA \<and> le_data e = encode_field f \<and> unat (le_size e) = length (le_data e)
     \<and> 0 < length (snd (snd (snd f))) \<and> length (snd (snd (snd f))) \<le> 1000000000"

definition wf_entry :: "LOG_ENTRY \<Rightarrow> bool" where
  "wf_entry e \<longleftrightarrow> (\<exists>f. entry_of e f)"

definition log_bytes :: "LOG_ENTRY list \<Rightarrow> nat" where
  "log_bytes es = sum_list (map (\<lambda>e. unat (le_size e)) es)"

definition log_inv :: "GC \<Rightarrow> bool" where
  "log_inv G \<longleftrightarrow> (\<forall>e \<in> set (gc_L G). wf_entry e) \<and> unat (L_SIZE_BYTES G) = log_bytes (gc_L G)
     \<and> log_bytes (gc_L G) < 2 ^ 31"

lemma log_bytes_simps [simp]:
  "log_bytes [] = 0" "log_bytes (e # es) = unat (le_size e) + log_bytes es"
  "log_bytes (es @ fs) = log_bytes es + log_bytes fs"
  by (simp_all add: log_bytes_def)

lemma wf_entry_size: "wf_entry e \<Longrightarrow> 29 < unat (le_size e) \<and> length (le_data e) = unat (le_size e)"
  by (auto simp: wf_entry_def entry_of_def encode_field_def)

lemma wf_entry_tag: "wf_entry e \<Longrightarrow> le_tag e = EUROPA"
  by (auto simp: wf_entry_def entry_of_def)

text \<open>Deleting an entry that is in the list subtracts its size.\<close>

lemma DeleteLogEntry_bytes:
  assumes "unat (L_SIZE_BYTES G) = unat (le_size e) + n" "unat (L_SIZE_BYTES G) < 2 ^ 31"
  shows "unat (L_SIZE_BYTES (DeleteLogEntry G e)) = n" "gc_L (DeleteLogEntry G e) = gc_L G"
proof -
  have b: "unat (L_SIZE_BYTES G - le_size e) = n"
    using assms(1) by (simp add: unat_sub_if' word_le_nat_alt)
  then have "\<not> L_SIZE_BYTES G - le_size e <s 0"
    using assms sless_small [of "L_SIZE_BYTES G - le_size e" 0] by simp
  with b show "unat (L_SIZE_BYTES (DeleteLogEntry G e)) = n"
    by (simp add: DeleteLogEntry_def Let_def)
qed (simp add: DeleteLogEntry_def Let_def)

lemma evict_loop_spec:
  assumes "log_inv G" "gc_L G \<noteq> []" "unat keep < 2 ^ 31"
  shows "\<exists>G' n. evict_loop keep G = Inr G' \<and> n < length (gc_L G) \<and> gc_L G' = take n (gc_L G)
    \<and> log_inv G' \<and> unat (L_SIZE_BYTES G') \<le> unat keep
    \<and> (Suc n = length (gc_L G) \<or> unat keep < log_bytes (take (Suc n) (gc_L G)))"
  using assms(1,2)
proof (induction "length (gc_L G)" arbitrary: G)
  case (Suc m)
  define e es where "e = last (gc_L G)" and "es = butlast (gc_L G)"
  have L: "gc_L G = es @ [e]" using Suc.prems(2) by (simp add: e_def es_def)
  have es: "es = take m (gc_L G)" "length es = m" using L Suc.hyps(2) by simp_all
  define G1 where "G1 = DeleteLogEntry (G\<lparr>gc_L := es\<rparr>) e"
  have G1: "unat (L_SIZE_BYTES G1) = log_bytes es" "gc_L G1 = es"
    using Suc.prems(1) L DeleteLogEntry_bytes [of "G\<lparr>gc_L := es\<rparr>" e "log_bytes es"]
    by (simp_all add: G1_def log_inv_def)
  then have inv1: "log_inv G1"
    using Suc.prems(1) L by (simp add: log_inv_def)
  have unf: "evict_loop keep G = (if keep <s L_SIZE_BYTES G1 then evict_loop keep G1 else Inr G1)"
    using Suc.prems(2) by (subst evict_loop.simps) (simp add: Let_def G1_def e_def es_def)
  have cmp: "keep <s L_SIZE_BYTES G1 \<longleftrightarrow> unat keep < log_bytes es"
    using sless_small [of keep "L_SIZE_BYTES G1"] assms(3) inv1 G1 by (simp add: log_inv_def)
  show ?case
  proof (cases "unat keep < log_bytes es")
    case False
    then show ?thesis
      using unf cmp inv1 G1 es Suc.hyps(2) by (intro exI [of _ G1] exI [of _ m]) simp
  next
    case True
    then have "gc_L G1 \<noteq> []" using G1 by auto
    then obtain G' n where ih: "evict_loop keep G1 = Inr G'" "n < length es" "gc_L G' = take n es"
      "log_inv G'" "unat (L_SIZE_BYTES G') \<le> unat keep"
      "Suc n = length es \<or> unat keep < log_bytes (take (Suc n) es)"
      using Suc.hyps(1) [of G1] inv1 G1(2) es(2) by auto
    have "Suc n \<le> m" using ih(2) es by simp
    then have tk: "take n es = take n (gc_L G)" "take (Suc n) es = take (Suc n) (gc_L G)"
      using es(1) by (simp_all add: min_def)
    have "unat keep < log_bytes (take (Suc n) (gc_L G))"
      using ih(6) True tk(2) by auto
    then show ?thesis
      using unf cmp True ih tk es(2) Suc.hyps(2) by (intro exI [of _ G'] exI [of _ n]) simp
  qed
qed simp

section \<open>What adding does\<close>

definition keep_limit :: "u32 \<Rightarrow> nat" where
  "keep_limit rand = 175000000 + unat rand mod 8750000"

text \<open>The record of a field, as an entry.\<close>

definition new_entry :: "u32 \<Rightarrow> u16 \<Rightarrow> u64 \<Rightarrow> u64 \<Rightarrow> u8 list \<Rightarrow> LOG_ENTRY" where
  "new_entry sz type rid ts bs =
     \<lparr>le_size = sz + 29, le_data = log_record sz type rid ts (take (unat sz) bs), le_tag = EUROPA\<rparr>"

lemma new_entry_of:
  assumes "0 < sz" "sz \<le> 1000000000" "unat sz \<le> length bs"
  shows "entry_of (new_entry sz type rid ts bs) (type, rid, ts, take (unat sz) bs)"
    and "unat (le_size (new_entry sz type rid ts bs)) = 29 + unat sz"
proof -
  have sz: "unat sz \<le> 1000000000" "0 < unat sz"
    using assms by (simp_all add: word_le_nat_alt word_less_nat_alt)
  then show "unat (le_size (new_entry sz type rid ts bs)) = 29 + unat sz"
    by (simp add: new_entry_def unat_word_ariths)
  then show "entry_of (new_entry sz type rid ts bs) (type, rid, ts, take (unat sz) bs)"
    using sz assms(3) by (simp add: entry_of_def encode_field_def new_entry_def min_def)
qed

lemma log_inv_append:
  assumes "log_inv G" "wf_entry e" "unat (L_SIZE_BYTES G) + unat (le_size e) < 2 ^ 31"
  shows "log_inv (G\<lparr>gc_L := gc_L G @ [e], L_SIZE_BYTES := L_SIZE_BYTES G + le_size e\<rparr>)"
  using assms by (simp add: log_inv_def unat_word_ariths)

text \<open>Below 200 MB the record goes to the tail. At 200 MB entries are taken from the tail, the
  newest ones, until the list is within a limit between 175 and 183.75 MB, and no more of them
  than that needs.\<close>

lemma AddLogEntry_spec:
  fixes rid ts :: u64 and type :: u16
  assumes inv: "log_inv G" and pool: "pool_ample R"
    and data: "VALID_PAGE Data" "unat sz \<le> length (deref Data)" "0 < sz" "sz \<le> 1000000000"
  defines "e \<equiv> new_entry sz type rid ts (deref Data)"
  shows "\<exists>G' n. AddLogEntry R rand k G rid ts sz type Data = Inr G' \<and> log_inv G'
    \<and> gc_L G' = take n (gc_L G) @ [e] \<and> n \<le> length (gc_L G)
    \<and> (if log_bytes (gc_L G) < 200000000 then n = length (gc_L G)
       else n < length (gc_L G) \<and> log_bytes (take n (gc_L G)) \<le> keep_limit rand
         \<and> (Suc n = length (gc_L G) \<or> keep_limit rand < log_bytes (take (Suc n) (gc_L G))))"
proof -
  note e = new_entry_of [OF data(3,4,2), of type rid ts, folded e_def]
  have wf: "wf_entry e" using e(1) by (auto simp: wf_entry_def)
  have sz: "unat sz \<le> 1000000000" using data(4) by (simp add: word_le_nat_alt)
  have szn: "\<not> (- 38 < sz)" "sz \<noteq> 0" "\<not> sz + 29 < 7" "\<not> length (deref Data) < unat sz"
    using data(2,3) sz by (auto simp: word_less_nat_alt unat_word_ariths)
  have add: "AddLogEntry R rand k G rid ts sz type Data =
      (if L_SIZE_BYTES G <s 200000000
       then Inr (G\<lparr>gc_L := gc_L G @ [e], L_SIZE_BYTES := L_SIZE_BYTES G + le_size e\<rparr>)
       else andthen (evict_loop (175000000 + rand mod 8750000) G) (\<lambda>G'.
         Inr (G'\<lparr>gc_L := gc_L G' @ [e], L_SIZE_BYTES := L_SIZE_BYTES G' + le_size e\<rparr>)))"
    using pool data szn
    by (simp add: AddLogEntry_def Let_def pool_ample_def e_def new_entry_def)
  have cmp: "L_SIZE_BYTES G <s 200000000 \<longleftrightarrow> log_bytes (gc_L G) < 200000000"
    using sless_small [of "L_SIZE_BYTES G" 200000000] inv by (simp add: log_inv_def)
  have keep: "unat (175000000 + rand mod 8750000) = keep_limit rand"
    by (simp add: keep_limit_def unat_word_ariths unat_mod)
  have lim: "keep_limit rand < 183750000" by (simp add: keep_limit_def)
  show ?thesis
  proof (cases "log_bytes (gc_L G) < 200000000")
    case True
    then show ?thesis
      using add cmp log_inv_append [OF inv wf] inv e(2) sz
      by (intro exI [of _ "G\<lparr>gc_L := gc_L G @ [e], L_SIZE_BYTES := L_SIZE_BYTES G + le_size e\<rparr>"]
          exI [of _ "length (gc_L G)"]) (simp add: log_inv_def)
  next
    case False
    then have "gc_L G \<noteq> []" by auto
    then obtain G1 n where ev: "evict_loop (175000000 + rand mod 8750000) G = Inr G1"
      "n < length (gc_L G)" "gc_L G1 = take n (gc_L G)" "log_inv G1"
      "unat (L_SIZE_BYTES G1) \<le> keep_limit rand"
      "Suc n = length (gc_L G) \<or> keep_limit rand < log_bytes (take (Suc n) (gc_L G))"
      using evict_loop_spec [OF inv, of "175000000 + rand mod 8750000"] keep lim by auto
    let ?G' = "G1\<lparr>gc_L := gc_L G1 @ [e], L_SIZE_BYTES := L_SIZE_BYTES G1 + le_size e\<rparr>"
    have "log_inv ?G'"
      using ev(5) lim e(2) sz by (intro log_inv_append ev(4) wf) simp
    moreover have "log_bytes (take n (gc_L G)) \<le> keep_limit rand"
      using ev(3,4,5) by (simp add: log_inv_def)
    ultimately show ?thesis
      using add cmp False ev by (intro exI [of _ ?G'] exI [of _ n]) simp
  qed
qed

text \<open>What is not logged: no data, or a request the pool refuses.\<close>

lemma AddLogEntry_nothing:
  "\<not> VALID_PAGE Data \<or> sz = 0 \<or> ExAllocatePool2 R k 40 = 0
   \<Longrightarrow> AddLogEntry R rand k G rid ts sz type Data = Inr G"
  by (auto simp: AddLogEntry_def Let_def)

text \<open>Adding touches the list and its size only.\<close>

definition log_frame :: "GC \<Rightarrow> GC \<Rightarrow> bool" where
  "log_frame G G' \<longleftrightarrow> (\<exists>L b. G' = G\<lparr>gc_L := L, L_SIZE_BYTES := b\<rparr>)"

lemma log_frameI: "G' = G\<lparr>gc_L := L, L_SIZE_BYTES := b\<rparr> \<Longrightarrow> log_frame G G'"
  unfolding log_frame_def by blast

lemma log_frame_refl [simp]: "log_frame G G"
  by (rule log_frameI [where L = "gc_L G" and b = "L_SIZE_BYTES G"]) simp

lemma log_frame_update: "log_frame G G' \<Longrightarrow> log_frame G (G'\<lparr>gc_L := L, L_SIZE_BYTES := b\<rparr>)"
  unfolding log_frame_def by (elim exE) (rule exI [of _ L], rule exI [of _ b], simp)

lemma log_frame_trans [trans]: "log_frame G G' \<Longrightarrow> log_frame G' G'' \<Longrightarrow> log_frame G G''"
  using log_frame_update [of G G'] unfolding log_frame_def [of G' G''] by blast

lemma DeleteLogEntry_frame: "log_frame G (DeleteLogEntry (G\<lparr>gc_L := L\<rparr>) e)"
proof -
  let ?b = "L_SIZE_BYTES G - le_size e"
  show ?thesis
    by (rule log_frameI [where L = L and b = "if ?b <s 0 then 0 else ?b"]) (simp add: DeleteLogEntry_def Let_def)
qed

lemma evict_loop_frame: "evict_loop keep G = Inr G' \<Longrightarrow> log_frame G G'"
proof (induction keep G rule: evict_loop.induct)
  case (1 keep G)
  let ?G1 = "DeleteLogEntry (G\<lparr>gc_L := butlast (gc_L G)\<rparr>) (last (gc_L G))"
  have ne: "gc_L G \<noteq> []" using 1(2) by (auto simp: evict_loop.simps)
  then have unf: "evict_loop keep G =
      (if keep <s L_SIZE_BYTES ?G1 then evict_loop keep ?G1 else Inr ?G1)"
    by (subst evict_loop.simps) (simp add: Let_def)
  show ?case
  proof (cases "keep <s L_SIZE_BYTES ?G1")
    case True
    then have "evict_loop keep ?G1 = Inr G'" using 1(2) unf by simp
    from 1(1) [OF ne refl True this] show ?thesis
      using log_frame_trans DeleteLogEntry_frame by blast
  next
    case False
    then have "G' = ?G1" using 1(2) unf by simp
    then show ?thesis by (simp add: DeleteLogEntry_frame)
  qed
qed

lemma AddLogEntry_frame: "AddLogEntry R rand k G rid ts sz type Data = Inr G' \<Longrightarrow> log_frame G G'"
  by (auto simp: AddLogEntry_def Let_def andthen_Inr_iff split: if_splits
      intro: log_frame_update dest!: evict_loop_frame)

section \<open>What reading does\<close>

lemma read_loop_spec:
  assumes "log_inv G" "gc_L G \<noteq> []" "length out \<le> unat len"
  shows "\<exists>n G'. read_loop len out copied G =
      (if n = 0 \<and> out = [] then STATUS_INVALID_BUFFER_SIZE else STATUS_SUCCESS,
       out @ concat (map le_data (take n (gc_L G))), copied \<or> 0 < n, G')
    \<and> n \<le> length (gc_L G) \<and> gc_L G' = drop n (gc_L G) \<and> log_inv G'
    \<and> length out + log_bytes (take n (gc_L G)) \<le> unat len
    \<and> (n = 0 \<longleftrightarrow> unat len < length out + unat (le_size (hd (gc_L G))))
    \<and> (n < length (gc_L G) \<longrightarrow>
         unat (len - 12) \<le> length out + log_bytes (take n (gc_L G))
         \<or> unat len < length out + log_bytes (take (Suc n) (gc_L G)))
    \<and> gc_State G' = gc_State G \<and> gc_tag G' = gc_tag G"
  using assms
proof (induction "length (gc_L G)" arbitrary: G out copied)
  case (Suc m)
  obtain e es where L: "gc_L G = e # es" using Suc.prems(2) by (cases "gc_L G") auto
  have wf: "wf_entry e" using Suc.prems(1) L by (simp add: log_inv_def)
  have e: "le_tag e = EUROPA" "length (le_data e) = unat (le_size e)" "29 < unat (le_size e)"
    using wf_entry_tag [OF wf] wf_entry_size [OF wf] by auto
  define G1 where "G1 = DeleteLogEntry (G\<lparr>gc_L := es\<rparr>) e"
  have G1: "unat (L_SIZE_BYTES G1) = log_bytes es" "gc_L G1 = es"
    using Suc.prems(1) L DeleteLogEntry_bytes [of "G\<lparr>gc_L := es\<rparr>" e "log_bytes es"]
    by (simp_all add: G1_def log_inv_def)
  have same: "gc_State G1 = gc_State G" "gc_tag G1 = gc_tag G"
    by (simp_all add: G1_def DeleteLogEntry_def Let_def)
  have inv1: "log_inv G1" using Suc.prems(1) L G1 by (simp add: log_inv_def)
  show ?case
  proof (cases "unat len < length out + unat (le_size e)")
    case True
    then have "read_loop len out copied G =
        (if out = [] then STATUS_INVALID_BUFFER_SIZE else STATUS_SUCCESS, out, copied, G)"
      using L e by (subst read_loop.simps) simp
    then show ?thesis
      using True Suc.prems L by (intro exI [of _ "0::nat"] exI [of _ G]) simp
  next
    case False
    let ?out = "out @ le_data e"
    have ne: "le_data e \<noteq> []" using e by auto
    have fit: "length ?out \<le> unat len" using False e by simp
    have unf: "read_loop len out copied G =
        (if es \<noteq> [] \<and> length ?out < unat (len - 12) then read_loop len ?out True G1
         else (STATUS_SUCCESS, ?out, True, G1))"
      using L e False by (subst read_loop.simps) (simp add: Let_def G1_def)
    show ?thesis
    proof (cases "es \<noteq> [] \<and> length ?out < unat (len - 12)")
      case False
      then show ?thesis
        using unf L G1 inv1 same fit e by (intro exI [of _ "1::nat"] exI [of _ G1]) auto
    next
      case True
      then obtain n G' where ih: "read_loop len ?out True G1 =
          (STATUS_SUCCESS, ?out @ concat (map le_data (take n es)), True, G')"
        "n \<le> length es" "gc_L G' = drop n es" "log_inv G'"
        "length ?out + log_bytes (take n es) \<le> unat len"
        "n < length es \<longrightarrow> unat (len - 12) \<le> length ?out + log_bytes (take n es)
           \<or> unat len < length ?out + log_bytes (take (Suc n) es)"
        "gc_State G' = gc_State G" "gc_tag G' = gc_tag G"
        using Suc.hyps(1) [of G1 ?out True] Suc.hyps(2) L G1(2) inv1 fit e(3) same e(2)
        by (auto simp: fit ne)
      then show ?thesis
        using unf True L e \<open>\<not> unat len < length out + unat (le_size e)\<close>
        by (intro exI [of _ "Suc n"] exI [of _ G']) (auto simp: add.assoc)
    qed
  qed
qed simp

section \<open>The log as a queue\<close>

text \<open>The contract between the callbacks and the client of the driver: what is put is got, in order,
  by gets that take a batch from the front.\<close>

datatype 'e queue_op = Put 'e | Get

fun puts_of :: "'e queue_op list \<Rightarrow> 'e list" where
  "puts_of [] = []"
| "puts_of (Put e # ops) = e # puts_of ops"
| "puts_of (Get # ops) = puts_of ops"

locale fifo =
  fixes contents :: "'s \<Rightarrow> 'e list"
    and put :: "'e \<Rightarrow> 's \<Rightarrow> 's"
    and get :: "'s \<Rightarrow> 'e list \<times> 's"
    and ok :: "'s \<Rightarrow> bool"
    and room :: "'e \<Rightarrow> 's \<Rightarrow> bool"
    and small :: "'e \<Rightarrow> bool"
  assumes put_ok: "ok s \<Longrightarrow> room e s \<Longrightarrow> ok (put e s)"
    and put_contents: "ok s \<Longrightarrow> room e s \<Longrightarrow> contents (put e s) = contents s @ [e]"
    and get_ok: "ok s \<Longrightarrow> ok (snd (get s))"
    and get_contents: "ok s \<Longrightarrow> contents s = fst (get s) @ contents (snd (get s))"
    and get_progress: "ok s \<Longrightarrow> contents s \<noteq> [] \<Longrightarrow> small (hd (contents s)) \<Longrightarrow> fst (get s) \<noteq> []"
begin

text \<open>A run of puts and gets, with everything the gets have delivered; \<open>roomy\<close> says that every put
  of the run finds room.\<close>

fun run :: "'e queue_op list \<Rightarrow> 's \<Rightarrow> 'e list \<times> 's" where
  "run [] s = ([], s)"
| "run (Put e # ops) s = run ops (put e s)"
| "run (Get # ops) s = (case get s of (xs, s') \<Rightarrow> case run ops s' of (ys, t) \<Rightarrow> (xs @ ys, t))"

fun roomy :: "'e queue_op list \<Rightarrow> 's \<Rightarrow> bool" where
  "roomy [] s = True"
| "roomy (Put e # ops) s = (room e s \<and> roomy ops (put e s))"
| "roomy (Get # ops) s = roomy ops (snd (get s))"

lemma run_in_order:
  assumes "ok s" "roomy ops s"
  shows "fst (run ops s) @ contents (snd (run ops s)) = contents s @ puts_of ops \<and> ok (snd (run ops s))"
  using assms
proof (induction ops arbitrary: s)
  case (Cons a ops)
  show ?case
  proof (cases a)
    case (Put e)
    then show ?thesis using Cons put_ok put_contents by simp
  next
    case Get
    then show ?thesis
      using Cons.IH [of "snd (get s)"] Cons.prems get_ok [of s] get_contents [of s]
      by (auto split: prod.splits)
  qed
qed simp

lemma run_drains:
  assumes "ok s" "\<forall>e \<in> set (contents s). small e" "length (contents s) \<le> n"
  shows "contents (snd (run (replicate n Get) s)) = [] \<and> fst (run (replicate n Get) s) = contents s"
  using assms
proof (induction n arbitrary: s)
  case (Suc n)
  obtain xs s' where g: "get s = (xs, s')" by force
  have c: "contents s = xs @ contents s'" and ok': "ok s'"
    using get_contents [of s] get_ok [of s] Suc.prems(1) g by auto
  have "length (contents s') \<le> n"
  proof (cases "contents s = []")
    case True
    then show ?thesis using c by simp
  next
    case False
    then have "xs \<noteq> []" using get_progress [of s] Suc.prems(1,2) g by simp
    then show ?thesis using Suc.prems(3) c by (cases xs) auto
  qed
  then have "contents (snd (run (replicate n Get) s')) = [] \<and> fst (run (replicate n Get) s') = contents s'"
    using Suc.IH [OF ok'] Suc.prems(2) c by simp
  then show ?case
    using c g by (simp add: case_prod_beta)
qed simp

end

text \<open>The driver's log: the fields of its records, \<open>AddLogEntry\<close> to put one, and a read of \<open>len\<close> bytes,
  decoded, to get some.\<close>

definition log_contents :: "GC \<Rightarrow> log_field list" where
  "log_contents G = decode_log (concat (map le_data (gc_L G)))"

definition log_put :: "rtl \<Rightarrow> u32 \<Rightarrow> u64 \<Rightarrow> u64 \<Rightarrow> log_field \<Rightarrow> GC \<Rightarrow> GC" where
  "log_put R rand k a f G = (case f of (type, rid, ts, bs) \<Rightarrow>
     case AddLogEntry R rand k G rid ts (of_nat (length bs)) type (Ptr a bs) of
       Inr G' \<Rightarrow> G' | Inl _ \<Rightarrow> G)"

definition log_get :: "u32 \<Rightarrow> GC \<Rightarrow> log_field list \<times> GC" where
  "log_get len G = (case ReadLogEntry (Ptr 1 G) len True of (r, q) \<Rightarrow>
     (case rr_buffer r of None \<Rightarrow> [] | Some b \<Rightarrow> decode_log b, deref q))"

definition log_ok :: "GC \<Rightarrow> bool" where
  "log_ok G \<longleftrightarrow> log_inv G \<and> gc_tag G = GANYMEDE \<and> gc_State G = INITIALIZED"

definition log_room :: "rtl \<Rightarrow> u64 \<Rightarrow> log_field \<Rightarrow> GC \<Rightarrow> bool" where
  "log_room R a f G \<longleftrightarrow> pool_ample R \<and> VALID_PAGE (Ptr a f) \<and> log_bytes (gc_L G) < 200000000
     \<and> 0 < length (snd (snd (snd f))) \<and> length (snd (snd (snd f))) \<le> 1000000000"

definition log_small :: "u32 \<Rightarrow> log_field \<Rightarrow> bool" where
  "log_small len f \<longleftrightarrow> 29 + length (snd (snd (snd f))) \<le> unat len"

lemma entries_fields:
  assumes "\<forall>e \<in> set es. wf_entry e"
  obtains fs where "list_all2 entry_of es fs" "map le_data es = map encode_field fs"
    "\<forall>f \<in> set fs. length (snd (snd (snd f))) < 2 ^ 32"
proof -
  have "\<forall>e \<in> set es. \<exists>f. entry_of e f" using assms by (simp add: wf_entry_def)
  then obtain g where g: "\<forall>e \<in> set es. entry_of e (g e)" by (metis bchoice)
  have "list_all2 entry_of es (map g es)"
    using g by (simp add: list_all2_conv_all_nth)
  moreover have "map le_data es = map encode_field (map g es)"
    using g by (simp add: entry_of_def)
  moreover have "\<forall>f \<in> set (map g es). length (snd (snd (snd f))) < 2 ^ 32"
    using g by (auto simp: entry_of_def intro: le_less_trans)
  ultimately show thesis by (rule that)
qed

lemma log_contents_fields:
  assumes "list_all2 entry_of es fs" "map le_data es = map encode_field fs"
    "\<forall>f \<in> set fs. length (snd (snd (snd f))) < 2 ^ 32"
  shows "decode_log (concat (map le_data es) @ rest) = fs @ decode_log rest"
  using decode_encode [OF assms(3), of rest] assms(2) by simp

lemma decode_log_Nil [simp]: "decode_log [] = []"
  by (rule decode_log_other) (simp add: ascii_def)

lemma decode_entries_app:
  assumes "\<forall>e \<in> set es. wf_entry e"
  shows "decode_log (concat (map le_data es) @ rest) = decode_log (concat (map le_data es)) @ decode_log rest"
proof -
  obtain fs where fs: "list_all2 entry_of es fs" "map le_data es = map encode_field fs"
    "\<forall>f \<in> set fs. length (snd (snd (snd f))) < 2 ^ 32"
    using entries_fields [OF assms] by blast
  show ?thesis using log_contents_fields [OF fs, of rest] log_contents_fields [OF fs, of "[]"] by simp
qed

lemma decode_tail:
  "decode_log (if b then ascii POSTAMBLE @ xs else replicate n 0) = []"
proof -
  have "take 7 (replicate n (0 :: u8)) \<noteq> ascii MM_HEADER"
    by (cases n) (auto simp: ascii_def)
  moreover have "take 7 (ascii POSTAMBLE @ xs) \<noteq> ascii MM_HEADER"
    by (simp add: ascii_def)
  ultimately show ?thesis by (simp add: decode_log_other)
qed

text \<open>The reader hands out the entries at the front, and its buffer decodes to their fields.\<close>

lemma ReadLogEntry_spec:
  assumes "log_ok G" "gc_L G \<noteq> []"
  shows "\<exists>n G' b. ReadLogEntry (Ptr a G) len True =
      (\<lparr>rr_status = if n = 0 then STATUS_INVALID_BUFFER_SIZE else STATUS_SUCCESS,
        rr_bytes = log_bytes (take n (gc_L G)), rr_buffer = Some b\<rparr>, Ptr a G')
    \<and> n \<le> length (gc_L G) \<and> gc_L G' = drop n (gc_L G) \<and> log_ok G' \<and> length b = unat len
    \<and> rr_bytes (fst (ReadLogEntry (Ptr a G) len True)) \<le> unat len
    \<and> take (log_bytes (take n (gc_L G))) b = concat (map le_data (take n (gc_L G)))
    \<and> decode_log b = decode_log (concat (map le_data (take n (gc_L G))))
    \<and> (n = 0 \<longleftrightarrow> unat len < unat (le_size (hd (gc_L G))))
    \<and> (n < length (gc_L G) \<longrightarrow> unat (len - 12) \<le> log_bytes (take n (gc_L G))
         \<or> unat len < log_bytes (take (Suc n) (gc_L G)))"
proof -
  obtain n G' where r: "read_loop len [] False G =
      (if n = 0 then STATUS_INVALID_BUFFER_SIZE else STATUS_SUCCESS,
       concat (map le_data (take n (gc_L G))), 0 < n, G')"
    "n \<le> length (gc_L G)" "gc_L G' = drop n (gc_L G)" "log_inv G'"
    "log_bytes (take n (gc_L G)) \<le> unat len"
    "n = 0 \<longleftrightarrow> unat len < unat (le_size (hd (gc_L G)))"
    "n < length (gc_L G) \<longrightarrow> unat (len - 12) \<le> log_bytes (take n (gc_L G))
         \<or> unat len < log_bytes (take (Suc n) (gc_L G))"
    "gc_State G' = gc_State G" "gc_tag G' = gc_tag G"
    using read_loop_spec [of G "[]" len False] assms by (auto simp: log_ok_def)
  let ?out = "concat (map le_data (take n (gc_L G)))"
  have wf: "\<forall>e \<in> set (take n (gc_L G)). wf_entry e"
    using assms(1) by (auto simp: log_ok_def log_inv_def dest: in_set_takeD)
  have "length (concat (map le_data es)) = log_bytes es" if "\<forall>e \<in> set es. wf_entry e" for es
    using that by (induction es) (simp_all add: wf_entry_size)
  from this [OF wf] have len_out: "length ?out = log_bytes (take n (gc_L G))" .
  define pad where "pad = unat len - length ?out"
  define tail where "tail = (if 0 < n \<and> 7 < pad then ascii POSTAMBLE @ replicate (pad - 7) 0
     else replicate pad 0)"
  have len_tail: "length tail = pad" by (auto simp: tail_def)
  have dec: "decode_log (?out @ tail) = decode_log ?out"
    using decode_entries_app [OF wf, of tail] decode_tail
    by (simp add: tail_def)
  have read: "ReadLogEntry (Ptr a G) len True =
      (\<lparr>rr_status = if n = 0 then STATUS_INVALID_BUFFER_SIZE else STATUS_SUCCESS,
        rr_bytes = log_bytes (take n (gc_L G)), rr_buffer = Some (?out @ tail)\<rparr>, Ptr a G')"
    using assms r(1) len_out by (simp add: ReadLogEntry_def log_ok_def Let_def tail_def pad_def)
  have ok': "log_ok G'" using r(4,8,9) assms(1) by (simp add: log_ok_def)
  have tk: "take (log_bytes (take n (gc_L G))) (?out @ tail) = ?out"
    "length (?out @ tail) = unat len"
    using len_out len_tail r(5) by (simp_all add: pad_def)
  show ?thesis
    unfolding read using r(2,3,5,6,7) ok' tk dec
    by (intro exI [of _ n] exI [of _ G'] exI [of _ "?out @ tail"]) simp
qed

lemma log_get_spec:
  assumes "log_ok G"
  shows "\<exists>n. gc_L (snd (log_get len G)) = drop n (gc_L G) \<and> log_ok (snd (log_get len G))
    \<and> fst (log_get len G) = decode_log (concat (map le_data (take n (gc_L G))))
    \<and> (gc_L G \<noteq> [] \<longrightarrow> (n = 0 \<longleftrightarrow> unat len < unat (le_size (hd (gc_L G)))))"
proof (cases "gc_L G = []")
  case True
  then show ?thesis using assms by (simp add: log_get_def ReadLogEntry_def log_ok_def)
next
  case False
  then show ?thesis
    using ReadLogEntry_spec [OF assms False, of 1 len] by (auto simp: log_get_def)
qed

lemma log_put_spec:
  assumes "log_ok G" "log_room R a f G"
  shows "\<exists>e. gc_L (log_put R rand k a f G) = gc_L G @ [e] \<and> entry_of e f \<and> log_ok (log_put R rand k a f G)"
proof -
  obtain type rid ts bs where f: "f = (type, rid, ts, bs)" by (cases f)
  let ?sz = "of_nat (length bs) :: u32"
  have n: "0 < length bs" "length bs \<le> 1000000000" using assms(2) f by (simp_all add: log_room_def)
  then have sz: "unat ?sz = length bs" by (simp add: unat_of_nat take_bit_nat_eq_self)
  have szb: "0 < ?sz" "?sz \<le> 1000000000"
    using sz n by (simp_all add: word_less_nat_alt word_le_nat_alt)
  have vp: "VALID_PAGE (Ptr a bs)" using assms(2) by (simp add: log_room_def VALID_PAGE_def)
  obtain G' where G': "AddLogEntry R rand k G rid ts ?sz type (Ptr a bs) = Inr G'" "log_inv G'"
    "gc_L G' = gc_L G @ [new_entry ?sz type rid ts bs]"
    using AddLogEntry_spec [of G R "Ptr a bs" ?sz rand k rid ts type] assms sz szb vp
    by (auto simp: log_ok_def log_room_def)
  have "gc_tag G' = gc_tag G \<and> gc_State G' = gc_State G"
    using AddLogEntry_frame [OF G'(1)] by (auto simp: log_frame_def)
  then show ?thesis
    using G' new_entry_of [OF szb, of bs type rid ts] sz f assms(1)
    by (auto simp: log_put_def log_ok_def)
qed

interpretation log_queue:
  fifo log_contents "log_put R rand k a" "log_get len" log_ok "log_room R a" "log_small len"
  for R rand k a len
proof unfold_locales
  fix G f assume ok: "log_ok G" and room: "log_room R a f G"
  show "log_ok (log_put R rand k a f G)" using log_put_spec [OF ok room] by blast
  obtain e where e: "gc_L (log_put R rand k a f G) = gc_L G @ [e]" "entry_of e f"
    using log_put_spec [OF ok room] by blast
  have "decode_log (le_data e) = [f]"
    using e(2) decode_encode [of "[f]" "[]"] by (simp add: entry_of_def)
  then show "log_contents (log_put R rand k a f G) = log_contents G @ [f]"
    using decode_entries_app [of "gc_L G" "le_data e"] ok e(1)
    by (simp add: log_contents_def log_ok_def log_inv_def)
next
  fix G assume ok: "log_ok G"
  then show "log_ok (snd (log_get len G))" using log_get_spec by blast
  obtain n where n: "gc_L (snd (log_get len G)) = drop n (gc_L G)"
    "fst (log_get len G) = decode_log (concat (map le_data (take n (gc_L G))))"
    "gc_L G \<noteq> [] \<Longrightarrow> n = 0 \<longleftrightarrow> unat len < unat (le_size (hd (gc_L G)))"
    using log_get_spec [OF ok] by blast
  have "\<forall>e \<in> set (take n (gc_L G)). wf_entry e"
    using ok by (auto simp: log_ok_def log_inv_def dest: in_set_takeD)
  from decode_entries_app [OF this, of "concat (map le_data (drop n (gc_L G)))"]
  show eq: "log_contents G = fst (log_get len G) @ log_contents (snd (log_get len G))"
    using n by (simp add: log_contents_def flip: concat_append map_append)
  assume ne: "log_contents G \<noteq> []" and small: "log_small len (hd (log_contents G))"
  have L: "gc_L G \<noteq> []" using ne by (auto simp: log_contents_def)
  then obtain e es where e: "gc_L G = e # es" by (cases "gc_L G") auto
  then obtain f where f: "entry_of e f" using ok by (auto simp: log_ok_def log_inv_def wf_entry_def)
  have "decode_log (le_data e @ rest) = f # decode_log rest" for rest
    using f decode_encode [of "[f]" rest] by (simp add: entry_of_def)
  then have head: "log_contents G = f # decode_log (concat (map le_data es))"
    "n \<noteq> 0 \<Longrightarrow> fst (log_get len G) \<noteq> []"
    using e n(2) by (cases n; simp add: log_contents_def)+
  have "unat (le_size e) = 29 + length (snd (snd (snd f)))"
    using f by (auto simp: entry_of_def encode_field_def split: prod.splits)
  then show "fst (log_get len G) \<noteq> []"
    using n(3) [OF L] head small e by (auto simp: log_small_def)
qed

end
