(* ===== verification/MM_Log_Calls.thy ===== *)
theory MM_Log_Calls
  imports MM_Log
begin

text \<open>
  How the callbacks log an event: a run of guarded calls of \<open>AddLogEntry\<close> of
  \<open>src/MoonMon/Logging.c\<close>, all with the id and the timestamp of the event. A call is the value of the
  arguments that differ, or \<open>None\<close> where the statement's guard is false; a run is a list of calls,
  and \<open>log_all\<close> performs it.
\<close>

section \<open>Statements that log\<close>

type_synonym log_call = "(u32 \<times> u16 \<times> u8 list ptr) option"

text \<open>The address of the locals of a callback: they are on the kernel stack.\<close>

definition stack :: u64 where "stack = 0xFFFFD00000000000"

abbreviation local :: "'a \<Rightarrow> 'a ptr" where "local v \<equiv> Ptr stack v"

definition log_when :: "bool \<Rightarrow> log_call \<Rightarrow> log_call" where
  "log_when b c = (if b then c else None)"

text \<open>The bytes of an integer that a local or a structure in kernel memory holds.\<close>

definition log_u8 :: "u16 \<Rightarrow> u8 \<Rightarrow> log_call" where
  "log_u8 type v = Some (1, type, local (le_bytes 1 (unat v)))"

definition log_u16 :: "u16 \<Rightarrow> u16 \<Rightarrow> log_call" where
  "log_u16 type v = Some (2, type, local (le_bytes 2 (unat v)))"

definition log_u32 :: "u16 \<Rightarrow> u32 \<Rightarrow> log_call" where
  "log_u32 type v = Some (4, type, local (le_bytes 4 (unat v)))"

definition log_u64 :: "u16 \<Rightarrow> u64 \<Rightarrow> log_call" where
  "log_u64 type v = Some (8, type, local (le_bytes 8 (unat v)))"

text \<open>The bytes of a counted string.\<close>

definition log_str :: "u16 \<Rightarrow> UNICODE_STRING ptr \<Rightarrow> log_call" where
  "log_str type s = Some (ucast (Length (deref s)), type, Buffer (deref s))"

text \<open>\<open>rnd\<close> gives the value of \<open>MM_Genrand\<close> in the call whose allocations have the keys \<open>k\<close> and
  \<open>k + 1\<close>.\<close>

fun log_all :: "rtl \<Rightarrow> (u64 \<Rightarrow> u32) \<Rightarrow> u64 \<Rightarrow> u64 \<Rightarrow> u64 \<Rightarrow> log_call list \<Rightarrow> GC \<Rightarrow> GC res" where
  "log_all R rnd k rid ts [] G = Inr G"
| "log_all R rnd k rid ts (None # cs) G = log_all R rnd (k + 2) rid ts cs G"
| "log_all R rnd k rid ts (Some (sz, type, Data) # cs) G =
     andthen (AddLogEntry R (rnd k) k G rid ts sz type Data) (log_all R rnd (k + 2) rid ts cs)"

section \<open>What a run of calls adds\<close>

text \<open>The records of a run: a call with no data adds none.\<close>

fun logged :: "log_call list \<Rightarrow> (u16 \<times> u8 list) list" where
  "logged [] = []"
| "logged (None # cs) = logged cs"
| "logged (Some (sz, type, Data) # cs) =
     (if VALID_PAGE Data \<and> sz \<noteq> 0 then [(type, take (unat sz) (deref Data))] else []) @ logged cs"

definition fields_of :: "u64 \<Rightarrow> u64 \<Rightarrow> log_call list \<Rightarrow> log_field list" where
  "fields_of rid ts cs = map (\<lambda>(type, bs). (type, rid, ts, bs)) (logged cs)"

text \<open>A call whose data is as long as its size says. The sizes of the callbacks are below 64 KB,
  or those of a registry value.\<close>

definition call_ok :: "log_call \<Rightarrow> bool" where
  "call_ok c = (case c of None \<Rightarrow> True | Some (sz, type, Data) \<Rightarrow>
     VALID_PAGE Data \<longrightarrow> unat sz \<le> length (deref Data) \<and> sz \<le> 1000000000)"

definition calls_bytes :: "log_call list \<Rightarrow> nat" where
  "calls_bytes cs = sum_list (map (\<lambda>(type, bs). 29 + length bs) (logged cs))"

lemma logged_append [simp]: "logged (cs @ ds) = logged cs @ logged ds"
  by (induction cs rule: logged.induct) auto

lemma fields_of_append [simp]: "fields_of rid ts (cs @ ds) = fields_of rid ts cs @ fields_of rid ts ds"
  by (simp add: fields_of_def)

lemma calls_bytes_append [simp]: "calls_bytes (cs @ ds) = calls_bytes cs + calls_bytes ds"
  by (simp add: calls_bytes_def)

lemma VALID_PAGE_local [simp]: "VALID_PAGE (local v)"
  by (simp add: VALID_PAGE_def stack_def)

lemma logged_Nil [simp]:
  "calls_bytes [] = 0" "fields_of rid ts [] = []"
  by (simp_all add: calls_bytes_def fields_of_def)

lemma call_ok_simps [simp]:
  "call_ok None" "call_ok (log_u8 ty a)" "call_ok (log_u16 ty b)" "call_ok (log_u32 ty c)"
  "call_ok (log_u64 ty d)"
  by (simp_all add: call_ok_def log_u8_def log_u16_def log_u32_def log_u64_def)

lemma call_ok_when [mm_intros]: "(b \<Longrightarrow> call_ok c) \<Longrightarrow> call_ok (log_when b c)"
  by (simp add: log_when_def)

lemma unat_ucast_16_32: "unat (ucast (w :: u16) :: u32) = unat w"
  using unat_bounds(2) [of w] by (simp add: unsigned_ucast_eq take_bit_nat_eq_self)

text \<open>A counted string is logged within its buffer when it is well formed.\<close>

lemma call_ok_str [mm_intros]: "wf_ustr (deref s) \<Longrightarrow> call_ok (log_str ty s)"
  using unat_bounds(2) [of "Length (deref s)"]
  by (auto simp: call_ok_def log_str_def wf_ustr_def word_le_nat_alt unat_ucast_16_32 elim!: VALID_PAGE_E)

lemma log_all_frame: "log_all R rnd k rid ts cs G = Inr G' \<Longrightarrow> log_frame G G'"
proof (induction R rnd k rid ts cs G rule: log_all.induct)
  case (3 R rnd k rid ts sz type Data cs G)
  then obtain G1 where "AddLogEntry R (rnd k) k G rid ts sz type Data = Inr G1"
    "log_all R rnd (k + 2) rid ts cs G1 = Inr G'"
    by (auto simp: andthen_Inr_iff)
  then show ?case using 3 AddLogEntry_frame log_frame_trans by blast
qed simp_all

text \<open>As long as the log stays below 200 MB, the run ends without a fault and the records of its
  calls come at the end of the log, in the order of the statements.\<close>

lemma log_one:
  assumes "log_inv G" "pool_ample R" "call_ok (Some (sz, type, Data))" "log_bytes (gc_L G) < 200000000"
  shows "\<exists>G'. AddLogEntry R rand k G rid ts sz type Data = Inr G' \<and> log_inv G'
    \<and> log_contents G' = log_contents G @ fields_of rid ts [Some (sz, type, Data)]
    \<and> log_bytes (gc_L G') = log_bytes (gc_L G) + calls_bytes [Some (sz, type, Data)]"
proof (cases "VALID_PAGE Data \<and> sz \<noteq> 0")
  case False
  then show ?thesis
    using assms(1) AddLogEntry_nothing [of Data sz R k]
    by (auto simp: fields_of_def calls_bytes_def)
next
  case True
  let ?e = "new_entry sz type rid ts (deref Data)"
  have sz: "unat sz \<le> length (deref Data)" "0 < sz" "sz \<le> 1000000000"
    using assms(3) True by (simp_all add: call_ok_def word_gt_0)
  obtain G' n where G': "AddLogEntry R rand k G rid ts sz type Data = Inr G'" "log_inv G'"
    "gc_L G' = take n (gc_L G) @ [?e]" "n = length (gc_L G)"
    using AddLogEntry_spec [OF assms(1,2), of Data sz rand k rid ts type] True sz assms(4) by auto
  note e = new_entry_of [OF sz(2,3,1), of type rid ts]
  have "decode_log (le_data ?e) = [(type, rid, ts, take (unat sz) (deref Data))]"
    using e(1) decode_encode [of "[(type, rid, ts, take (unat sz) (deref Data))]" "[]"] sz(3)
    by (simp add: entry_of_def word_le_nat_alt)
  then have "log_contents G' = log_contents G @ fields_of rid ts [Some (sz, type, Data)]"
    using decode_entries_app [of "gc_L G" "le_data ?e"] assms(1) G'(3,4) True
    by (simp add: log_contents_def log_inv_def fields_of_def)
  moreover have "log_bytes (gc_L G') = log_bytes (gc_L G) + calls_bytes [Some (sz, type, Data)]"
    using G'(3,4) e(2) True sz(1) by (simp add: calls_bytes_def min_def)
  ultimately show ?thesis using G'(1,2) by blast
qed

lemma log_all_spec:
  assumes "log_inv G" "pool_ample R" "list_all call_ok cs"
    "log_bytes (gc_L G) + calls_bytes cs < 200000000"
  shows "\<exists>G'. log_all R rnd k rid ts cs G = Inr G' \<and> log_inv G' \<and> log_frame G G'
    \<and> log_contents G' = log_contents G @ fields_of rid ts cs
    \<and> log_bytes (gc_L G') = log_bytes (gc_L G) + calls_bytes cs"
  using assms(1,3,4)
proof (induction cs arbitrary: k G)
  case (Cons c cs)
  show ?case
  proof (cases c)
    case None
    then show ?thesis
      using Cons.IH [of G "k + 2"] Cons.prems by (simp add: fields_of_def calls_bytes_def)
  next
    case (Some d)
    obtain sz type Data where d: "d = (sz, type, Data)" by (cases d)
    have b: "calls_bytes (c # cs) = calls_bytes [c] + calls_bytes cs"
      "fields_of rid ts (c # cs) = fields_of rid ts [c] @ fields_of rid ts cs"
      using calls_bytes_append [of "[c]" cs] fields_of_append [of rid ts "[c]" cs] by simp_all
    obtain G1 where G1: "AddLogEntry R (rnd k) k G rid ts sz type Data = Inr G1" "log_inv G1"
      "log_contents G1 = log_contents G @ fields_of rid ts [c]"
      "log_bytes (gc_L G1) = log_bytes (gc_L G) + calls_bytes [c]"
      using log_one [of G R sz type Data "rnd k" k rid ts] Cons.prems assms(2) b(1) Some d by auto
    obtain G' where "log_all R rnd (k + 2) rid ts cs G1 = Inr G'" "log_inv G'" "log_frame G1 G'"
      "log_contents G' = log_contents G1 @ fields_of rid ts cs"
      "log_bytes (gc_L G') = log_bytes (gc_L G1) + calls_bytes cs"
      using Cons.IH [of G1 "k + 2"] Cons.prems G1 b(1) by auto
    then show ?thesis
      using G1 b Some d log_frame_trans [OF AddLogEntry_frame [OF G1(1)]] by auto
  qed
qed (simp_all add: fields_of_def calls_bytes_def)

end
