(* ===== verification/MM_Process_Cache.thy ===== *)
theory MM_Process_Cache
  imports MM_Log_Calls
begin

text \<open>
  The process cache of \<open>src/MoonMon/Process.c\<close> and the user information of \<open>src/MoonMon/Utils.c\<close>: filling a
  \<open>PROC_INFO\<close>, the table \<open>NEW_PROCS\<close> with its operations, and the logging of a cached process.
  Handles are 64-bit words, \<open>NULL\<close> is 0. What an operation returns to the pool is the list of the
  addresses freed, in order.
\<close>

section \<open>Filling the process information\<close>

definition zero_pi :: PROC_INFO where
  "zero_pi = \<lparr>ImageFileName = Null, ParentImageFileName = Null, CommandLine = Null,
     ParentCommandLine = Null, WindowTitle = Null, CWD = Null, pi_UI = Null, pi_tag = ''''\<rparr>"

text \<open>What reading the process environment block gives: no block, an address that raises, or the
  four strings of the process parameters.\<close>

record peb_params =
  pp_ImageFileName :: "UNICODE_STRING ptr"
  pp_CommandLine :: "UNICODE_STRING ptr"
  pp_WindowTitle :: "UNICODE_STRING ptr"
  pp_CWD :: "UNICODE_STRING ptr"

datatype peb_view = NoPeb | BadPeb | Peb peb_params

text \<open>The \<open>PS_CREATE_NOTIFY_INFO\<close> of a creation; \<open>CLIENT_ID\<close> is 16 bytes.\<close>

record create_info =
  ci_Flags :: u32
  ci_ParentProcessId :: u64
  ci_CreatingThreadId :: "u8 list"
  ci_ImageFileName :: "UNICODE_STRING ptr"
  ci_CommandLine :: "UNICODE_STRING ptr"
  ci_CreationStatus :: NTSTATUS

definition processInfoInit ::
  "rtl \<Rightarrow> peb_view \<Rightarrow> u64 \<Rightarrow> PROC_INFO \<Rightarrow> create_info ptr \<Rightarrow> bool \<Rightarrow> bool \<times> PROC_INFO" where
  "processInfoInit R peb p PI pInfo parent =
     (if p = 0 then (False, PI) else
      let copy = AllocateAndCopyUnicodeString R;
          PI = zero_pi;
          PI = (if VALID_PAGE pInfo
                then PI\<lparr>ImageFileName := copy (ci_ImageFileName (deref pInfo)) (ImageFileName PI),
                        CommandLine := copy (ci_CommandLine (deref pInfo)) (CommandLine PI)\<rparr>
                else PI) in
      case peb of
        NoPeb \<Rightarrow> (True, PI)
      | BadPeb \<Rightarrow> (False, PI)
      | Peb pp \<Rightarrow>
        if \<not> parent then
          let PI = (if pInfo = Null
                    then PI\<lparr>ImageFileName := copy (pp_ImageFileName pp) (ImageFileName PI),
                            CommandLine := copy (pp_CommandLine pp) (CommandLine PI)\<rparr>
                    else PI) in
          (True, PI\<lparr>WindowTitle := copy (pp_WindowTitle pp) (WindowTitle PI),
                    CWD := copy (pp_CWD pp) (CWD PI)\<rparr>)
        else
          (True, PI\<lparr>ParentImageFileName := copy (pp_ImageFileName pp) (ParentImageFileName PI),
                    ParentCommandLine := copy (pp_CommandLine pp) (ParentCommandLine PI),
                    WindowTitle := copy (pp_WindowTitle pp) (WindowTitle PI),
                    CWD := copy (pp_CWD pp) (CWD PI)\<rparr>))"

section \<open>Releasing the process information\<close>

definition destroySidInfo :: "USER_INFO ptr \<Rightarrow> (USER_INFO ptr \<times> u64 list) res" where
  "destroySidInfo UI =
     (case UI of Null \<Rightarrow> Inr (Null, [])
      | Ptr a u \<Rightarrow>
        case sid_data u of Null \<Rightarrow> Inl NullDeref
        | Ptr s _ \<Rightarrow> Inr (Ptr a (u\<lparr>sid_data_length := 0\<rparr>), [s]))"

definition processInfoDelete :: "PROC_INFO ptr \<Rightarrow> (PROC_INFO ptr \<times> u64 list) res" where
  "processInfoDelete PI =
     (case PI of Null \<Rightarrow> Inr (Null, [])
      | Ptr a v \<Rightarrow>
        let (i, f1) = DeallocateAndDestroyUnicodeString (ImageFileName v);
            (pi, f2) = DeallocateAndDestroyUnicodeString (ParentImageFileName v);
            (c, f3) = DeallocateAndDestroyUnicodeString (CommandLine v);
            (pc, f4) = DeallocateAndDestroyUnicodeString (ParentCommandLine v);
            (w, f5) = DeallocateAndDestroyUnicodeString (WindowTitle v);
            (d, f6) = DeallocateAndDestroyUnicodeString (CWD v) in
        andthen (if MM_TYPE_CHECK ui_tag (pi_UI v) MNEME then destroySidInfo (pi_UI v)
                 else Inr (pi_UI v, [])) (\<lambda>(ui, f7).
          Inr (Ptr a (v\<lparr>pi_tag := '''', ImageFileName := i, ParentImageFileName := pi,
                        CommandLine := c, ParentCommandLine := pc, WindowTitle := w, CWD := d,
                        pi_UI := ui\<rparr>),
               f1 @ f2 @ f3 @ f4 @ f5 @ f6 @ f7)))"

section \<open>The table\<close>

text \<open>The slot a search from the front stops at.\<close>

fun first_slot :: "(PCACHE \<Rightarrow> bool) \<Rightarrow> PCACHE list \<Rightarrow> nat option" where
  "first_slot P [] = None"
| "first_slot P (s # ss) = (if P s then Some 0 else map_option Suc (first_slot P ss))"

definition set_slot :: "nat \<Rightarrow> PCACHE \<Rightarrow> GC \<Rightarrow> GC" where
  "set_slot i s G = G\<lparr>NEW_PROCS := (NEW_PROCS G)[i := s]\<rparr>"

text \<open>\<open>AddNewProcess\<close> has two parts. Under the lock it looks for the handle in any slot and, on a miss,
  advances the index and picks its slot. The \<open>continue\<close> for a slot in use jumps to the loop's
  condition, which is false, so that slot is taken all the same, with its tag left alone.\<close>

definition anp_pick :: "GC \<Rightarrow> u64 \<Rightarrow> (GC \<times> nat option) res" where
  "anp_pick G p =
     (if first_slot (\<lambda>s. pc_p s = p) (NEW_PROCS G) \<noteq> None then Inr (G, None) else
      let idx = (if NEW_PROCS_MAX \<le> NEW_PROCS_INDEX G then 0 else NEW_PROCS_INDEX G + 1);
          G = G\<lparr>NEW_PROCS_INDEX := idx\<rparr> in
      andthen (index (NEW_PROCS G) (unat idx)) (\<lambda>PC.
        if pc_InUse PC then Inr (G, Some (unat idx))
        else Inr (set_slot (unat idx) (PC\<lparr>pc_tag := ''''\<rparr>) G, Some (unat idx))))"

text \<open>The second part runs after the lock is released: it destroys what the slot held, copies the
  structure (its strings by reference) and the user information, and publishes the slot.\<close>

definition anp_fill :: "rtl \<Rightarrow> GC \<Rightarrow> nat \<Rightarrow> u64 \<Rightarrow> PROC_INFO \<Rightarrow> (GC \<times> u64 list) res" where
  "anp_fill R G i p PI =
     andthen (index (NEW_PROCS G) i) (\<lambda>PC.
     andthen (if pc_PI PC = Null then Inr (Null, []) else processInfoDelete (pc_PI PC)) (\<lambda>(_, freed).
       let a = ExAllocatePool2 R p 64 in
       if a = 0 then Inr (set_slot i (PC\<lparr>pc_PI := Null\<rparr>) G, freed)
       else if MM_TYPE_CHECK ui_tag (pi_UI PI) MNEME then
         (let u = ExAllocatePool2 R (p + 1) 40 in
          if u = 0 then Inr (set_slot i (PC\<lparr>pc_PI := Ptr a (PI\<lparr>pi_UI := Null\<rparr>)\<rparr>) G, freed)
          else Inr (set_slot i (PC\<lparr>pc_PI := Ptr a (PI\<lparr>pi_UI := Ptr u (deref (pi_UI PI))\<rparr>),
                                 pc_p := p, pc_New := True, pc_InUse := False, pc_tag := CHARON\<rparr>) G, freed))
       else Inr (set_slot i (PC\<lparr>pc_PI := Ptr a PI, pc_p := p, pc_New := True, pc_InUse := False,
                                pc_tag := CHARON\<rparr>) G, freed)))"

definition AddNewProcess :: "rtl \<Rightarrow> GC \<Rightarrow> u64 \<Rightarrow> PROC_INFO ptr \<Rightarrow> (GC \<times> u64 list) res" where
  "AddNewProcess R globals p PI =
     (if \<not> MM_TYPE_CHECK pi_tag PI PHOEBE then Inr (globals, []) else
      andthen (anp_pick globals p) (\<lambda>(G, pick).
        case pick of None \<Rightarrow> Inr (G, [])
        | Some i \<Rightarrow> anp_fill R G i p (deref PI)))"

definition PurgeCachedProcess :: "GC \<Rightarrow> u64 \<Rightarrow> (GC \<times> u64 list) res" where
  "PurgeCachedProcess globals p =
     (case first_slot (\<lambda>s. pc_tag s = CHARON \<and> pc_p s = p \<and> \<not> pc_InUse s) (NEW_PROCS globals) of
        None \<Rightarrow> Inr (globals, [])
      | Some i \<Rightarrow>
        let PC = NEW_PROCS globals ! i in
        andthen (if pc_PI PC = Null then Inr []
                 else andthen (processInfoDelete (pc_PI PC)) (\<lambda>(_, fs). Inr (fs @ [addr (pc_PI PC)])))
          (\<lambda>freed. Inr (set_slot i (PC\<lparr>pc_New := False, pc_PI := Null, pc_p := 0, pc_tag := ''''\<rparr>) globals,
                        freed)))"

definition RemoveNewProcessStatus :: "GC \<Rightarrow> u64 \<Rightarrow> GC" where
  "RemoveNewProcessStatus globals p =
     (case first_slot (\<lambda>s. pc_tag s = CHARON \<and> pc_p s = p) (NEW_PROCS globals) of
        None \<Rightarrow> globals
      | Some i \<Rightarrow> set_slot i ((NEW_PROCS globals ! i)\<lparr>pc_New := False\<rparr>) globals)"

text \<open>The pointer to a slot is its index.\<close>

definition GetCachedProcess :: "GC \<Rightarrow> u64 \<Rightarrow> nat option" where
  "GetCachedProcess globals p =
     first_slot (\<lambda>s. pc_tag s = CHARON \<and> pc_p s = p) (NEW_PROCS globals)"

definition IsNewProcess :: "GC \<Rightarrow> u64 \<Rightarrow> bool" where
  "IsNewProcess globals p =
     (p \<noteq> 0 \<and> first_slot (\<lambda>s. pc_tag s = CHARON \<and> pc_p s = p \<and> pc_New s) (NEW_PROCS globals) \<noteq> None)"

section \<open>Logging a cached process\<close>

text \<open>\<open>PCacheLogEntries\<close>, as the statements it performs: the strings of the process under the field
  types of the source or of the target of an event, and what is known of its user.\<close>

definition log_valid_str :: "u16 \<Rightarrow> UNICODE_STRING ptr \<Rightarrow> log_call" where
  "log_valid_str type s = log_when (VALID_PAGE s \<and> VALID_PAGE (Buffer (deref s))) (log_str type s)"

definition PCacheLogEntries :: "PROC_INFO ptr \<Rightarrow> bool \<Rightarrow> log_call list" where
  "PCacheLogEntries PI target =
     (if \<not> MM_TYPE_CHECK pi_tag PI PHOEBE then [] else
      let P = deref PI in
      (if \<not> target then
         [log_valid_str IMAGE_FILE_NAME (ImageFileName P),
          log_valid_str COMMAND_LINE (CommandLine P),
          log_valid_str PARENT_IMAGE_FILE_NAME (ParentImageFileName P),
          log_valid_str PARENT_COMMAND_LINE (ParentCommandLine P),
          log_valid_str PWINDOW_TITLE (WindowTitle P),
          log_valid_str PCWD (CWD P)]
       else
         [log_valid_str TARGET_IMAGE_FILE_NAME (ImageFileName P),
          log_valid_str TARGET_COMMAND_LINE (CommandLine P),
          log_valid_str TARGET_PARENT_IMAGE_FILE_NAME (ParentImageFileName P),
          log_valid_str TARGET_PARENT_COMMAND_LINE (ParentCommandLine P),
          log_valid_str TARGET_PWINDOW_TITLE (WindowTitle P),
          log_valid_str TARGET_PCWD (CWD P)]) @
      (if MM_TYPE_CHECK ui_tag (pi_UI P) MNEME then
         let U = deref (pi_UI P) in
         [log_when (VALID_PAGE (sid_data U) \<and> 0 < sid_data_length U)
            (Some (ucast (sid_data_length U), SID_DATA, sid_data U)),
          log_valid_str ACCOUNT_DOMAIN (ui_domain U),
          log_valid_str ACCOUNT_NAME (ui_name U)]
       else []))"

section \<open>Slots\<close>

lemma first_slot_Some:
  "first_slot P xs = Some i \<longleftrightarrow> i < length xs \<and> P (xs ! i) \<and> (\<forall>j < i. \<not> P (xs ! j))"
proof (induction xs arbitrary: i)
  case (Cons x xs)
  show ?case
  proof (cases i)
    case 0
    then show ?thesis by (cases "first_slot P xs") auto
  next
    case (Suc j)
    have "(\<forall>k < Suc j. \<not> P ((x # xs) ! k)) \<longleftrightarrow> \<not> P x \<and> (\<forall>k < j. \<not> P (xs ! k))"
      by (metis Suc_less_eq less_Suc_eq_0_disj nth_Cons_0 nth_Cons_Suc)
    then show ?thesis using Cons.IH [of j] Suc by (auto simp: map_option_case split: option.splits)
  qed
qed simp

lemma first_slot_None: "first_slot P xs = None \<longleftrightarrow> (\<forall>x \<in> set xs. \<not> P x)"
  by (induction xs) auto

text \<open>When at most one slot satisfies the test, the search finds that one.\<close>

lemma first_slot_unique:
  assumes "i < length xs" "P (xs ! i)" "\<And>j. j < length xs \<Longrightarrow> P (xs ! j) \<Longrightarrow> j = i"
  shows "first_slot P xs = Some i"
  unfolding first_slot_Some using assms by (metis less_irrefl less_trans)

section \<open>The invariant of the cache\<close>

text \<open>User information whose data is there, so that destroying it frees something.\<close>

definition wf_pi :: "PROC_INFO \<Rightarrow> bool" where
  "wf_pi PI \<longleftrightarrow> (MM_TYPE_CHECK ui_tag (pi_UI PI) MNEME \<longrightarrow> sid_data (deref (pi_UI PI)) \<noteq> Null)"

definition wf_slot :: "PCACHE \<Rightarrow> bool" where
  "wf_slot s \<longleftrightarrow> (pc_PI s \<noteq> Null \<longrightarrow> wf_pi (deref (pc_PI s)))
     \<and> (if pc_tag s = CHARON then pc_p s \<noteq> 0 \<and> pc_PI s \<noteq> Null else pc_p s = 0)"

definition cache_ok :: "GC \<Rightarrow> bool" where
  "cache_ok G \<longleftrightarrow> length (NEW_PROCS G) = 32000 \<and> (\<forall>s \<in> set (NEW_PROCS G). wf_slot s)
     \<and> (\<forall>i < 32000. \<forall>j < 32000. pc_p (NEW_PROCS G ! i) = pc_p (NEW_PROCS G ! j)
          \<and> pc_p (NEW_PROCS G ! i) \<noteq> 0 \<longrightarrow> i = j)"

text \<open>What is cached for a handle. The user information is compared by content: the cache has its
  own copy.\<close>

definition pi_view :: "PROC_INFO \<Rightarrow> PROC_INFO" where
  "pi_view PI = PI\<lparr>pi_UI := (case pi_UI PI of Null \<Rightarrow> Null | Ptr _ u \<Rightarrow> Ptr 0 u)\<rparr>"

definition cached :: "GC \<Rightarrow> u64 \<Rightarrow> PROC_INFO option" where
  "cached G p = map_option (\<lambda>i. pi_view (deref (pc_PI (NEW_PROCS G ! i)))) (GetCachedProcess G p)"

lemma destroySidInfo_total: "sid_data (deref q) \<noteq> Null \<Longrightarrow> \<exists>r. destroySidInfo q = Inr r"
  by (cases q; cases "sid_data (deref q)") (simp_all add: destroySidInfo_def)

lemma processInfoDelete_total: "wf_pi (deref q) \<Longrightarrow> \<exists>r. processInfoDelete q = Inr r"
proof (cases q)
  case (Ptr a v)
  assume wf: "wf_pi (deref q)"
  have "\<exists>r. (if MM_TYPE_CHECK ui_tag (pi_UI v) MNEME then destroySidInfo (pi_UI v)
             else Inr (pi_UI v, [])) = Inr r"
    using wf Ptr destroySidInfo_total [of "pi_UI v"] by (simp add: wf_pi_def)
  then show ?thesis
    using Ptr by (auto simp: processInfoDelete_def Let_def split_beta)
qed (simp add: processInfoDelete_def)

text \<open>The next slot.\<close>

definition next_slot :: "GC \<Rightarrow> nat" where
  "next_slot G = (if NEW_PROCS_MAX \<le> NEW_PROCS_INDEX G then 0 else unat (NEW_PROCS_INDEX G) + 1)"

lemma next_slot_word:
  "unat (if NEW_PROCS_MAX \<le> NEW_PROCS_INDEX G then 0 else NEW_PROCS_INDEX G + 1) = next_slot G"
  by (auto simp: next_slot_def unat_word_ariths word_le_nat_alt)

lemma anp_pick_miss:
  assumes "first_slot (\<lambda>s. pc_p s = p) (NEW_PROCS G) = None" "length (NEW_PROCS G) = 32000"
    "next_slot G < 32000"
  shows "\<exists>s n. anp_pick G p = Inr (set_slot (next_slot G) s (G\<lparr>NEW_PROCS_INDEX := n\<rparr>), Some (next_slot G))
    \<and> unat n = next_slot G \<and> pc_PI s = pc_PI (NEW_PROCS G ! next_slot G)"
proof -
  let ?n = "if NEW_PROCS_MAX \<le> NEW_PROCS_INDEX G then 0 else NEW_PROCS_INDEX G + 1"
  have same: "set_slot i (NEW_PROCS G ! i) (G\<lparr>NEW_PROCS_INDEX := m\<rparr>) = G\<lparr>NEW_PROCS_INDEX := m\<rparr>" for i m
    by (simp add: set_slot_def)
  show ?thesis
  proof (cases "pc_InUse (NEW_PROCS G ! next_slot G)")
    case True
    then show ?thesis
      using assms same [of "next_slot G"] next_slot_word [of G]
      by (intro exI [of _ "NEW_PROCS G ! next_slot G"] exI [of _ ?n])
         (simp add: anp_pick_def Let_def)
  next
    case False
    then show ?thesis
      using assms next_slot_word [of G]
      by (intro exI [of _ "(NEW_PROCS G ! next_slot G)\<lparr>pc_tag := ''''\<rparr>"] exI [of _ ?n])
         (simp add: anp_pick_def Let_def)
  qed
qed

lemma anp_fill_slot:
  assumes "i < length (NEW_PROCS G)" "pool_ample R" "pi_tag PI = PHOEBE" "wf_pi PI"
    "pc_PI (NEW_PROCS G ! i) \<noteq> Null \<Longrightarrow> wf_pi (deref (pc_PI (NEW_PROCS G ! i)))"
  shows "\<exists>s freed a PI'. anp_fill R G i p PI = Inr (set_slot i s G, freed)
    \<and> pc_p s = p \<and> pc_tag s = CHARON \<and> pc_New s \<and> \<not> pc_InUse s
    \<and> pc_PI s = Ptr a PI' \<and> pi_view PI' = pi_view PI \<and> wf_pi PI'"
proof -
  let ?q = "pc_PI (NEW_PROCS G ! i)"
  obtain q' freed where del:
    "(if ?q = Null then Inr (Null, []) else processInfoDelete ?q) = Inr (q', freed)"
    using processInfoDelete_total [of ?q] assms(5) by (cases "?q = Null") force+
  have nz: "ExAllocatePool2 R p 64 \<noteq> 0" "ExAllocatePool2 R (p + 1) 40 \<noteq> 0"
    using assms(2) by (simp_all add: pool_ample_def)
  show ?thesis
  proof (cases "MM_TYPE_CHECK ui_tag (pi_UI PI) MNEME")
    case True
    then obtain ua u where "pi_UI PI = Ptr ua u" by (cases "pi_UI PI") auto
    then show ?thesis
      using assms(1,4) del nz True
      by (simp add: anp_fill_def Let_def) (auto simp: pi_view_def wf_pi_def)
  next
    case False
    then show ?thesis
      using assms(1,4) del nz by (simp add: anp_fill_def Let_def) auto
  qed
qed

lemma add_miss:
  assumes "cache_ok G" "first_slot (\<lambda>s. pc_p s = p) (NEW_PROCS G) = None" "next_slot G < 32000"
    "pool_ample R" "pi_tag PI = PHOEBE" "wf_pi PI"
  shows "\<exists>s freed a PI' n. AddNewProcess R G p (Ptr b PI)
      = Inr (set_slot (next_slot G) s (G\<lparr>NEW_PROCS_INDEX := n\<rparr>), freed)
    \<and> unat n = next_slot G \<and> pc_p s = p \<and> pc_tag s = CHARON \<and> pc_New s \<and> \<not> pc_InUse s
    \<and> pc_PI s = Ptr a PI' \<and> pi_view PI' = pi_view PI \<and> wf_pi PI'"
proof -
  let ?i = "next_slot G"
  have len: "length (NEW_PROCS G) = 32000" using assms(1) by (simp add: cache_ok_def)
  obtain s0 n where pick: "anp_pick G p = Inr (set_slot ?i s0 (G\<lparr>NEW_PROCS_INDEX := n\<rparr>), Some ?i)"
    "unat n = ?i" "pc_PI s0 = pc_PI (NEW_PROCS G ! ?i)"
    using anp_pick_miss [OF assms(2) len assms(3)] by blast
  let ?G = "set_slot ?i s0 (G\<lparr>NEW_PROCS_INDEX := n\<rparr>)"
  have "wf_slot (NEW_PROCS G ! ?i)" using assms(1,3) by (simp add: cache_ok_def)
  then have "pc_PI (NEW_PROCS ?G ! ?i) \<noteq> Null \<Longrightarrow> wf_pi (deref (pc_PI (NEW_PROCS ?G ! ?i)))"
    using pick(3) len assms(3) by (simp add: wf_slot_def set_slot_def)
  then obtain s freed a PI' where fill: "anp_fill R ?G ?i p PI = Inr (set_slot ?i s ?G, freed)"
    "pc_p s = p" "pc_tag s = CHARON" "pc_New s" "\<not> pc_InUse s"
    "pc_PI s = Ptr a PI'" "pi_view PI' = pi_view PI" "wf_pi PI'"
    using anp_fill_slot [of ?i ?G R PI p] assms(3-6) len by (auto simp: set_slot_def)
  have "set_slot ?i s ?G = set_slot ?i s (G\<lparr>NEW_PROCS_INDEX := n\<rparr>)"
    by (simp add: set_slot_def)
  then show ?thesis
    using pick fill assms(5) by (simp add: AddNewProcess_def) blast
qed

text \<open>The 32000th slot does not exist: the test of the index is made before it is incremented.\<close>

lemma AddNewProcess_overflow:
  assumes "first_slot (\<lambda>s. pc_p s = p) (NEW_PROCS G) = None" "length (NEW_PROCS G) = 32000"
    "NEW_PROCS_INDEX G = 31999" "pi_tag PI = PHOEBE"
  shows "AddNewProcess R G p (Ptr b PI) = Inl OutOfBounds"
  using assms by (simp add: AddNewProcess_def anp_pick_def Let_def)

section \<open>The interface of a lossy cache\<close>

text \<open>What the callbacks rely on: a value that has been inserted under a fresh key is found, one that
  is already there is kept, and an insertion or a removal may only lose other entries, never change
  them. \<open>norm\<close> is the part of a value that is kept.\<close>

datatype ('k, 'v) cache_op = Ins 'k 'v | Del 'k

locale lossy_cache =
  fixes look :: "'s \<Rightarrow> 'k \<Rightarrow> 'v option"
    and ins :: "'k \<Rightarrow> 'v \<Rightarrow> 's \<Rightarrow> 's"
    and del :: "'k \<Rightarrow> 's \<Rightarrow> 's"
    and norm :: "'v \<Rightarrow> 'v"
    and ok :: "'s \<Rightarrow> bool"
    and can :: "'k \<Rightarrow> 'v \<Rightarrow> 's \<Rightarrow> bool"
  assumes ins_ok: "ok s \<Longrightarrow> can k v s \<Longrightarrow> ok (ins k v s)"
    and ins_new: "ok s \<Longrightarrow> can k v s \<Longrightarrow> look s k = None \<Longrightarrow> look (ins k v s) k = Some (norm v)"
    and ins_hit: "ok s \<Longrightarrow> can k v s \<Longrightarrow> look s k = Some w \<Longrightarrow> look (ins k v s) k = Some w"
    and ins_other: "ok s \<Longrightarrow> can k v s \<Longrightarrow> k' \<noteq> k \<Longrightarrow>
      look (ins k v s) k' = None \<or> look (ins k v s) k' = look s k'"
    and del_ok: "ok s \<Longrightarrow> ok (del k s)"
    and del_some: "ok s \<Longrightarrow> look (del k s) k' = None \<or> look (del k s) k' = look s k'"
begin

fun steps :: "('k, 'v) cache_op list \<Rightarrow> 's \<Rightarrow> 's" where
  "steps [] s = s"
| "steps (Ins k v # ops) s = steps ops (ins k v s)"
| "steps (Del k # ops) s = steps ops (del k s)"

fun feasible :: "('k, 'v) cache_op list \<Rightarrow> 's \<Rightarrow> bool" where
  "feasible [] s = True"
| "feasible (Ins k v # ops) s = (can k v s \<and> feasible ops (ins k v s))"
| "feasible (Del k # ops) s = feasible ops (del k s)"

text \<open>Whatever a lookup returns after a run was there before, or was inserted under this key.\<close>

lemma steps_source:
  assumes "ok s" "feasible ops s" "look (steps ops s) k = Some w"
  shows "ok (steps ops s) \<and> (look s k = Some w \<or> (\<exists>v. Ins k v \<in> set ops \<and> w = norm v))"
  using assms
proof (induction ops arbitrary: s)
  case (Cons a ops)
  show ?case
  proof (cases a)
    case (Ins k' v)
    then have can: "can k' v s" and rest: "feasible ops (ins k' v s)" "look (steps ops (ins k' v s)) k = Some w"
      using Cons.prems by simp_all
    have "ok (ins k' v s)" by (rule ins_ok [OF Cons.prems(1) can])
    from Cons.IH [OF this rest] have "ok (steps ops (ins k' v s))"
      "look (ins k' v s) k = Some w \<or> (\<exists>v. Ins k v \<in> set ops \<and> w = norm v)" by blast+
    moreover have "look s k = Some w \<or> (k' = k \<and> w = norm v)" if "look (ins k' v s) k = Some w"
      using that ins_new [OF Cons.prems(1) can] ins_hit [OF Cons.prems(1) can] ins_other [OF Cons.prems(1) can, of k]
      by (cases "k' = k"; cases "look s k'") auto
    ultimately show ?thesis using Ins by auto
  next
    case (Del k')
    then have rest: "feasible ops (del k' s)" "look (steps ops (del k' s)) k = Some w"
      using Cons.prems by simp_all
    from Cons.IH [OF del_ok [OF Cons.prems(1)] rest] del_some [OF Cons.prems(1), of k' k]
    show ?thesis using Del by auto
  qed
qed simp

text \<open>An insertion is followed by a successful lookup.\<close>

lemma ins_found: "ok s \<Longrightarrow> can k v s \<Longrightarrow> look (ins k v s) k \<noteq> None"
  using ins_new ins_hit by (cases "look s k") auto

end

section \<open>The table is one\<close>

lemma slot_get:
  assumes "cache_ok G"
  shows "GetCachedProcess G p = Some i \<longleftrightarrow>
    i < 32000 \<and> pc_tag (NEW_PROCS G ! i) = CHARON \<and> pc_p (NEW_PROCS G ! i) = p"
proof -
  have len: "length (NEW_PROCS G) = 32000" using assms by (simp add: cache_ok_def)
  have "j = i" if "i < 32000" "j < 32000" "pc_tag (NEW_PROCS G ! i) = CHARON"
    "pc_p (NEW_PROCS G ! i) = p" "pc_p (NEW_PROCS G ! j) = p" for j
  proof -
    have "wf_slot (NEW_PROCS G ! i)" using assms that(1) by (simp add: cache_ok_def)
    then have "pc_p (NEW_PROCS G ! i) \<noteq> 0" using that(3) by (simp add: wf_slot_def)
    then show ?thesis using assms that by (auto simp: cache_ok_def)
  qed
  then show ?thesis
    unfolding GetCachedProcess_def first_slot_Some len by (metis less_irrefl less_trans)
qed

lemma cached_Some:
  assumes "cache_ok G"
  shows "cached G p = Some w \<longleftrightarrow> (\<exists>i < 32000. pc_tag (NEW_PROCS G ! i) = CHARON
    \<and> pc_p (NEW_PROCS G ! i) = p \<and> w = pi_view (deref (pc_PI (NEW_PROCS G ! i))))"
  using slot_get [OF assms, of p] by (auto simp: cached_def)

lemma cached_None:
  assumes "cache_ok G"
  shows "cached G p = None \<longleftrightarrow> (\<forall>i < 32000. \<not> (pc_tag (NEW_PROCS G ! i) = CHARON
    \<and> pc_p (NEW_PROCS G ! i) = p))"
  using slot_get [OF assms, of p] by (cases "GetCachedProcess G p") (auto simp: cached_def)

text \<open>Replacing a slot, with a cached process under a new handle or with an empty slot.\<close>

lemma set_slot_ok:
  assumes "cache_ok G" "i < 32000" "wf_slot s"
    "pc_p s \<noteq> 0 \<Longrightarrow> \<forall>j < 32000. j \<noteq> i \<longrightarrow> pc_p (NEW_PROCS G ! j) \<noteq> pc_p s"
  shows "cache_ok (set_slot i s G)"
proof -
  have "wf_slot x" if "x \<in> set ((NEW_PROCS G)[i := s])" for x
    using that assms(1,3) set_update_subset_insert [of "NEW_PROCS G" i s] by (auto simp: cache_ok_def)
  moreover have "j = k" if "j < 32000" "k < 32000" "pc_p ((NEW_PROCS G)[i := s] ! j) = pc_p ((NEW_PROCS G)[i := s] ! k)"
    "pc_p ((NEW_PROCS G)[i := s] ! j) \<noteq> 0" for j k
    using that assms by (auto simp: cache_ok_def nth_list_update split: if_splits)
  moreover have "length (NEW_PROCS G) = 32000" using assms(1) by (simp add: cache_ok_def)
  ultimately show ?thesis
    unfolding cache_ok_def by (intro conjI ballI allI impI; (elim conjE)?) (simp_all add: set_slot_def)
qed

lemma cache_ok_index [simp]: "cache_ok (G\<lparr>NEW_PROCS_INDEX := n\<rparr>) = cache_ok G"
  by (simp add: cache_ok_def)

lemma set_slot_other:
  assumes "cache_ok G" "cache_ok (set_slot i s G)" "i < 32000" "pc_tag s = CHARON \<Longrightarrow> pc_p s \<noteq> p"
  shows "cached (set_slot i s G) p = None \<or> cached (set_slot i s G) p = cached G p"
proof (cases "cached (set_slot i s G) p")
  case (Some w)
  then obtain j where j: "j < 32000" "pc_tag (NEW_PROCS (set_slot i s G) ! j) = CHARON"
    "pc_p (NEW_PROCS (set_slot i s G) ! j) = p" "w = pi_view (deref (pc_PI (NEW_PROCS (set_slot i s G) ! j)))"
    using cached_Some [OF assms(2)] by blast
  then have "j \<noteq> i" using assms(1,4) by (auto simp: set_slot_def cache_ok_def)
  then have "cached G p = Some w"
    using j cached_Some [OF assms(1)] by (auto simp: set_slot_def)
  then show ?thesis using Some by simp
qed simp

definition cache_ins :: "rtl \<Rightarrow> u64 \<Rightarrow> PROC_INFO \<Rightarrow> GC \<Rightarrow> GC" where
  "cache_ins R p PI G = (case AddNewProcess R G p (Ptr p PI) of Inr (G', _) \<Rightarrow> G' | Inl _ \<Rightarrow> G)"

definition cache_del :: "u64 \<Rightarrow> GC \<Rightarrow> GC" where
  "cache_del p G = (case PurgeCachedProcess G p of Inr (G', _) \<Rightarrow> G' | Inl _ \<Rightarrow> G)"

definition cache_can :: "rtl \<Rightarrow> u64 \<Rightarrow> PROC_INFO \<Rightarrow> GC \<Rightarrow> bool" where
  "cache_can R p PI G \<longleftrightarrow> p \<noteq> 0 \<and> next_slot G < 32000 \<and> pool_ample R \<and> pi_tag PI = PHOEBE \<and> wf_pi PI"

text \<open>A handle that some slot carries is cached already, and nothing happens.\<close>

lemma slot_nonzero_cached:
  assumes "cache_ok G" "p \<noteq> 0" "first_slot (\<lambda>s. pc_p s = p) (NEW_PROCS G) \<noteq> None"
  shows "cached G p \<noteq> None"
proof -
  obtain i where i: "i < 32000" "pc_p (NEW_PROCS G ! i) = p"
    using assms(1,3) first_slot_Some [of "\<lambda>s. pc_p s = p" "NEW_PROCS G"] by (auto simp: cache_ok_def)
  have "wf_slot (NEW_PROCS G ! i)" using assms(1) i by (simp add: cache_ok_def)
  then have "pc_tag (NEW_PROCS G ! i) = CHARON"
    using i assms(2) by (auto simp: wf_slot_def split: if_splits)
  then show ?thesis using cached_None [OF assms(1), of p] i by auto
qed

lemma cache_ins_cases:
  assumes "cache_ok G" "cache_can R p PI G"
  obtains (hit) "cached G p \<noteq> None" "cache_ins R p PI G = G"
  | (miss) s n where "cached G p = None" "cache_ok (cache_ins R p PI G)"
      "cache_ins R p PI G = set_slot (next_slot G) s (G\<lparr>NEW_PROCS_INDEX := n\<rparr>)"
      "pc_p s = p" "pc_tag s = CHARON" "pi_view (deref (pc_PI s)) = pi_view PI" "unat n = next_slot G"
      "pc_New s"
proof (cases "first_slot (\<lambda>s. pc_p s = p) (NEW_PROCS G) = None")
  case False
  then show thesis
    using slot_nonzero_cached [OF assms(1) _ False] assms(2)
    by (intro hit) (auto simp: cache_can_def cache_ins_def AddNewProcess_def anp_pick_def)
next
  case True
  have none: "pc_p (NEW_PROCS G ! j) \<noteq> p" if "j < 32000" for j
    using True that assms(1) by (auto simp: first_slot_None cache_ok_def)
  obtain s freed a PI' n where add: "AddNewProcess R G p (Ptr p PI)
      = Inr (set_slot (next_slot G) s (G\<lparr>NEW_PROCS_INDEX := n\<rparr>), freed)"
    "unat n = next_slot G" "pc_p s = p" "pc_tag s = CHARON" "pc_New s" "pc_PI s = Ptr a PI'"
    "pi_view PI' = pi_view PI" "wf_pi PI'"
    using add_miss [OF assms(1) True, of R PI p] assms(2) unfolding cache_can_def by blast
  let ?G = "G\<lparr>NEW_PROCS_INDEX := n\<rparr>"
  have "cache_ok ?G" using assms(1) by simp
  then have "cache_ok (set_slot (next_slot G) s ?G)"
    using add assms(2) none by (intro set_slot_ok) (auto simp: wf_slot_def cache_can_def)
  moreover have "cached G p = None" using cached_None [OF assms(1)] none by blast
  ultimately show thesis
    using add by (intro miss [of s n]) (simp_all add: cache_ins_def)
qed

lemma PurgeCachedProcess_cases:
  assumes "cache_ok G"
  obtains (none) "cache_del p G = G" | (slot) i where "i < 32000" "cache_ok (cache_del p G)"
    "cache_del p G = set_slot i ((NEW_PROCS G ! i)\<lparr>pc_New := False, pc_PI := Null, pc_p := 0, pc_tag := ''''\<rparr>) G"
proof (cases "first_slot (\<lambda>s. pc_tag s = CHARON \<and> pc_p s = p \<and> \<not> pc_InUse s) (NEW_PROCS G)")
  case None
  then show thesis by (intro none) (simp add: cache_del_def PurgeCachedProcess_def)
next
  case (Some i)
  then have i: "i < 32000" "pc_tag (NEW_PROCS G ! i) = CHARON"
    using assms by (auto simp: first_slot_Some cache_ok_def)
  then have wf: "wf_slot (NEW_PROCS G ! i)" using assms by (simp add: cache_ok_def)
  then have "wf_pi (deref (pc_PI (NEW_PROCS G ! i)))" "pc_PI (NEW_PROCS G ! i) \<noteq> Null"
    using i by (auto simp: wf_slot_def)
  then obtain r where "processInfoDelete (pc_PI (NEW_PROCS G ! i)) = Inr r"
    using processInfoDelete_total by blast
  then have "cache_del p G =
      set_slot i ((NEW_PROCS G ! i)\<lparr>pc_New := False, pc_PI := Null, pc_p := 0, pc_tag := ''''\<rparr>) G"
    using Some by (cases r) (simp add: cache_del_def PurgeCachedProcess_def Let_def)
  moreover from this have "cache_ok (cache_del p G)"
    using set_slot_ok [OF assms i(1),
        of "(NEW_PROCS G ! i)\<lparr>pc_New := False, pc_PI := Null, pc_p := 0, pc_tag := ''''\<rparr>"]
    by (simp add: wf_slot_def)
  ultimately show thesis using i by (intro slot)
qed

interpretation process_cache:
  lossy_cache cached "cache_ins R" cache_del pi_view cache_ok "cache_can R" for R
proof unfold_locales
  fix G p PI assume ok: "cache_ok G" and can: "cache_can R p PI G"
  show "cache_ok (cache_ins R p PI G)"
    by (rule cache_ins_cases [OF ok can]) (use ok in auto)
  show "cached (cache_ins R p PI G) p = Some (pi_view PI)" if "cached G p = None"
  proof (rule cache_ins_cases [OF ok can])
    fix s n
    assume c: "cache_ok (cache_ins R p PI G)"
      "cache_ins R p PI G = set_slot (next_slot G) s (G\<lparr>NEW_PROCS_INDEX := n\<rparr>)"
      "pc_p s = p" "pc_tag s = CHARON" "pi_view (deref (pc_PI s)) = pi_view PI"
    have "next_slot G < 32000" "length (NEW_PROCS G) = 32000"
      using can ok by (simp_all add: cache_can_def cache_ok_def)
    then show ?thesis
      using cached_Some [OF c(1), of p] c(2-5) by (auto simp: set_slot_def intro!: exI [of _ "next_slot G"])
  qed (use that in simp)
  show "cached (cache_ins R p PI G) p = Some w" if "cached G p = Some w" for w
    by (rule cache_ins_cases [OF ok can]) (use that in auto)
  show "cached (cache_ins R p PI G) q = None \<or> cached (cache_ins R p PI G) q = cached G q" if "q \<noteq> p" for q
  proof (rule cache_ins_cases [OF ok can])
    fix s n
    assume c: "cache_ok (cache_ins R p PI G)"
      "cache_ins R p PI G = set_slot (next_slot G) s (G\<lparr>NEW_PROCS_INDEX := n\<rparr>)" "pc_p s = p"
    have "cache_ok (G\<lparr>NEW_PROCS_INDEX := n\<rparr>)" "cached (G\<lparr>NEW_PROCS_INDEX := n\<rparr>) q = cached G q"
      using ok by (simp_all add: cached_def GetCachedProcess_def)
    then show ?thesis
      using set_slot_other [of "G\<lparr>NEW_PROCS_INDEX := n\<rparr>" "next_slot G" s q] c can that
      by (simp add: cache_can_def)
  qed simp
next
  fix G p assume ok: "cache_ok G"
  show "cache_ok (cache_del p G)" by (rule PurgeCachedProcess_cases [OF ok, of p]) (use ok in simp_all)
  show "cached (cache_del p G) q = None \<or> cached (cache_del p G) q = cached G q" for q
  proof (rule PurgeCachedProcess_cases [OF ok, of p])
    fix i
    assume c: "i < 32000" "cache_ok (cache_del p G)"
      "cache_del p G = set_slot i ((NEW_PROCS G ! i)\<lparr>pc_New := False, pc_PI := Null, pc_p := 0, pc_tag := ''''\<rparr>) G"
    show ?thesis unfolding c(3)
      by (rule set_slot_other [OF ok _ c(1)]) (use c in simp_all)
  qed simp
qed

end
