(* ===== verification/MM_Process_Rules.thy ===== *)
theory MM_Process_Rules
  imports MM_Rules
begin

text \<open>
  \<open>ProcessListMatch\<close>, \<open>InspectProcessCreation\<close> and \<open>InspectProcessTermination\<close> of
  \<open>src/MoonMon/Process.c\<close>.
\<close>

definition process_field :: "rtl \<Rightarrow> PROC_INFO \<Rightarrow> CFI ptr \<Rightarrow> u32 \<Rightarrow> u32 res" where
  "process_field R PI entry matches =
     switch (field_type (deref entry))
       [(IMAGE_FILE_NAME, Inr (CheckUnicodeEntry R entry (ImageFileName PI) matches)),
        (PARENT_IMAGE_FILE_NAME, Inr (CheckUnicodeEntry R entry (ParentImageFileName PI) matches)),
        (COMMAND_LINE, Inr (CheckUnicodeEntry R entry (CommandLine PI) matches)),
        (PARENT_COMMAND_LINE, Inr (CheckUnicodeEntry R entry (ParentCommandLine PI) matches)),
        (PWINDOW_TITLE, Inr (CheckUnicodeEntry R entry (WindowTitle PI) matches)),
        (PCWD, Inr (CheckUnicodeEntry R entry (CWD PI) matches))] (Inr matches)"

definition process_list :: "u32 \<Rightarrow> rule_list option" where
  "process_list LIST_TYPE =
     switch LIST_TYPE
       [(PROCESS_BLOCK_LIST, Some PBL), (PROCESS_INCLUDE_LIST, Some PINC),
        (PROCESS_EXCLUDE_LIST, Some PEXC), (PROCESS_TERMINATED_INCLUDE_LIST, Some PTINC),
        (PROCESS_TERMINATED_EXCLUDE_LIST, Some PTEXC)] None"

definition ProcessListMatch :: "rtl \<Rightarrow> GC \<Rightarrow> PROC_INFO \<Rightarrow> u32 \<Rightarrow> u32 \<Rightarrow> list_result res" where
  "ProcessListMatch R globals PI LIST_TYPE PL_COUNT =
     list_match globals (process_list LIST_TYPE) PL_COUNT (process_field R PI)"

definition InspectProcessCreation :: "rtl \<Rightarrow> GC \<Rightarrow> PROC_INFO \<Rightarrow> inspection res" where
  "InspectProcessCreation R globals PI =
     andthen
       (if 0 < gc_COUNT globals PBL then
          andthen (ProcessListMatch R globals PI PROCESS_BLOCK_LIST (gc_COUNT globals PBL)) (\<lambda>r.
            if lr_matched r
            then Inr (if lr_actions r = 0 then STATUS_ACCESS_DENIED else lr_actions r, lr_id r)
            else Inr (STATUS_SUCCESS, 0))
        else Inr (STATUS_SUCCESS, 0)) (\<lambda>(status, match_id).
     andthen
       (if 0 < gc_COUNT globals PINC then
          andthen (ProcessListMatch R globals PI PROCESS_INCLUDE_LIST (gc_COUNT globals PINC)) (\<lambda>r.
            Inr (if lr_matched r
                 then (if match_id = 0 then lr_id r else match_id)
                 else (if match_id = 0 then lr_id r else match_id)))
        else Inr match_id) (\<lambda>match_id.
     if 0 < gc_COUNT globals PEXC \<and> match_id = 0 then
       andthen (ProcessListMatch R globals PI PROCESS_EXCLUDE_LIST (gc_COUNT globals PEXC)) (\<lambda>r.
         if lr_matched r
         then Inr \<lparr>in_status = status, in_skip = True, in_id = lr_id r\<rparr>
         else Inr \<lparr>in_status = status, in_skip = False, in_id = match_id\<rparr>)
     else Inr \<lparr>in_status = status, in_skip = False, in_id = match_id\<rparr>))"

definition InspectProcessTermination :: "rtl \<Rightarrow> GC \<Rightarrow> PROC_INFO \<Rightarrow> inspection res" where
  "InspectProcessTermination R globals PI =
     andthen
       (if 0 < gc_COUNT globals PTINC
        then ProcessListMatch R globals PI PROCESS_TERMINATED_INCLUDE_LIST (gc_COUNT globals PTINC)
        else Inr no_match) (\<lambda>inc.
     if lr_matched inc then Inr \<lparr>in_status = 0, in_skip = False, in_id = lr_id inc\<rparr>
     else if 0 < gc_COUNT globals PTEXC then
       andthen (ProcessListMatch R globals PI PROCESS_TERMINATED_EXCLUDE_LIST (gc_COUNT globals PTEXC)) (\<lambda>exc.
         if lr_matched exc then Inr \<lparr>in_status = 0, in_skip = True, in_id = lr_id exc\<rparr>
         else Inr \<lparr>in_status = 0, in_skip = False, in_id = 0\<rparr>)
     else Inr \<lparr>in_status = 0, in_skip = False, in_id = 0\<rparr>)"

text \<open>When an item of a process rule holds of a process.\<close>

definition process_holds :: "rtl \<Rightarrow> PROC_INFO \<Rightarrow> CFI ptr \<Rightarrow> bool" where
  "process_holds R PI entry =
     switch (field_type (deref entry))
       [(IMAGE_FILE_NAME, unicode_pred R entry (ImageFileName PI)),
        (PARENT_IMAGE_FILE_NAME, unicode_pred R entry (ParentImageFileName PI)),
        (COMMAND_LINE, unicode_pred R entry (CommandLine PI)),
        (PARENT_COMMAND_LINE, unicode_pred R entry (ParentCommandLine PI)),
        (PWINDOW_TITLE, unicode_pred R entry (WindowTitle PI)),
        (PCWD, unicode_pred R entry (CWD PI))] False"

lemma process_field_tick: "process_field R PI entry m = Inr (tick (process_holds R PI entry) m)"
  unfolding process_field_def process_holds_def by (rule switch_tick) (simp add: check_ticks)

interpretation process_rules:
  predicate_check "process_field R" "\<lambda>_. True" "\<lambda>_. True" "process_holds R" for R
  by unfold_locales (rule process_field_tick)

lemma process_list_simps [simp]:
  "process_list PROCESS_BLOCK_LIST = Some PBL"
  "process_list PROCESS_INCLUDE_LIST = Some PINC"
  "process_list PROCESS_EXCLUDE_LIST = Some PEXC"
  "process_list PROCESS_TERMINATED_INCLUDE_LIST = Some PTINC"
  "process_list PROCESS_TERMINATED_EXCLUDE_LIST = Some PTEXC"
  by (simp_all add: process_list_def)

lemma ProcessListMatch_hit:
  assumes "process_list t = Some l" "wf_rules G l" "0 < gc_COUNT G l"
  shows "ProcessListMatch R G PI t (gc_COUNT G l) = Inr (rules_hit (process_holds R PI) G l)"
  using assms by (simp add: ProcessListMatch_def process_rules.rules_hit_refines)

text \<open>The decision of the creation inspection is the table of \<open>decide_block\<close>; an include
  hit only protects from the exclude list when its id is not 0.\<close>

definition decide_process :: "list_result \<Rightarrow> list_result \<Rightarrow> list_result \<Rightarrow> inspection" where
  "decide_process blk inc exc =
     (let i = (if lr_id blk = 0 then lr_id inc else lr_id blk) in
      \<lparr>in_status = block_status blk, in_skip = (i = 0 \<and> lr_matched exc),
       in_id = if i = 0 \<and> lr_matched exc then lr_id exc else i\<rparr>)"

lemma decide_process_block:
  "lr_matched inc \<longrightarrow> lr_id inc \<noteq> 0 \<Longrightarrow> \<not> lr_matched inc \<longrightarrow> lr_id inc = 0 \<Longrightarrow>
   decide_process blk inc exc = decide_block blk inc exc"
  by (auto simp: decide_process_def decide_block_def Let_def)

lemma creation_decides:
  assumes "wf_rules G PBL" "wf_rules G PINC" "wf_rules G PEXC"
  shows "InspectProcessCreation R G PI =
    Inr (decide_process (rules_hit (process_holds R PI) G PBL)
      (rules_hit (process_holds R PI) G PINC) (rules_hit (process_holds R PI) G PEXC))"
proof -
  let ?hit = "rules_hit (process_holds R PI) G"
  have blk: "(if 0 < gc_COUNT G PBL then
          andthen (ProcessListMatch R G PI PROCESS_BLOCK_LIST (gc_COUNT G PBL)) (\<lambda>r.
            if lr_matched r
            then Inr (if lr_actions r = 0 then STATUS_ACCESS_DENIED else lr_actions r, lr_id r)
            else Inr (STATUS_SUCCESS, 0))
        else Inr (STATUS_SUCCESS, 0)) = Inr (block_status (?hit PBL), lr_id (?hit PBL))"
    using assms(1) by (simp add: ProcessListMatch_hit block_status_def word_gt_0)
  have inc: "(if 0 < gc_COUNT G PINC then
          andthen (ProcessListMatch R G PI PROCESS_INCLUDE_LIST (gc_COUNT G PINC)) (\<lambda>r.
            Inr (if lr_matched r
                 then (if i = 0 then lr_id r else i)
                 else (if i = 0 then lr_id r else i)))
        else Inr i) = Inr (if i = 0 then lr_id (?hit PINC) else i)" for i
    using assms(2) by (simp add: ProcessListMatch_hit word_gt_0)
  show ?thesis
    unfolding InspectProcessCreation_def blk andthen_simps prod.case inc
    using assms(3) by (simp add: ProcessListMatch_hit decide_process_def Let_def word_gt_0)
qed

lemma termination_decides:
  assumes "wf_rules G PTINC" "wf_rules G PTEXC"
  shows "InspectProcessTermination R G PI =
    Inr (decide_log (rules_hit (process_holds R PI) G PTINC) (rules_hit (process_holds R PI) G PTEXC))"
  using assms
  by (simp add: InspectProcessTermination_def ProcessListMatch_hit decide_log_simps word_gt_0)

end
