(* ===== verification/MM_Samples.thy ===== *)
theory MM_Samples
  imports MM_Process_Cache MM_Process_Rules
begin

text \<open>
  Concrete data the witnesses of the properties run on: counted strings of ASCII text, rule items,
  groups, configurations and processes, all at one valid address.
\<close>

definition page :: u64 where "page = 0xFFFF800000002000"

definition utf16 :: "string \<Rightarrow> u8 list" where
  "utf16 s = concat (map (\<lambda>c. [of_nat (of_char c), 0]) s)"

definition ustr :: "string \<Rightarrow> UNICODE_STRING ptr" where
  "ustr s = Ptr page \<lparr>Length = of_nat (2 * length s), MaximumLength = of_nat (2 * length s),
     Buffer = Ptr page (utf16 s)\<rparr>"

definition blank_item :: "u16 \<Rightarrow> u8 \<Rightarrow> CFI" where
  "blank_item ft mt = \<lparr>match_type = mt, itemBoolean = False, itemInt8 = 0, itemUint8 = 0,
     ipv6Prefix = 0, field_type = ft, itemUshort = 0, itemUlong = 0, ipv4Subnet = 0,
     ipv4SubnetMask = 0, itemLonglong = 0, ipv6Subnet = Null, item = Null, cfi_tag = CALLISTO\<rparr>"

definition str_item :: "u16 \<Rightarrow> u8 \<Rightarrow> string \<Rightarrow> CFI ptr" where
  "str_item ft mt s = Ptr page ((blank_item ft mt)\<lparr>item := ustr s\<rparr>)"

definition num_item :: "u16 \<Rightarrow> u8 \<Rightarrow> u32 \<Rightarrow> CFI ptr" where
  "num_item ft mt v = Ptr page ((blank_item ft mt)\<lparr>itemUlong := v\<rparr>)"

definition group_of :: "u32 \<Rightarrow> u32 \<Rightarrow> CFI ptr list \<Rightarrow> CONFIG_GROUP ptr" where
  "group_of i a xs = Ptr page \<lparr>entries = xs, cg_count = of_nat (length xs), cg_id = i,
     cg_actions = a, cg_tag = CALIBAN\<rparr>"

text \<open>A context that holds nothing, without the table of the process cache; and one that holds the given groups in a list.\<close>

definition blank_gc :: GC where
  "blank_gc = \<lparr>gc_State = 0, WFP_Registered = False, KSECDD_LOADED = False, BFENotifyHandle = 0,
     gc_Cookie = 0, gc_L = [], PROCESS_CALLBACK = True, THREAD_CALLBACK = True,
     MODULE_CALLBACK = True, OBJECT_CALLBACK = True, REGISTRY_CALLBACK = True,
     FILE_CALLBACK = True, WFP_CALLBACK = True, KEEP_EXCLUDES = False, RESIST_TAMPERING = False,
     ObRegHandle = 0, L_SIZE = 0, L_SIZE_BYTES = 0, gc_list = \<lambda>_. Null, gc_COUNT = \<lambda>_. 0,
     REG_DATA_MAX_SIZE = 32000, NEW_PROCS = [], NEW_PROCS_INDEX = 0,
     gc_id = 0, clientpid = - 1, clientppid = - 1, gc_tag = GANYMEDE\<rparr>"

definition with_list :: "rule_list \<Rightarrow> CONFIG_GROUP ptr list \<Rightarrow> GC \<Rightarrow> GC" where
  "with_list l gs G = G\<lparr>gc_list := (gc_list G)(l := Ptr page gs),
     gc_COUNT := (gc_COUNT G)(l := of_nat (length gs))\<rparr>"

definition proc :: "string \<Rightarrow> string \<Rightarrow> PROC_INFO" where
  "proc img cmd = zero_pi\<lparr>ImageFileName := ustr img, CommandLine := ustr cmd, pi_tag := PHOEBE\<rparr>"

text \<open>Events that carry nothing but the process that caused them.\<close>

definition thread_event :: "PROC_INFO \<Rightarrow> TC_INFO" where
  "thread_event p = \<lparr>tc_PI = Ptr page p, tc_TPI = Ptr page p, tc_tag = ''''\<rparr>"

definition module_event :: "PROC_INFO \<Rightarrow> MODULE_INFO" where
  "module_event p = \<lparr>ImageLoaded = Null, ImageProperties = 0, mi_PI = Ptr page p, mi_tag = ''''\<rparr>"

definition registry_event :: "PROC_INFO \<Rightarrow> REG_INFO" where
  "registry_event p = \<lparr>notifyClass = 0, RegistryKey = Null, RegistryKeyNew = Null,
     RegistryValueName = Null, NewFileName = Null, OldFilename = Null, ri_Data = Null,
     ri_DataSize = 0, ri_DataType = 0, ri_PI = Ptr page p, ri_tag = ''''\<rparr>"

definition object_event :: "PROC_INFO \<Rightarrow> OBPROC" where
  "object_event p = \<lparr>ob_Operation = 0, ob_Flags = 0, DesiredAccess = 0, OriginalDesiredAccess = 0,
     ob_PI = Ptr page p, ob_TPI = Ptr page p, ob_tag = ''''\<rparr>"

definition create_event :: "PROC_INFO \<Rightarrow> FILE_INFO" where
  "create_event p = \<lparr>CreateOptions = 0, fi_Name = Null, fi_Volume = Null, fi_Share = Null,
     fi_Extension = Null, fi_Stream = Null, fi_FinalComponent = Null, fi_ParentDir = Null,
     fi_PI = Ptr page p, fi_tag = ''''\<rparr>"

definition set_event :: "PROC_INFO \<Rightarrow> FILE_SET_INFO" where
  "set_event p = \<lparr>fs_Operation = 0, fs_Name = Null, fs_Volume = Null, fs_Share = Null,
     fs_Extension = Null, fs_Stream = Null, fs_FinalComponent = Null, fs_ParentDir = Null,
     fs_PI = Ptr page p, CreationTime = 0, ChangeTime = 0, AccessFlags = 0, NewName = Null,
     Protocol = 0, ProtocolMajorVersion = 0, ProtocolMinorVersion = 0, NamedPipeType = 0,
     NamedPipeConfiguration = 0, NamedPipeState = 0, NamedPipeEnd = 0, DeleteFile = 0,
     fs_tag = ''''\<rparr>"

definition net_event :: "PROC_INFO \<Rightarrow> WFP_INFO" where
  "net_event p = \<lparr>Direction = 0, ipProtocol = 0, addrType = 0, promiscuous = 0, wfp_layer = 0,
     localPort = 0, remotePort = 0, localIpv4Addr = 0, remoteIpv4Addr = 0, interfaceType = 0,
     wfp_interface = 0, localIpv6Addr = Null, remoteIpv6Addr = Null, wfp_PI = Ptr page p,
     wfp_tag = ''''\<rparr>"

end
