(* ===== verification/MM_Thread_Rules.thy ===== *)
theory MM_Thread_Rules
  imports MM_Rules
begin

text \<open>
  \<open>src/MoonMon/Thread.c\<close>. The inspection tests the counters of the process termination lists,
  not those of the thread lists, and passes them on as the number of groups to search.
\<close>

definition thread_field :: "rtl \<Rightarrow> TC_INFO \<Rightarrow> CFI ptr \<Rightarrow> u32 \<Rightarrow> u32 res" where
  "thread_field R TI entry matches =
     switch (field_type (deref entry))
       [(IMAGE_FILE_NAME, Inr (CheckProcEntry R (tc_PI TI) ImageFileName entry matches)),
        (PARENT_IMAGE_FILE_NAME, Inr (CheckProcEntry R (tc_PI TI) ParentImageFileName entry matches)),
        (COMMAND_LINE, Inr (CheckProcEntry R (tc_PI TI) CommandLine entry matches)),
        (PARENT_COMMAND_LINE, Inr (CheckProcEntry R (tc_PI TI) ParentCommandLine entry matches)),
        (PWINDOW_TITLE, Inr (CheckProcEntry R (tc_PI TI) WindowTitle entry matches)),
        (PCWD, Inr (CheckProcEntry R (tc_PI TI) CWD entry matches)),
        (TARGET_IMAGE_FILE_NAME, Inr (CheckProcEntry R (tc_TPI TI) ImageFileName entry matches)),
        (TARGET_PARENT_IMAGE_FILE_NAME, Inr (CheckProcEntry R (tc_TPI TI) ParentImageFileName entry matches)),
        (TARGET_COMMAND_LINE, Inr (CheckProcEntry R (tc_TPI TI) CommandLine entry matches)),
        (TARGET_PARENT_COMMAND_LINE, Inr (CheckProcEntry R (tc_TPI TI) ParentCommandLine entry matches)),
        (TARGET_PWINDOW_TITLE, Inr (CheckProcEntry R (tc_TPI TI) WindowTitle entry matches)),
        (TARGET_PCWD, Inr (CheckProcEntry R (tc_TPI TI) CWD entry matches))] (Inr matches)"

definition thread_list :: "u32 \<Rightarrow> rule_list option" where
  "thread_list LIST_TYPE =
     switch LIST_TYPE
       [(THREAD_BLOCK_LIST, Some TBL),
        (THREAD_INCLUDE_LIST, Some TINC),
        (THREAD_EXCLUDE_LIST, Some TEXC)] None"

definition ThreadCreationListMatch :: "rtl \<Rightarrow> GC \<Rightarrow> TC_INFO \<Rightarrow> u32 \<Rightarrow> u32 \<Rightarrow> list_result res" where
  "ThreadCreationListMatch R globals TI LIST_TYPE PL_COUNT =
     list_match globals (thread_list LIST_TYPE) PL_COUNT (thread_field R TI)"

definition InspectThreadCreation :: "rtl \<Rightarrow> GC \<Rightarrow> TC_INFO \<Rightarrow> inspection res" where
  "InspectThreadCreation R globals TI =
     andthen
       (if 0 < gc_COUNT globals PTINC
        then ThreadCreationListMatch R globals TI THREAD_INCLUDE_LIST (gc_COUNT globals PTINC)
        else Inr no_match) (\<lambda>inc.
     if lr_matched inc then Inr \<lparr>in_status = 0, in_skip = False, in_id = lr_id inc\<rparr>
     else if 0 < gc_COUNT globals PTEXC then
       andthen (ThreadCreationListMatch R globals TI THREAD_EXCLUDE_LIST (gc_COUNT globals PTEXC)) (\<lambda>exc.
         if lr_matched exc then Inr \<lparr>in_status = 0, in_skip = True, in_id = lr_id exc\<rparr>
         else Inr \<lparr>in_status = 0, in_skip = False, in_id = 0\<rparr>)
     else Inr \<lparr>in_status = 0, in_skip = False, in_id = 0\<rparr>)"

text \<open>When an item of a thread rule holds.\<close>

definition thread_holds :: "rtl \<Rightarrow> TC_INFO \<Rightarrow> CFI ptr \<Rightarrow> bool" where
  "thread_holds R TI entry =
     switch (field_type (deref entry))
       [(IMAGE_FILE_NAME, proc_pred R (tc_PI TI) ImageFileName entry),
        (PARENT_IMAGE_FILE_NAME, proc_pred R (tc_PI TI) ParentImageFileName entry),
        (COMMAND_LINE, proc_pred R (tc_PI TI) CommandLine entry),
        (PARENT_COMMAND_LINE, proc_pred R (tc_PI TI) ParentCommandLine entry),
        (PWINDOW_TITLE, proc_pred R (tc_PI TI) WindowTitle entry),
        (PCWD, proc_pred R (tc_PI TI) CWD entry),
        (TARGET_IMAGE_FILE_NAME, proc_pred R (tc_TPI TI) ImageFileName entry),
        (TARGET_PARENT_IMAGE_FILE_NAME, proc_pred R (tc_TPI TI) ParentImageFileName entry),
        (TARGET_COMMAND_LINE, proc_pred R (tc_TPI TI) CommandLine entry),
        (TARGET_PARENT_COMMAND_LINE, proc_pred R (tc_TPI TI) ParentCommandLine entry),
        (TARGET_PWINDOW_TITLE, proc_pred R (tc_TPI TI) WindowTitle entry),
        (TARGET_PCWD, proc_pred R (tc_TPI TI) CWD entry)] False"

lemma thread_field_tick: "thread_field R TI entry m = Inr (tick (thread_holds R TI entry) m)"
  unfolding thread_field_def thread_holds_def by (rule switch_tick) (simp add: check_ticks)

interpretation thread_rules:
  predicate_check "thread_field R" "\<lambda>_. True" "\<lambda>_. True" "thread_holds R" for R
  by unfold_locales (rule thread_field_tick)

lemma thread_list_simps [simp]:
  "thread_list THREAD_BLOCK_LIST = Some TBL"
  "thread_list THREAD_INCLUDE_LIST = Some TINC"
  "thread_list THREAD_EXCLUDE_LIST = Some TEXC"
  by (simp_all add: thread_list_def)

lemma ThreadCreationListMatch_hit:
  assumes "thread_list t = Some l" "wf_rules G l" "0 < gc_COUNT G l"
  shows "ThreadCreationListMatch R G TI t (gc_COUNT G l) = Inr (rules_hit (thread_holds R TI) G l)"
  using assms by (simp add: ThreadCreationListMatch_def thread_rules.rules_hit_refines)

end
