(* ===== verification/MM_Module_Rules.thy ===== *)
theory MM_Module_Rules
  imports MM_Rules
begin

text \<open>
  \<open>src/MoonMon/Imageload.c\<close>.
\<close>

definition module_field :: "rtl \<Rightarrow> MODULE_INFO \<Rightarrow> CFI ptr \<Rightarrow> u32 \<Rightarrow> u32 res" where
  "module_field R MI entry matches =
     switch (field_type (deref entry))
       [(LOADED_MODULE, Inr (CheckUnicodeEntry R entry (ImageLoaded MI) matches)),
        (MODULE_PROPERTIES, Inr (CheckUlongEntry entry (ImageProperties MI) matches)),
        (IMAGE_FILE_NAME, Inr (CheckProcEntry R (mi_PI MI) ImageFileName entry matches)),
        (PARENT_IMAGE_FILE_NAME, Inr (CheckProcEntry R (mi_PI MI) ParentImageFileName entry matches)),
        (COMMAND_LINE, Inr (CheckProcEntry R (mi_PI MI) CommandLine entry matches)),
        (PARENT_COMMAND_LINE, Inr (CheckProcEntry R (mi_PI MI) ParentCommandLine entry matches)),
        (PWINDOW_TITLE, Inr (CheckProcEntry R (mi_PI MI) WindowTitle entry matches)),
        (PCWD, Inr (CheckProcEntry R (mi_PI MI) CWD entry matches))] (Inr matches)"

definition module_list :: "u32 \<Rightarrow> rule_list option" where
  "module_list LIST_TYPE =
     switch LIST_TYPE
       [(MODULE_BLOCK_LIST, Some MBL),
        (MODULE_INCLUDE_LIST, Some MINC),
        (MODULE_EXCLUDE_LIST, Some MEXC)] None"

definition ModuleLoadListMatch :: "rtl \<Rightarrow> GC \<Rightarrow> MODULE_INFO \<Rightarrow> u32 \<Rightarrow> u32 \<Rightarrow> list_result res" where
  "ModuleLoadListMatch R globals MI LIST_TYPE PL_COUNT =
     list_match globals (module_list LIST_TYPE) PL_COUNT (module_field R MI)"

definition InspectImageloadEvent :: "rtl \<Rightarrow> GC \<Rightarrow> MODULE_INFO \<Rightarrow> inspection res" where
  "InspectImageloadEvent R globals MI =
     andthen
       (if 0 < gc_COUNT globals MINC
        then ModuleLoadListMatch R globals MI MODULE_INCLUDE_LIST (gc_COUNT globals MINC)
        else Inr no_match) (\<lambda>inc.
     if lr_matched inc then Inr \<lparr>in_status = 0, in_skip = False, in_id = lr_id inc\<rparr>
     else if 0 < gc_COUNT globals MEXC then
       andthen (ModuleLoadListMatch R globals MI MODULE_EXCLUDE_LIST (gc_COUNT globals MEXC)) (\<lambda>exc.
         if lr_matched exc then Inr \<lparr>in_status = 0, in_skip = True, in_id = lr_id exc\<rparr>
         else Inr \<lparr>in_status = 0, in_skip = False, in_id = 0\<rparr>)
     else Inr \<lparr>in_status = 0, in_skip = False, in_id = 0\<rparr>)"

text \<open>When an item of a module rule holds.\<close>

definition module_holds :: "rtl \<Rightarrow> MODULE_INFO \<Rightarrow> CFI ptr \<Rightarrow> bool" where
  "module_holds R MI entry =
     switch (field_type (deref entry))
       [(LOADED_MODULE, unicode_pred R entry (ImageLoaded MI)),
        (MODULE_PROPERTIES, num_pred (<) itemUlong entry (ImageProperties MI)),
        (IMAGE_FILE_NAME, proc_pred R (mi_PI MI) ImageFileName entry),
        (PARENT_IMAGE_FILE_NAME, proc_pred R (mi_PI MI) ParentImageFileName entry),
        (COMMAND_LINE, proc_pred R (mi_PI MI) CommandLine entry),
        (PARENT_COMMAND_LINE, proc_pred R (mi_PI MI) ParentCommandLine entry),
        (PWINDOW_TITLE, proc_pred R (mi_PI MI) WindowTitle entry),
        (PCWD, proc_pred R (mi_PI MI) CWD entry)] False"

lemma module_field_tick: "module_field R MI entry m = Inr (tick (module_holds R MI entry) m)"
  unfolding module_field_def module_holds_def by (rule switch_tick) (simp add: check_ticks)

interpretation module_rules:
  predicate_check "module_field R" "\<lambda>_. True" "\<lambda>_. True" "module_holds R" for R
  by unfold_locales (rule module_field_tick)

lemma module_list_simps [simp]:
  "module_list MODULE_BLOCK_LIST = Some MBL"
  "module_list MODULE_INCLUDE_LIST = Some MINC"
  "module_list MODULE_EXCLUDE_LIST = Some MEXC"
  by (simp_all add: module_list_def)

lemma ModuleLoadListMatch_hit:
  assumes "module_list t = Some l" "wf_rules G l" "0 < gc_COUNT G l"
  shows "ModuleLoadListMatch R G MI t (gc_COUNT G l) = Inr (rules_hit (module_holds R MI) G l)"
  using assms by (simp add: ModuleLoadListMatch_def module_rules.rules_hit_refines)

lemma imageload_decides:
  assumes "wf_rules G MINC" "wf_rules G MEXC"
  shows "InspectImageloadEvent R G MI =
    Inr (decide_log (rules_hit (module_holds R MI) G MINC) (rules_hit (module_holds R MI) G MEXC))"
  using assms
  by (simp add: InspectImageloadEvent_def ModuleLoadListMatch_hit decide_log_simps word_gt_0)

end
