(* ===== verification/MM_Registry_Rules.thy ===== *)
theory MM_Registry_Rules
  imports MM_Rules
begin

text \<open>
  \<open>src/MoonMon/Registry.c\<close>.
\<close>

definition registry_field :: "rtl \<Rightarrow> REG_INFO \<Rightarrow> CFI ptr \<Rightarrow> u32 \<Rightarrow> u32 res" where
  "registry_field R RI entry matches =
     switch (field_type (deref entry))
       [(REG_OP, Inr (CheckUlongEntry entry (notifyClass RI) matches)),
        (REG_DATA_TYPE, Inr (CheckUlongEntry entry (ri_DataType RI) matches)),
        (REG_KEY, Inr (CheckUnicodeEntry R entry (RegistryKey RI) matches)),
        (REG_VALUE_NAME, Inr (CheckUnicodeEntry R entry (RegistryValueName RI) matches)),
        (REG_KEY_NEW, Inr (CheckUnicodeEntry R entry (RegistryKeyNew RI) matches)),
        (REG_OLD_FILE_NAME, Inr (CheckUnicodeEntry R entry (OldFilename RI) matches)),
        (REG_NEW_FILE_NAME, Inr (CheckUnicodeEntry R entry (NewFileName RI) matches)),
        (IMAGE_FILE_NAME, Inr (CheckProcEntry R (ri_PI RI) ImageFileName entry matches)),
        (PARENT_IMAGE_FILE_NAME, Inr (CheckProcEntry R (ri_PI RI) ParentImageFileName entry matches)),
        (COMMAND_LINE, Inr (CheckProcEntry R (ri_PI RI) CommandLine entry matches)),
        (PARENT_COMMAND_LINE, Inr (CheckProcEntry R (ri_PI RI) ParentCommandLine entry matches)),
        (PWINDOW_TITLE, Inr (CheckProcEntry R (ri_PI RI) WindowTitle entry matches)),
        (PCWD, Inr (CheckProcEntry R (ri_PI RI) CWD entry matches)),
        (TARGET_IMAGE_FILE_NAME, Inr (CheckProcEntry R (ri_PI RI) ImageFileName entry matches)),
        (REG_DATA, Inr matches)] (Inr matches)"

definition registry_list :: "u32 \<Rightarrow> rule_list option" where
  "registry_list LIST_TYPE =
     switch LIST_TYPE
       [(REGISTRY_BLOCK_LIST, Some RBL),
        (REGISTRY_INCLUDE_LIST, Some RINC),
        (REGISTRY_EXCLUDE_LIST, Some REXC)] None"

definition RegistryEventListMatch :: "rtl \<Rightarrow> GC \<Rightarrow> REG_INFO \<Rightarrow> u32 \<Rightarrow> u32 \<Rightarrow> list_result res" where
  "RegistryEventListMatch R globals RI LIST_TYPE PL_COUNT =
     list_match globals (registry_list LIST_TYPE) PL_COUNT (registry_field R RI)"

definition InspectRegistryEvent :: "rtl \<Rightarrow> GC \<Rightarrow> REG_INFO \<Rightarrow> inspection res" where
  "InspectRegistryEvent R globals RI =
     andthen
       (if 0 < gc_COUNT globals RBL then
          andthen (RegistryEventListMatch R globals RI REGISTRY_BLOCK_LIST (gc_COUNT globals RBL)) (\<lambda>r.
            if lr_matched r
            then Inr (if lr_actions r = 0 then STATUS_ACCESS_DENIED else lr_actions r, lr_id r)
            else Inr (STATUS_SUCCESS, 0))
        else Inr (STATUS_SUCCESS, 0)) (\<lambda>(status, match_id).
     andthen
       (if 0 < gc_COUNT globals RINC
        then RegistryEventListMatch R globals RI REGISTRY_INCLUDE_LIST (gc_COUNT globals RINC)
        else Inr no_match) (\<lambda>inc.
     if lr_matched inc
     then Inr \<lparr>in_status = status, in_skip = False,
               in_id = if match_id = 0 then lr_id inc else match_id\<rparr>
     else if 0 < gc_COUNT globals REXC \<and> match_id = 0 then
       andthen (RegistryEventListMatch R globals RI REGISTRY_EXCLUDE_LIST (gc_COUNT globals REXC)) (\<lambda>exc.
         if lr_matched exc then Inr \<lparr>in_status = status, in_skip = True, in_id = lr_id exc\<rparr>
         else Inr \<lparr>in_status = status, in_skip = False, in_id = match_id\<rparr>)
     else Inr \<lparr>in_status = status, in_skip = False, in_id = match_id\<rparr>))"

text \<open>When an item of a registry rule holds.\<close>

definition registry_holds :: "rtl \<Rightarrow> REG_INFO \<Rightarrow> CFI ptr \<Rightarrow> bool" where
  "registry_holds R RI entry =
     switch (field_type (deref entry))
       [(REG_OP, num_pred (<) itemUlong entry (notifyClass RI)),
        (REG_DATA_TYPE, num_pred (<) itemUlong entry (ri_DataType RI)),
        (REG_KEY, unicode_pred R entry (RegistryKey RI)),
        (REG_VALUE_NAME, unicode_pred R entry (RegistryValueName RI)),
        (REG_KEY_NEW, unicode_pred R entry (RegistryKeyNew RI)),
        (REG_OLD_FILE_NAME, unicode_pred R entry (OldFilename RI)),
        (REG_NEW_FILE_NAME, unicode_pred R entry (NewFileName RI)),
        (IMAGE_FILE_NAME, proc_pred R (ri_PI RI) ImageFileName entry),
        (PARENT_IMAGE_FILE_NAME, proc_pred R (ri_PI RI) ParentImageFileName entry),
        (COMMAND_LINE, proc_pred R (ri_PI RI) CommandLine entry),
        (PARENT_COMMAND_LINE, proc_pred R (ri_PI RI) ParentCommandLine entry),
        (PWINDOW_TITLE, proc_pred R (ri_PI RI) WindowTitle entry),
        (PCWD, proc_pred R (ri_PI RI) CWD entry),
        (TARGET_IMAGE_FILE_NAME, proc_pred R (ri_PI RI) ImageFileName entry),
        (REG_DATA, False)] False"

lemma registry_field_tick: "registry_field R RI entry m = Inr (tick (registry_holds R RI entry) m)"
  unfolding registry_field_def registry_holds_def by (rule switch_tick) (simp add: check_ticks)

interpretation registry_rules:
  predicate_check "registry_field R" "\<lambda>_. True" "\<lambda>_. True" "registry_holds R" for R
  by unfold_locales (rule registry_field_tick)

lemma registry_list_simps [simp]:
  "registry_list REGISTRY_BLOCK_LIST = Some RBL"
  "registry_list REGISTRY_INCLUDE_LIST = Some RINC"
  "registry_list REGISTRY_EXCLUDE_LIST = Some REXC"
  by (simp_all add: registry_list_def)

lemma RegistryEventListMatch_hit:
  assumes "registry_list t = Some l" "wf_rules G l" "0 < gc_COUNT G l"
  shows "RegistryEventListMatch R G RI t (gc_COUNT G l) = Inr (rules_hit (registry_holds R RI) G l)"
  using assms by (simp add: RegistryEventListMatch_def registry_rules.rules_hit_refines)

lemma registry_decides:
  assumes "wf_rules G RBL" "wf_rules G RINC" "wf_rules G REXC"
  shows "InspectRegistryEvent R G RI =
    Inr (decide_block (rules_hit (registry_holds R RI) G RBL)
      (rules_hit (registry_holds R RI) G RINC) (rules_hit (registry_holds R RI) G REXC))"
proof -
  let ?hit = "rules_hit (registry_holds R RI) G"
  have blk: "(if 0 < gc_COUNT G RBL then
          andthen (RegistryEventListMatch R G RI REGISTRY_BLOCK_LIST (gc_COUNT G RBL)) (\<lambda>r.
            if lr_matched r
            then Inr (if lr_actions r = 0 then STATUS_ACCESS_DENIED else lr_actions r, lr_id r)
            else Inr (STATUS_SUCCESS, 0))
        else Inr (STATUS_SUCCESS, 0)) = Inr (block_status (?hit RBL), lr_id (?hit RBL))"
    using assms(1) by (simp add: RegistryEventListMatch_hit block_status_def word_gt_0)
  show ?thesis
    unfolding InspectRegistryEvent_def blk andthen_simps prod.case
    using assms(2,3) by (simp add: RegistryEventListMatch_hit decide_block_def word_gt_0)
qed

end
