(* ===== verification/MM_File_Rules.thy ===== *)
theory MM_File_Rules
  imports MM_Rules
begin

text \<open>
  \<open>src/MoonMon/FS.c\<close>: the rules on file creation and on changes of file information. In the
  second, the case \<open>MM_FILE_DELETION\<close> compares the match counter, not the event, with the item.
\<close>

section \<open>File creation\<close>

definition file_create_field :: "rtl \<Rightarrow> FILE_INFO \<Rightarrow> CFI ptr \<Rightarrow> u32 \<Rightarrow> u32 res" where
  "file_create_field R FI entry matches =
     switch (field_type (deref entry))
       [(MM_FILE_FLAGS, Inr (CheckUlongEntry entry (CreateOptions FI) matches)),
        (MM_FILE_NAME, Inr (CheckUnicodeEntry R entry (fi_Name FI) matches)),
        (MM_FILE_VOLUME, Inr (CheckUnicodeEntry R entry (fi_Volume FI) matches)),
        (MM_FILE_SHARE, Inr (CheckUnicodeEntry R entry (fi_Share FI) matches)),
        (MM_FILE_EXTENSION, Inr (CheckUnicodeEntry R entry (fi_Extension FI) matches)),
        (MM_FILE_STREAM, Inr (CheckUnicodeEntry R entry (fi_Stream FI) matches)),
        (MM_FILE_FINAL_COMPONENT, Inr (CheckUnicodeEntry R entry (fi_FinalComponent FI) matches)),
        (MM_FILE_PARENT_DIR, Inr (CheckUnicodeEntry R entry (fi_ParentDir FI) matches)),
        (IMAGE_FILE_NAME, Inr (CheckProcEntry R (fi_PI FI) ImageFileName entry matches)),
        (PARENT_IMAGE_FILE_NAME, Inr (CheckProcEntry R (fi_PI FI) ParentImageFileName entry matches)),
        (COMMAND_LINE, Inr (CheckProcEntry R (fi_PI FI) CommandLine entry matches)),
        (PARENT_COMMAND_LINE, Inr (CheckProcEntry R (fi_PI FI) ParentCommandLine entry matches)),
        (PWINDOW_TITLE, Inr (CheckProcEntry R (fi_PI FI) WindowTitle entry matches)),
        (PCWD, Inr (CheckProcEntry R (fi_PI FI) CWD entry matches)),
        (TARGET_IMAGE_FILE_NAME, Inr (CheckProcEntry R (fi_PI FI) ImageFileName entry matches))] (Inr matches)"

definition file_create_list :: "u32 \<Rightarrow> rule_list option" where
  "file_create_list LIST_TYPE =
     switch LIST_TYPE
       [(FILE_CREATE_BLOCK_LIST, Some FCBL),
        (FILE_CREATE_INCLUDE_LIST, Some FCINC),
        (FILE_CREATE_EXCLUDE_LIST, Some FCEXC)] None"

definition FileCreateEventListMatch :: "rtl \<Rightarrow> GC \<Rightarrow> FILE_INFO \<Rightarrow> u32 \<Rightarrow> u32 \<Rightarrow> list_result res" where
  "FileCreateEventListMatch R globals FI LIST_TYPE PL_COUNT =
     list_match globals (file_create_list LIST_TYPE) PL_COUNT (file_create_field R FI)"

definition InspectFsCreateEvent :: "rtl \<Rightarrow> GC \<Rightarrow> FILE_INFO \<Rightarrow> inspection res" where
  "InspectFsCreateEvent R globals FI =
     andthen
       (if 0 < gc_COUNT globals FCBL then
          andthen (FileCreateEventListMatch R globals FI FILE_CREATE_BLOCK_LIST (gc_COUNT globals FCBL)) (\<lambda>r.
            if lr_matched r
            then Inr (if lr_actions r = 0 then STATUS_ACCESS_DENIED else lr_actions r, lr_id r)
            else Inr (STATUS_SUCCESS, 0))
        else Inr (STATUS_SUCCESS, 0)) (\<lambda>(status, match_id).
     andthen
       (if 0 < gc_COUNT globals FCINC
        then FileCreateEventListMatch R globals FI FILE_CREATE_INCLUDE_LIST (gc_COUNT globals FCINC)
        else Inr no_match) (\<lambda>inc.
     if lr_matched inc
     then Inr \<lparr>in_status = status, in_skip = False,
               in_id = if match_id = 0 then lr_id inc else match_id\<rparr>
     else if 0 < gc_COUNT globals FCEXC \<and> match_id = 0 then
       andthen (FileCreateEventListMatch R globals FI FILE_CREATE_EXCLUDE_LIST (gc_COUNT globals FCEXC)) (\<lambda>exc.
         if lr_matched exc then Inr \<lparr>in_status = status, in_skip = True, in_id = lr_id exc\<rparr>
         else Inr \<lparr>in_status = status, in_skip = False, in_id = match_id\<rparr>)
     else Inr \<lparr>in_status = status, in_skip = False, in_id = match_id\<rparr>))"

text \<open>When an item of a file creation rule holds.\<close>

definition file_create_holds :: "rtl \<Rightarrow> FILE_INFO \<Rightarrow> CFI ptr \<Rightarrow> bool" where
  "file_create_holds R FI entry =
     switch (field_type (deref entry))
       [(MM_FILE_FLAGS, num_pred (<) itemUlong entry (CreateOptions FI)),
        (MM_FILE_NAME, unicode_pred R entry (fi_Name FI)),
        (MM_FILE_VOLUME, unicode_pred R entry (fi_Volume FI)),
        (MM_FILE_SHARE, unicode_pred R entry (fi_Share FI)),
        (MM_FILE_EXTENSION, unicode_pred R entry (fi_Extension FI)),
        (MM_FILE_STREAM, unicode_pred R entry (fi_Stream FI)),
        (MM_FILE_FINAL_COMPONENT, unicode_pred R entry (fi_FinalComponent FI)),
        (MM_FILE_PARENT_DIR, unicode_pred R entry (fi_ParentDir FI)),
        (IMAGE_FILE_NAME, proc_pred R (fi_PI FI) ImageFileName entry),
        (PARENT_IMAGE_FILE_NAME, proc_pred R (fi_PI FI) ParentImageFileName entry),
        (COMMAND_LINE, proc_pred R (fi_PI FI) CommandLine entry),
        (PARENT_COMMAND_LINE, proc_pred R (fi_PI FI) ParentCommandLine entry),
        (PWINDOW_TITLE, proc_pred R (fi_PI FI) WindowTitle entry),
        (PCWD, proc_pred R (fi_PI FI) CWD entry),
        (TARGET_IMAGE_FILE_NAME, proc_pred R (fi_PI FI) ImageFileName entry)] False"

lemma file_create_field_tick: "file_create_field R FI entry m = Inr (tick (file_create_holds R FI entry) m)"
  unfolding file_create_field_def file_create_holds_def by (rule switch_tick) (simp add: check_ticks)

interpretation file_create_rules:
  predicate_check "file_create_field R" "\<lambda>_. True" "\<lambda>_. True" "file_create_holds R" for R
  by unfold_locales (rule file_create_field_tick)

lemma file_create_list_simps [simp]:
  "file_create_list FILE_CREATE_BLOCK_LIST = Some FCBL"
  "file_create_list FILE_CREATE_INCLUDE_LIST = Some FCINC"
  "file_create_list FILE_CREATE_EXCLUDE_LIST = Some FCEXC"
  by (simp_all add: file_create_list_def)

lemma FileCreateEventListMatch_hit:
  assumes "file_create_list t = Some l" "wf_rules G l" "0 < gc_COUNT G l"
  shows "FileCreateEventListMatch R G FI t (gc_COUNT G l) = Inr (rules_hit (file_create_holds R FI) G l)"
  using assms by (simp add: FileCreateEventListMatch_def file_create_rules.rules_hit_refines)

lemma file_create_decides:
  assumes "wf_rules G FCBL" "wf_rules G FCINC" "wf_rules G FCEXC"
  shows "InspectFsCreateEvent R G FI =
    Inr (decide_block (rules_hit (file_create_holds R FI) G FCBL)
      (rules_hit (file_create_holds R FI) G FCINC) (rules_hit (file_create_holds R FI) G FCEXC))"
proof -
  let ?hit = "rules_hit (file_create_holds R FI) G"
  have blk: "(if 0 < gc_COUNT G FCBL then
          andthen (FileCreateEventListMatch R G FI FILE_CREATE_BLOCK_LIST (gc_COUNT G FCBL)) (\<lambda>r.
            if lr_matched r
            then Inr (if lr_actions r = 0 then STATUS_ACCESS_DENIED else lr_actions r, lr_id r)
            else Inr (STATUS_SUCCESS, 0))
        else Inr (STATUS_SUCCESS, 0)) = Inr (block_status (?hit FCBL), lr_id (?hit FCBL))"
    using assms(1) by (simp add: FileCreateEventListMatch_hit block_status_def word_gt_0)
  show ?thesis
    unfolding InspectFsCreateEvent_def blk andthen_simps prod.case
    using assms(2,3) by (simp add: FileCreateEventListMatch_hit decide_block_def word_gt_0)
qed

section \<open>Changes of file information\<close>

definition file_set_field :: "rtl \<Rightarrow> FILE_SET_INFO \<Rightarrow> CFI ptr \<Rightarrow> u32 \<Rightarrow> u32 res" where
  "file_set_field R FI entry matches =
     switch (field_type (deref entry))
       [(MM_FILE_OPERATION, Inr (CheckUlongEntry entry (fs_Operation FI) matches)),
        (MM_FILE_NAME, Inr (CheckUnicodeEntry R entry (fs_Name FI) matches)),
        (MM_FILE_NEW_NAME, Inr (CheckUnicodeEntry R entry (NewName FI) matches)),
        (MM_FILE_VOLUME, Inr (CheckUnicodeEntry R entry (fs_Volume FI) matches)),
        (MM_FILE_SHARE, Inr (CheckUnicodeEntry R entry (fs_Share FI) matches)),
        (MM_FILE_EXTENSION, Inr (CheckUnicodeEntry R entry (fs_Extension FI) matches)),
        (MM_FILE_STREAM, Inr (CheckUnicodeEntry R entry (fs_Stream FI) matches)),
        (MM_FILE_FINAL_COMPONENT, Inr (CheckUnicodeEntry R entry (fs_FinalComponent FI) matches)),
        (MM_FILE_PARENT_DIR, Inr (CheckUnicodeEntry R entry (fs_ParentDir FI) matches)),
        (MM_FILE_CREATION_TIME, Inr (CheckLonglongEntry entry (CreationTime FI) matches)),
        (MM_FILE_CHANGE_TIME, Inr (CheckLonglongEntry entry (ChangeTime FI) matches)),
        (MM_FILE_ACCESS_FLAGS, Inr (CheckUlongEntry entry (AccessFlags FI) matches)),
        (MM_FILE_NETWORK_PROTOCOL, Inr (CheckUlongEntry entry (Protocol FI) matches)),
        (MM_FILE_NETWORK_PROTOCOL_VERSION_MAJOR, Inr (CheckUshortEntry entry (ProtocolMajorVersion FI) matches)),
        (MM_FILE_NETWORK_PROTOCOL_VERSION_MINOR, Inr (CheckUshortEntry entry (ProtocolMinorVersion FI) matches)),
        (MM_NAMED_PIPE_TYPE, Inr (CheckUlongEntry entry (NamedPipeType FI) matches)),
        (MM_NAMED_PIPE_CONFIG, Inr (CheckUlongEntry entry (NamedPipeConfiguration FI) matches)),
        (MM_NAMED_PIPE_STATE, Inr (CheckUlongEntry entry (NamedPipeState FI) matches)),
        (MM_NAMED_PIPE_END, Inr (CheckUlongEntry entry (NamedPipeEnd FI) matches)),
        (MM_FILE_DELETION, Inr (tick (matches = of_bool (itemBoolean (deref entry))) matches)),
        (IMAGE_FILE_NAME, Inr (CheckProcEntry R (fs_PI FI) ImageFileName entry matches)),
        (PARENT_IMAGE_FILE_NAME, Inr (CheckProcEntry R (fs_PI FI) ParentImageFileName entry matches)),
        (COMMAND_LINE, Inr (CheckProcEntry R (fs_PI FI) CommandLine entry matches)),
        (PARENT_COMMAND_LINE, Inr (CheckProcEntry R (fs_PI FI) ParentCommandLine entry matches)),
        (PWINDOW_TITLE, Inr (CheckProcEntry R (fs_PI FI) WindowTitle entry matches)),
        (PCWD, Inr (CheckProcEntry R (fs_PI FI) CWD entry matches)),
        (TARGET_IMAGE_FILE_NAME, Inr (CheckProcEntry R (fs_PI FI) ImageFileName entry matches))] (Inr matches)"

definition file_set_list :: "u32 \<Rightarrow> rule_list option" where
  "file_set_list LIST_TYPE =
     switch LIST_TYPE
       [(FILE_SET_INFO_BLOCK_LIST, Some FSBL),
        (FILE_SET_INFO_INCLUDE_LIST, Some FSINC),
        (FILE_SET_INFO_EXCLUDE_LIST, Some FSEXC)] None"

definition FileSetEventListMatch :: "rtl \<Rightarrow> GC \<Rightarrow> FILE_SET_INFO \<Rightarrow> u32 \<Rightarrow> u32 \<Rightarrow> list_result res" where
  "FileSetEventListMatch R globals FI LIST_TYPE PL_COUNT =
     list_match globals (file_set_list LIST_TYPE) PL_COUNT (file_set_field R FI)"

definition InspectFsSetEvent :: "rtl \<Rightarrow> GC \<Rightarrow> FILE_SET_INFO \<Rightarrow> inspection res" where
  "InspectFsSetEvent R globals FI =
     andthen
       (if 0 < gc_COUNT globals FSBL then
          andthen (FileSetEventListMatch R globals FI FILE_SET_INFO_BLOCK_LIST (gc_COUNT globals FSBL)) (\<lambda>r.
            if lr_matched r
            then Inr (if lr_actions r = 0 then STATUS_ACCESS_DENIED else lr_actions r, lr_id r)
            else Inr (STATUS_SUCCESS, 0))
        else Inr (STATUS_SUCCESS, 0)) (\<lambda>(status, match_id).
     andthen
       (if 0 < gc_COUNT globals FSINC
        then FileSetEventListMatch R globals FI FILE_SET_INFO_INCLUDE_LIST (gc_COUNT globals FSINC)
        else Inr no_match) (\<lambda>inc.
     if lr_matched inc
     then Inr \<lparr>in_status = status, in_skip = False,
               in_id = if match_id = 0 then lr_id inc else match_id\<rparr>
     else if 0 < gc_COUNT globals FSEXC \<and> match_id = 0 then
       andthen (FileSetEventListMatch R globals FI FILE_SET_INFO_EXCLUDE_LIST (gc_COUNT globals FSEXC)) (\<lambda>exc.
         if lr_matched exc then Inr \<lparr>in_status = status, in_skip = True, in_id = lr_id exc\<rparr>
         else Inr \<lparr>in_status = status, in_skip = False, in_id = match_id\<rparr>)
     else Inr \<lparr>in_status = status, in_skip = False, in_id = match_id\<rparr>))"

text \<open>When an item moves the counter that stands at \<open>matches\<close>.\<close>

definition file_set_step :: "rtl \<Rightarrow> FILE_SET_INFO \<Rightarrow> CFI ptr \<Rightarrow> u32 \<Rightarrow> bool" where
  "file_set_step R FI entry matches =
     switch (field_type (deref entry))
       [(MM_FILE_OPERATION, num_pred (<) itemUlong entry (fs_Operation FI)),
        (MM_FILE_NAME, unicode_pred R entry (fs_Name FI)),
        (MM_FILE_NEW_NAME, unicode_pred R entry (NewName FI)),
        (MM_FILE_VOLUME, unicode_pred R entry (fs_Volume FI)),
        (MM_FILE_SHARE, unicode_pred R entry (fs_Share FI)),
        (MM_FILE_EXTENSION, unicode_pred R entry (fs_Extension FI)),
        (MM_FILE_STREAM, unicode_pred R entry (fs_Stream FI)),
        (MM_FILE_FINAL_COMPONENT, unicode_pred R entry (fs_FinalComponent FI)),
        (MM_FILE_PARENT_DIR, unicode_pred R entry (fs_ParentDir FI)),
        (MM_FILE_CREATION_TIME, num_pred (<s) itemLonglong entry (CreationTime FI)),
        (MM_FILE_CHANGE_TIME, num_pred (<s) itemLonglong entry (ChangeTime FI)),
        (MM_FILE_ACCESS_FLAGS, num_pred (<) itemUlong entry (AccessFlags FI)),
        (MM_FILE_NETWORK_PROTOCOL, num_pred (<) itemUlong entry (Protocol FI)),
        (MM_FILE_NETWORK_PROTOCOL_VERSION_MAJOR, num_pred (<) itemUshort entry (ProtocolMajorVersion FI)),
        (MM_FILE_NETWORK_PROTOCOL_VERSION_MINOR, num_pred (<) itemUshort entry (ProtocolMinorVersion FI)),
        (MM_NAMED_PIPE_TYPE, num_pred (<) itemUlong entry (NamedPipeType FI)),
        (MM_NAMED_PIPE_CONFIG, num_pred (<) itemUlong entry (NamedPipeConfiguration FI)),
        (MM_NAMED_PIPE_STATE, num_pred (<) itemUlong entry (NamedPipeState FI)),
        (MM_NAMED_PIPE_END, num_pred (<) itemUlong entry (NamedPipeEnd FI)),
        (MM_FILE_DELETION, matches = of_bool (itemBoolean (deref entry))),
        (IMAGE_FILE_NAME, proc_pred R (fs_PI FI) ImageFileName entry),
        (PARENT_IMAGE_FILE_NAME, proc_pred R (fs_PI FI) ParentImageFileName entry),
        (COMMAND_LINE, proc_pred R (fs_PI FI) CommandLine entry),
        (PARENT_COMMAND_LINE, proc_pred R (fs_PI FI) ParentCommandLine entry),
        (PWINDOW_TITLE, proc_pred R (fs_PI FI) WindowTitle entry),
        (PCWD, proc_pred R (fs_PI FI) CWD entry),
        (TARGET_IMAGE_FILE_NAME, proc_pred R (fs_PI FI) ImageFileName entry)] False"

lemma file_set_field_tick:
  "file_set_field R FI entry m = Inr (tick (file_set_step R FI entry m) m)"
  unfolding file_set_field_def file_set_step_def by (rule switch_tick) (simp add: check_ticks)

interpretation file_set_counts:
  counting_check "file_set_field R" "\<lambda>_. True" "\<lambda>_. True" "file_set_step R" for R
  by unfold_locales (rule file_set_field_tick)

text \<open>On items other than deletions, a condition on the event as in the other functions.\<close>

definition file_set_holds :: "rtl \<Rightarrow> FILE_SET_INFO \<Rightarrow> CFI ptr \<Rightarrow> bool" where
  "file_set_holds R FI entry =
     switch (field_type (deref entry))
       [(MM_FILE_OPERATION, num_pred (<) itemUlong entry (fs_Operation FI)),
        (MM_FILE_NAME, unicode_pred R entry (fs_Name FI)),
        (MM_FILE_NEW_NAME, unicode_pred R entry (NewName FI)),
        (MM_FILE_VOLUME, unicode_pred R entry (fs_Volume FI)),
        (MM_FILE_SHARE, unicode_pred R entry (fs_Share FI)),
        (MM_FILE_EXTENSION, unicode_pred R entry (fs_Extension FI)),
        (MM_FILE_STREAM, unicode_pred R entry (fs_Stream FI)),
        (MM_FILE_FINAL_COMPONENT, unicode_pred R entry (fs_FinalComponent FI)),
        (MM_FILE_PARENT_DIR, unicode_pred R entry (fs_ParentDir FI)),
        (MM_FILE_CREATION_TIME, num_pred (<s) itemLonglong entry (CreationTime FI)),
        (MM_FILE_CHANGE_TIME, num_pred (<s) itemLonglong entry (ChangeTime FI)),
        (MM_FILE_ACCESS_FLAGS, num_pred (<) itemUlong entry (AccessFlags FI)),
        (MM_FILE_NETWORK_PROTOCOL, num_pred (<) itemUlong entry (Protocol FI)),
        (MM_FILE_NETWORK_PROTOCOL_VERSION_MAJOR, num_pred (<) itemUshort entry (ProtocolMajorVersion FI)),
        (MM_FILE_NETWORK_PROTOCOL_VERSION_MINOR, num_pred (<) itemUshort entry (ProtocolMinorVersion FI)),
        (MM_NAMED_PIPE_TYPE, num_pred (<) itemUlong entry (NamedPipeType FI)),
        (MM_NAMED_PIPE_CONFIG, num_pred (<) itemUlong entry (NamedPipeConfiguration FI)),
        (MM_NAMED_PIPE_STATE, num_pred (<) itemUlong entry (NamedPipeState FI)),
        (MM_NAMED_PIPE_END, num_pred (<) itemUlong entry (NamedPipeEnd FI)),
        (IMAGE_FILE_NAME, proc_pred R (fs_PI FI) ImageFileName entry),
        (PARENT_IMAGE_FILE_NAME, proc_pred R (fs_PI FI) ParentImageFileName entry),
        (COMMAND_LINE, proc_pred R (fs_PI FI) CommandLine entry),
        (PARENT_COMMAND_LINE, proc_pred R (fs_PI FI) ParentCommandLine entry),
        (PWINDOW_TITLE, proc_pred R (fs_PI FI) WindowTitle entry),
        (PCWD, proc_pred R (fs_PI FI) CWD entry),
        (TARGET_IMAGE_FILE_NAME, proc_pred R (fs_PI FI) ImageFileName entry)] False"

definition not_deletion :: "CFI ptr \<Rightarrow> bool" where
  "not_deletion e \<longleftrightarrow> field_type (deref e) \<noteq> MM_FILE_DELETION"

lemma file_set_field_holds:
  assumes "not_deletion entry"
  shows "file_set_field R FI entry m = Inr (tick (file_set_holds R FI entry) m)"
proof -
  have "file_set_step R FI entry m = file_set_holds R FI entry"
    using assms unfolding file_set_step_def file_set_holds_def not_deletion_def by simp
  then show ?thesis by (simp add: file_set_field_tick)
qed

interpretation file_set_rules:
  predicate_check "file_set_field R" "\<lambda>_. True" not_deletion "file_set_holds R" for R
  by unfold_locales (rule file_set_field_holds)

text \<open>With an item on the deletion flag the position in the rule decides; the flag of the event is never read.\<close>

lemma file_set_step_cases:
  "file_set_step R FI entry m \<longleftrightarrow>
     (if not_deletion entry then file_set_holds R FI entry else m = of_bool (itemBoolean (deref entry)))"
  unfolding file_set_step_def file_set_holds_def not_deletion_def by simp

lemma file_set_field_DeleteFile: "file_set_field R (FI\<lparr>DeleteFile := b\<rparr>) = file_set_field R FI"
  by (intro ext, cases FI) (simp only: file_set_field_def FILE_SET_INFO.simps)

definition no_deletions :: "GC \<Rightarrow> rule_list \<Rightarrow> bool" where
  "no_deletions G l \<longleftrightarrow> fit_list not_deletion (deref (gc_list G l)) (unat (gc_COUNT G l))"

lemma file_set_list_simps [simp]:
  "file_set_list FILE_SET_INFO_BLOCK_LIST = Some FSBL"
  "file_set_list FILE_SET_INFO_INCLUDE_LIST = Some FSINC"
  "file_set_list FILE_SET_INFO_EXCLUDE_LIST = Some FSEXC"
  by (simp_all add: file_set_list_def)

lemma FileSetEventListMatch_hit:
  assumes "file_set_list t = Some l" "wf_rules G l" "0 < gc_COUNT G l" "no_deletions G l"
  shows "FileSetEventListMatch R G FI t (gc_COUNT G l) = Inr (rules_hit (file_set_holds R FI) G l)"
  using assms by (simp add: FileSetEventListMatch_def file_set_rules.rules_hit_refines no_deletions_def)

lemma file_set_decides:
  assumes "wf_rules G FSBL" "wf_rules G FSINC" "wf_rules G FSEXC"
    and "no_deletions G FSBL" "no_deletions G FSINC" "no_deletions G FSEXC"
  shows "InspectFsSetEvent R G FI =
    Inr (decide_block (rules_hit (file_set_holds R FI) G FSBL)
      (rules_hit (file_set_holds R FI) G FSINC) (rules_hit (file_set_holds R FI) G FSEXC))"
proof -
  let ?hit = "rules_hit (file_set_holds R FI) G"
  have blk: "(if 0 < gc_COUNT G FSBL then
          andthen (FileSetEventListMatch R G FI FILE_SET_INFO_BLOCK_LIST (gc_COUNT G FSBL)) (\<lambda>r.
            if lr_matched r
            then Inr (if lr_actions r = 0 then STATUS_ACCESS_DENIED else lr_actions r, lr_id r)
            else Inr (STATUS_SUCCESS, 0))
        else Inr (STATUS_SUCCESS, 0)) = Inr (block_status (?hit FSBL), lr_id (?hit FSBL))"
    using assms(1,4) by (simp add: FileSetEventListMatch_hit block_status_def word_gt_0)
  show ?thesis
    unfolding InspectFsSetEvent_def blk andthen_simps prod.case
    using assms(2,3,5,6) by (simp add: FileSetEventListMatch_hit decide_block_def word_gt_0)
qed

end
