(* ===== verification/MM_Network_Rules.thy ===== *)
theory MM_Network_Rules
  imports MM_Rules
begin

text \<open>
  The rules on network events: \<open>NetworkEventListMatch\<close> and \<open>InspectNetworkEvent\<close> of
  \<open>src/MoonMon/WFP.c\<close>.
\<close>

definition network_field :: "rtl \<Rightarrow> bool \<Rightarrow> WFP_INFO \<Rightarrow> CFI ptr \<Rightarrow> u32 \<Rightarrow> u32 res" where
  "network_field R littleEndian NI entry matches =
     switch (field_type (deref entry))
       [(MM_WFP_LAYER, Inr (CheckUshortEntry entry (wfp_layer NI) matches)),
        (MM_NET_DIRECTION, Inr (CheckInt8Entry entry (Direction NI) matches)),
        (MM_NET_IP_PROTOCOL, Inr (CheckUint8Entry entry (ipProtocol NI) matches)),
        (MM_NET_ADDRESS_TYPE, Inr (CheckUint8Entry entry (addrType NI) matches)),
        (MM_NET_PROMISCUOUS, Inr (CheckUint8Entry entry (promiscuous NI) matches)),
        (MM_NET_INTERFACE_TYPE, Inr (CheckUlongEntry entry (interfaceType NI) matches)),
        (MM_NET_INTERFACE, Inr (CheckLonglongEntry entry (wfp_interface NI) matches)),
        (MM_NET_LOCAL_PORT, Inr (CheckUshortEntry entry (localPort NI) matches)),
        (MM_NET_REMOTE_PORT, Inr (CheckUshortEntry entry (remotePort NI) matches)),
        (MM_NET_LOCAL_IPV4_ADDR, Inr (CheckIpv4 entry (localIpv4Addr NI) littleEndian matches)),
        (MM_NET_REMOTE_IPV4_ADDR, Inr (CheckIpv4 entry (remoteIpv4Addr NI) littleEndian matches)),
        (MM_NET_LOCAL_IPV6_ADDR, CheckIpv6 entry (localIpv6Addr NI) matches),
        (MM_NET_REMOTE_IPV6_ADDR, CheckIpv6 entry (remoteIpv6Addr NI) matches),
        (IMAGE_FILE_NAME, Inr (CheckProcEntry R (wfp_PI NI) ImageFileName entry matches)),
        (PARENT_IMAGE_FILE_NAME, Inr (CheckProcEntry R (wfp_PI NI) ParentImageFileName entry matches)),
        (COMMAND_LINE, Inr (CheckProcEntry R (wfp_PI NI) CommandLine entry matches)),
        (PARENT_COMMAND_LINE, Inr (CheckProcEntry R (wfp_PI NI) ParentCommandLine entry matches)),
        (PWINDOW_TITLE, Inr (CheckProcEntry R (wfp_PI NI) WindowTitle entry matches)),
        (PCWD, Inr (CheckProcEntry R (wfp_PI NI) CWD entry matches)),
        (TARGET_IMAGE_FILE_NAME, Inr (CheckProcEntry R (wfp_PI NI) ImageFileName entry matches))] (Inr matches)"

definition network_list :: "u32 \<Rightarrow> rule_list option" where
  "network_list LIST_TYPE =
     switch LIST_TYPE
       [(WFP_BLOCK_LIST, Some WBL),
        (WFP_INCLUDE_LIST, Some WINC),
        (WFP_EXCLUDE_LIST, Some WEXC)] None"

definition NetworkEventListMatch :: "rtl \<Rightarrow> GC \<Rightarrow> WFP_INFO \<Rightarrow> bool \<Rightarrow> u32 \<Rightarrow> u32 \<Rightarrow> list_result res" where
  "NetworkEventListMatch R globals NI littleEndian LIST_TYPE PL_COUNT =
     list_match globals (network_list LIST_TYPE) PL_COUNT (network_field R littleEndian NI)"

definition InspectNetworkEvent :: "rtl \<Rightarrow> GC \<Rightarrow> WFP_INFO \<Rightarrow> bool \<Rightarrow> inspection res" where
  "InspectNetworkEvent R globals NI littleEndian =
     andthen
       (if 0 < gc_COUNT globals WINC
        then NetworkEventListMatch R globals NI littleEndian WFP_INCLUDE_LIST (gc_COUNT globals WINC)
        else Inr no_match) (\<lambda>inc.
     if lr_matched inc then Inr \<lparr>in_status = 0, in_skip = False, in_id = lr_id inc\<rparr>
     else if 0 < gc_COUNT globals WEXC then
       andthen (NetworkEventListMatch R globals NI littleEndian WFP_EXCLUDE_LIST (gc_COUNT globals WEXC)) (\<lambda>exc.
         if lr_matched exc then Inr \<lparr>in_status = 0, in_skip = True, in_id = lr_id exc\<rparr>
         else Inr \<lparr>in_status = 0, in_skip = False, in_id = 0\<rparr>)
     else Inr \<lparr>in_status = 0, in_skip = False, in_id = 0\<rparr>)"

text \<open>When an item of a network rule holds. The two IPv6 addresses of an event are 16 bytes each.\<close>

definition ipv6_pred :: "CFI ptr \<Rightarrow> u8 list ptr \<Rightarrow> bool" where
  "ipv6_pred entry x = (case x of Null \<Rightarrow> False
     | Ptr _ a \<Rightarrow> MM_TYPE_CHECK cfi_tag entry CALLISTO \<and> VALID_PAGE (ipv6Subnet (deref entry))
         \<and> ipv6_rest (unat (ipv6Prefix (deref entry))) a (deref (ipv6Subnet (deref entry))) 0)"

definition wf_addr6 :: "u8 list ptr \<Rightarrow> bool" where
  "wf_addr6 x = (case x of Null \<Rightarrow> True | Ptr _ a \<Rightarrow> 16 \<le> length a)"

definition wf_wfp :: "WFP_INFO \<Rightarrow> bool" where
  "wf_wfp NI \<longleftrightarrow> wf_addr6 (localIpv6Addr NI) \<and> wf_addr6 (remoteIpv6Addr NI)"

lemma CheckIpv6_tick:
  assumes "wf_item entry" "wf_addr6 x"
  shows "CheckIpv6 entry x m = Inr (tick (ipv6_pred entry x) m)"
proof (cases x)
  case Null
  then show ?thesis by (simp add: CheckIpv6_def ipv6_pred_def)
next
  case (Ptr a bs)
  show ?thesis
  proof (cases "MM_TYPE_CHECK cfi_tag entry CALLISTO \<and> VALID_PAGE (ipv6Subnet (deref entry))")
    case True
    then have "16 \<le> length (deref (ipv6Subnet (deref entry)))"
      using assms(1) by (auto simp: wf_item_def split: ptr.splits)
    then show ?thesis
      using True assms(2) Ptr CheckIpv6_exact [of entry bs a m]
      by (simp add: ipv6_pred_def wf_addr6_def)
  next
    case False
    then show ?thesis using Ptr by (auto simp: CheckIpv6_def ipv6_pred_def)
  qed
qed

definition network_holds :: "rtl \<Rightarrow> bool \<Rightarrow> WFP_INFO \<Rightarrow> CFI ptr \<Rightarrow> bool" where
  "network_holds R littleEndian NI entry =
     switch (field_type (deref entry))
       [(MM_WFP_LAYER, num_pred (<) itemUshort entry (wfp_layer NI)),
        (MM_NET_DIRECTION, num_pred (<s) itemInt8 entry (Direction NI)),
        (MM_NET_IP_PROTOCOL, num_pred (<) itemUint8 entry (ipProtocol NI)),
        (MM_NET_ADDRESS_TYPE, num_pred (<) itemUint8 entry (addrType NI)),
        (MM_NET_PROMISCUOUS, num_pred (<) itemUint8 entry (promiscuous NI)),
        (MM_NET_INTERFACE_TYPE, num_pred (<) itemUlong entry (interfaceType NI)),
        (MM_NET_INTERFACE, num_pred (<s) itemLonglong entry (wfp_interface NI)),
        (MM_NET_LOCAL_PORT, num_pred (<) itemUshort entry (localPort NI)),
        (MM_NET_REMOTE_PORT, num_pred (<) itemUshort entry (remotePort NI)),
        (MM_NET_LOCAL_IPV4_ADDR, ipv4_pred littleEndian entry (localIpv4Addr NI)),
        (MM_NET_REMOTE_IPV4_ADDR, ipv4_pred littleEndian entry (remoteIpv4Addr NI)),
        (MM_NET_LOCAL_IPV6_ADDR, ipv6_pred entry (localIpv6Addr NI)),
        (MM_NET_REMOTE_IPV6_ADDR, ipv6_pred entry (remoteIpv6Addr NI)),
        (IMAGE_FILE_NAME, proc_pred R (wfp_PI NI) ImageFileName entry),
        (PARENT_IMAGE_FILE_NAME, proc_pred R (wfp_PI NI) ParentImageFileName entry),
        (COMMAND_LINE, proc_pred R (wfp_PI NI) CommandLine entry),
        (PARENT_COMMAND_LINE, proc_pred R (wfp_PI NI) ParentCommandLine entry),
        (PWINDOW_TITLE, proc_pred R (wfp_PI NI) WindowTitle entry),
        (PCWD, proc_pred R (wfp_PI NI) CWD entry),
        (TARGET_IMAGE_FILE_NAME, proc_pred R (wfp_PI NI) ImageFileName entry)] False"

lemma network_field_tick:
  assumes "wf_wfp NI" "wf_item entry"
  shows "network_field R le NI entry m = Inr (tick (network_holds R le NI entry) m)"
  using assms unfolding network_field_def network_holds_def wf_wfp_def
  by (intro switch_tick) (simp add: check_ticks CheckIpv6_tick)

interpretation network_rules:
  predicate_check "network_field R le" wf_wfp "\<lambda>_. True" "network_holds R le" for R le
  by unfold_locales (rule network_field_tick)

lemma network_list_simps [simp]:
  "network_list WFP_BLOCK_LIST = Some WBL"
  "network_list WFP_INCLUDE_LIST = Some WINC"
  "network_list WFP_EXCLUDE_LIST = Some WEXC"
  by (simp_all add: network_list_def)

lemma NetworkEventListMatch_hit:
  assumes "network_list t = Some l" "wf_rules G l" "0 < gc_COUNT G l" "wf_wfp NI"
  shows "NetworkEventListMatch R G NI le t (gc_COUNT G l) = Inr (rules_hit (network_holds R le NI) G l)"
  using assms by (simp add: NetworkEventListMatch_def network_rules.rules_hit_refines)

lemma network_decides:
  assumes "wf_wfp NI" "wf_rules G WINC" "wf_rules G WEXC"
  shows "InspectNetworkEvent R G NI le =
    Inr (decide_log (rules_hit (network_holds R le NI) G WINC) (rules_hit (network_holds R le NI) G WEXC))"
  using assms
  by (simp add: InspectNetworkEvent_def NetworkEventListMatch_hit decide_log_simps word_gt_0)

end
