(* ===== verification/MM_Object_Rules.thy ===== *)
theory MM_Object_Rules
  imports MM_Rules
begin

text \<open>
  \<open>src/MoonMon/Object.c\<close>. The case \<open>TARGET_IMAGE_FILE_NAME\<close> tests \<open>OB->PI\<close> and then reads through
  \<open>OB->TPI\<close>.
\<close>

definition object_field :: "rtl \<Rightarrow> OBPROC \<Rightarrow> CFI ptr \<Rightarrow> u32 \<Rightarrow> u32 res" where
  "object_field R OB entry matches =
     switch (field_type (deref entry))
       [(PHOPERATION, Inr (CheckUlongEntry entry (ob_Operation OB) matches)),
        (PHORIGINAL_DESIRED_ACCESS, Inr (CheckUlongEntry entry (OriginalDesiredAccess OB) matches)),
        (IMAGE_FILE_NAME, Inr (CheckProcEntry R (ob_PI OB) ImageFileName entry matches)),
        (PARENT_IMAGE_FILE_NAME, Inr (CheckProcEntry R (ob_PI OB) ParentImageFileName entry matches)),
        (COMMAND_LINE, Inr (CheckProcEntry R (ob_PI OB) CommandLine entry matches)),
        (PARENT_COMMAND_LINE, Inr (CheckProcEntry R (ob_PI OB) ParentCommandLine entry matches)),
        (PWINDOW_TITLE, Inr (CheckProcEntry R (ob_PI OB) WindowTitle entry matches)),
        (PCWD, Inr (CheckProcEntry R (ob_PI OB) CWD entry matches)),
        (TARGET_IMAGE_FILE_NAME, if MM_TYPE_CHECK pi_tag (ob_PI OB) PHOEBE
            then andthen (load (ob_TPI OB)) (\<lambda>TPI. Inr (CheckUnicodeEntry R entry (ImageFileName TPI) matches))
            else Inr matches),
        (TARGET_PARENT_IMAGE_FILE_NAME, Inr (CheckProcEntry R (ob_TPI OB) ParentImageFileName entry matches)),
        (TARGET_COMMAND_LINE, Inr (CheckProcEntry R (ob_TPI OB) CommandLine entry matches)),
        (TARGET_PARENT_COMMAND_LINE, Inr (CheckProcEntry R (ob_TPI OB) ParentCommandLine entry matches)),
        (TARGET_PWINDOW_TITLE, Inr (CheckProcEntry R (ob_TPI OB) WindowTitle entry matches)),
        (TARGET_PCWD, Inr (CheckProcEntry R (ob_TPI OB) CWD entry matches))] (Inr matches)"

definition object_list :: "u32 \<Rightarrow> rule_list option" where
  "object_list LIST_TYPE =
     switch LIST_TYPE
       [(OBJECT_BLOCK_LIST, Some OBL),
        (OBJECT_INCLUDE_LIST, Some OINC),
        (OBJECT_EXCLUDE_LIST, Some OEXC)] None"

definition ObjectAccessListMatch :: "rtl \<Rightarrow> GC \<Rightarrow> OBPROC \<Rightarrow> u32 \<Rightarrow> u32 \<Rightarrow> list_result res" where
  "ObjectAccessListMatch R globals OB LIST_TYPE PL_COUNT =
     list_match globals (object_list LIST_TYPE) PL_COUNT (object_field R OB)"

definition InspectObjectAccessEvent :: "rtl \<Rightarrow> GC \<Rightarrow> OBPROC \<Rightarrow> inspection res" where
  "InspectObjectAccessEvent R globals OB =
     andthen
       (if 0 < gc_COUNT globals OBL
        then ObjectAccessListMatch R globals OB OBJECT_BLOCK_LIST (gc_COUNT globals OBL)
        else Inr no_match) (\<lambda>blk.
     let mask = (if lr_matched blk \<and> lr_actions blk = 0 then - 1 else 0);
         match_id = (if lr_matched blk then lr_id blk else 0) in
     andthen
       (if mask = 0 \<and> 0 < gc_COUNT globals OINC
        then ObjectAccessListMatch R globals OB OBJECT_INCLUDE_LIST (gc_COUNT globals OINC)
        else Inr no_match) (\<lambda>inc.
     if lr_matched inc
     then Inr \<lparr>in_status = lr_actions inc, in_skip = False,
               in_id = if match_id = 0 then lr_id inc else match_id\<rparr>
     else if 0 < gc_COUNT globals OEXC \<and> match_id = 0 then
       andthen (ObjectAccessListMatch R globals OB OBJECT_EXCLUDE_LIST (gc_COUNT globals OEXC)) (\<lambda>exc.
         if lr_matched exc then Inr \<lparr>in_status = mask, in_skip = True, in_id = lr_id exc\<rparr>
         else Inr \<lparr>in_status = mask, in_skip = False, in_id = match_id\<rparr>)
     else Inr \<lparr>in_status = mask, in_skip = False, in_id = match_id\<rparr>))"

text \<open>When an item of an object rule holds. The target of an event whose source process is known
  is assumed to be there.\<close>

definition wf_obproc :: "OBPROC \<Rightarrow> bool" where
  "wf_obproc OB \<longleftrightarrow> (MM_TYPE_CHECK pi_tag (ob_PI OB) PHOEBE \<longrightarrow> ob_TPI OB \<noteq> Null)"

definition object_holds :: "rtl \<Rightarrow> OBPROC \<Rightarrow> CFI ptr \<Rightarrow> bool" where
  "object_holds R OB entry =
     switch (field_type (deref entry))
       [(PHOPERATION, num_pred (<) itemUlong entry (ob_Operation OB)),
        (PHORIGINAL_DESIRED_ACCESS, num_pred (<) itemUlong entry (OriginalDesiredAccess OB)),
        (IMAGE_FILE_NAME, proc_pred R (ob_PI OB) ImageFileName entry),
        (PARENT_IMAGE_FILE_NAME, proc_pred R (ob_PI OB) ParentImageFileName entry),
        (COMMAND_LINE, proc_pred R (ob_PI OB) CommandLine entry),
        (PARENT_COMMAND_LINE, proc_pred R (ob_PI OB) ParentCommandLine entry),
        (PWINDOW_TITLE, proc_pred R (ob_PI OB) WindowTitle entry),
        (PCWD, proc_pred R (ob_PI OB) CWD entry),
        (TARGET_IMAGE_FILE_NAME, MM_TYPE_CHECK pi_tag (ob_PI OB) PHOEBE \<and> unicode_pred R entry (ImageFileName (deref (ob_TPI OB)))),
        (TARGET_PARENT_IMAGE_FILE_NAME, proc_pred R (ob_TPI OB) ParentImageFileName entry),
        (TARGET_COMMAND_LINE, proc_pred R (ob_TPI OB) CommandLine entry),
        (TARGET_PARENT_COMMAND_LINE, proc_pred R (ob_TPI OB) ParentCommandLine entry),
        (TARGET_PWINDOW_TITLE, proc_pred R (ob_TPI OB) WindowTitle entry),
        (TARGET_PCWD, proc_pred R (ob_TPI OB) CWD entry)] False"

lemma object_field_tick:
  assumes "wf_obproc OB"
  shows "object_field R OB entry m = Inr (tick (object_holds R OB entry) m)"
proof -
  have "(if MM_TYPE_CHECK pi_tag (ob_PI OB) PHOEBE
      then andthen (load (ob_TPI OB)) (\<lambda>TPI. Inr (CheckUnicodeEntry R entry (ImageFileName TPI) m))
      else Inr m) = Inr (tick (MM_TYPE_CHECK pi_tag (ob_PI OB) PHOEBE
        \<and> unicode_pred R entry (ImageFileName (deref (ob_TPI OB)))) m)"
    using assms by (cases "ob_TPI OB") (auto simp: wf_obproc_def check_ticks)
  then show ?thesis
    unfolding object_field_def object_holds_def by (intro switch_tick) (simp add: check_ticks)
qed

interpretation object_rules:
  predicate_check "object_field R" wf_obproc "\<lambda>_. True" "object_holds R" for R
  by unfold_locales (rule object_field_tick)

lemma object_list_simps [simp]:
  "object_list OBJECT_BLOCK_LIST = Some OBL"
  "object_list OBJECT_INCLUDE_LIST = Some OINC"
  "object_list OBJECT_EXCLUDE_LIST = Some OEXC"
  by (simp_all add: object_list_def)

lemma ObjectAccessListMatch_hit:
  assumes "object_list t = Some l" "wf_rules G l" "0 < gc_COUNT G l" "wf_obproc OB"
  shows "ObjectAccessListMatch R G OB t (gc_COUNT G l) = Inr (rules_hit (object_holds R OB) G l)"
  using assms by (simp add: ObjectAccessListMatch_def object_rules.rules_hit_refines)

text \<open>The decision on an access: the mask of access bits to clear, and the two logging
  parameters. Only a block rule without an action clears anything; an include hit gives its own
  action as the mask.\<close>

definition decide_object :: "list_result \<Rightarrow> list_result \<Rightarrow> list_result \<Rightarrow> inspection" where
  "decide_object blk inc exc =
     (if lr_matched blk \<and> lr_actions blk = 0
      then (if lr_id blk = 0 \<and> lr_matched exc
            then \<lparr>in_status = - 1, in_skip = True, in_id = lr_id exc\<rparr>
            else \<lparr>in_status = - 1, in_skip = False, in_id = lr_id blk\<rparr>)
      else if lr_matched inc
      then \<lparr>in_status = lr_actions inc, in_skip = False,
            in_id = if lr_id blk = 0 then lr_id inc else lr_id blk\<rparr>
      else if lr_id blk = 0 \<and> lr_matched exc
      then \<lparr>in_status = 0, in_skip = True, in_id = lr_id exc\<rparr>
      else \<lparr>in_status = 0, in_skip = False, in_id = lr_id blk\<rparr>)"

lemma object_decides:
  assumes "wf_obproc OB" "wf_rules G OBL" "wf_rules G OINC" "wf_rules G OEXC"
  shows "InspectObjectAccessEvent R G OB =
    Inr (decide_object (rules_hit (object_holds R OB) G OBL)
      (rules_hit (object_holds R OB) G OINC) (rules_hit (object_holds R OB) G OEXC))"
proof -
  let ?hit = "rules_hit (object_holds R OB) G"
  have hit: "(if 0 < gc_COUNT G l then ObjectAccessListMatch R G OB t (gc_COUNT G l) else Inr no_match)
      = Inr (?hit l)" if "object_list t = Some l" "wf_rules G l" for t l
    using that assms(1) by (simp add: ObjectAccessListMatch_hit word_gt_0)
  show ?thesis
    unfolding InspectObjectAccessEvent_def hit [OF object_list_simps(1) assms(2)] andthen_simps
    using assms by (simp add: ObjectAccessListMatch_hit decide_object_def Let_def word_gt_0)
qed

end
