(* ===== verification/MM_Rule_Properties.thy ===== *)
theory MM_Rule_Properties
  imports MM_Config MM_Samples MM_Thread_Rules MM_Module_Rules MM_Registry_Rules MM_File_Rules
    MM_Network_Rules MM_Object_Rules
begin

text \<open>
  What the rule engine promises of each kind of event, with concrete configurations that meet the
  hypotheses.
\<close>

section \<open>Sample configurations\<close>

definition shell :: PROC_INFO where
  "shell = proc ''C:/cmd.exe'' ''cmd -ENC 4AB''"

text \<open>The items of a rule on the shell run with an encoded command, and the rule itself.\<close>

definition shell_items :: "CFI ptr list" where
  "shell_items = [str_item IMAGE_FILE_NAME ENDS_WITH ''cmd.exe'', str_item COMMAND_LINE CONTAINS ''-enc'']"

definition shell_rule :: "u32 \<Rightarrow> u32 \<Rightarrow> CONFIG_GROUP ptr" where
  "shell_rule i a = group_of i a shell_items"

text \<open>The settings of the same items as the registry holds them.\<close>

definition shell_cfg :: CFG where
  "shell_cfg = \<lparr>cfg_size = 0, cfg_type = 0, cfg_field_type = 0, cfg_match_type = 0, cfg_id = 7,
     cfg_actions = 0\<rparr>"

definition loading_gc :: GC where
  "loading_gc = set_list PBL (Ptr page (replicate 65535 Null)) blank_gc"

lemma loading_built: "built_list loading_gc PBL" "gc_COUNT loading_gc PBL = 0"
  by (simp_all add: built_list_def rules_of_def loading_gc_def set_list_def blank_gc_def page_def
      VALID_PAGE_def)

lemmas verdict_simps = rules_hit_verdict decide_block_def decide_log_simps decide_process_def
  decide_object_def block_status_def Let_def

section \<open>Processes\<close>

text \<open>C1: Loading the items of a rule list one by one and then searching it for a process gives
  the verdict of the abstract rules: items with the same id form one rule, in the order in which
  their ids first appear, and the first rule all of whose items hold decides the id and the action.
  Neither the load nor the search faults.\<close>
theorem loaded_process_rules_decide:
  assumes "pool_ample R" "list_of_type t = Some l" "process_list (ucast t) = Some l"
    and "built_list G l" "gc_COUNT G l = 0"
    and "list_all (\<lambda>(_, x). wf_item x) xs" "length xs \<le> 65535"
    and "\<forall>i. length (filter (\<lambda>e. fst e = i) (map item_of xs)) \<le> 256"
  shows "\<exists>G'. load_items R G t xs = Inr G'
    \<and> ProcessListMatch R G' PI (ucast t) (gc_COUNT G' l)
        = Inr (rule_verdict (process_holds R PI) (load_rules (map item_of xs)))"
proof -
  obtain G' where G': "load_items R G t xs = Inr G'" "built_list G' l"
    "rules_of G' l = load_rules (map item_of xs)"
    using load_items_refines [OF assms(2,1,4-)] by blast
  then have "ProcessListMatch R G' PI (ucast t) (gc_COUNT G' l)
      = Inr (rules_hit (process_holds R PI) G' l)"
    using assms(3) by (cases "gc_COUNT G' l = 0")
       (simp_all add: ProcessListMatch_hit built_list_rules word_gt_0, simp add: ProcessListMatch_def
         list_match_def Let_def)
  with G' show ?thesis by (simp add: rules_hit_verdict)
qed

lemma loaded_process_rules_decide_witness:
  "\<exists>G'. load_items ref_rtl loading_gc PROCESS_BLOCK_LIST (map (\<lambda>x. (shell_cfg, x)) shell_items) = Inr G'
    \<and> ProcessListMatch ref_rtl G' shell PROCESS_BLOCK_LIST (gc_COUNT G' PBL)
        = Inr \<lparr>lr_matched = True, lr_id = 7, lr_actions = 0\<rparr>"
proof -
  let ?xs = "map (\<lambda>x. (shell_cfg, x)) shell_items"
  have "rule_verdict (process_holds ref_rtl shell) (load_rules (map item_of ?xs))
      = \<lparr>lr_matched = True, lr_id = 7, lr_actions = 0\<rparr>" by code_simp
  moreover have "list_all (\<lambda>(_, x). wf_item x) ?xs" "length ?xs = 2" by code_simp+
  moreover have "length (filter (\<lambda>e. fst e = i) (map item_of ?xs)) \<le> 256" for i
    using length_filter_le [of "\<lambda>e. fst e = i" "map item_of ?xs"] by (simp add: shell_items_def)
  ultimately show ?thesis
    using loaded_process_rules_decide [OF ref_rtl_ample _ _ loading_built, of PROCESS_BLOCK_LIST ?xs shell]
    by (simp add: list_of_type_def)
qed

text \<open>The inspection of a process creation: the first block rule that holds gives the status
  (its action, or access denied when it has none) and the match id; an include rule only supplies a
  missing id; an exclude rule drops the event exactly when no rule with a nonzero id has matched.\<close>
lemma process_creation_decision:
  assumes "wf_rules G PBL" "wf_rules G PINC" "wf_rules G PEXC"
  shows "InspectProcessCreation R G PI =
    Inr (decide_process (rule_verdict (process_holds R PI) (rules_of G PBL))
      (rule_verdict (process_holds R PI) (rules_of G PINC))
      (rule_verdict (process_holds R PI) (rules_of G PEXC)))"
  using creation_decides [OF assms] by (simp add: rules_hit_verdict)

definition process_gc :: GC where
  "process_gc = with_list PBL [shell_rule 7 0] (with_list PINC [shell_rule 8 0]
     (with_list PEXC [shell_rule 9 0] blank_gc))"

lemma process_creation_decision_witness:
  "InspectProcessCreation ref_rtl process_gc shell =
    Inr \<lparr>in_status = STATUS_ACCESS_DENIED, in_skip = False, in_id = 7\<rparr>"
proof -
  have "wf_rules process_gc PBL" "wf_rules process_gc PINC" "wf_rules process_gc PEXC"
    by code_simp+
  moreover have "decide_process (rule_verdict (process_holds ref_rtl shell) (rules_of process_gc PBL))
      (rule_verdict (process_holds ref_rtl shell) (rules_of process_gc PINC))
      (rule_verdict (process_holds ref_rtl shell) (rules_of process_gc PEXC))
    = \<lparr>in_status = STATUS_ACCESS_DENIED, in_skip = False, in_id = 7\<rparr>" by code_simp
  ultimately show ?thesis by (simp add: process_creation_decision)
qed

text \<open>The inspection of a process termination never blocks: an include rule that holds keeps
  the event with its id, otherwise an exclude rule that holds drops it, otherwise it is kept
  without an id.\<close>
lemma process_termination_decision:
  assumes "wf_rules G PTINC" "wf_rules G PTEXC"
  shows "InspectProcessTermination R G PI =
    Inr (decide_log (rule_verdict (process_holds R PI) (rules_of G PTINC))
      (rule_verdict (process_holds R PI) (rules_of G PTEXC)))"
  using termination_decides [OF assms] by (simp add: rules_hit_verdict)

definition log_gc :: "rule_list \<Rightarrow> rule_list \<Rightarrow> GC" where
  "log_gc inc exc = with_list inc [group_of 3 0 [str_item IMAGE_FILE_NAME EQUALS ''c:/a.exe'']]
     (with_list exc [shell_rule 9 0] blank_gc)"

lemma process_termination_decision_witness:
  "InspectProcessTermination ref_rtl (log_gc PTINC PTEXC) shell =
    Inr \<lparr>in_status = 0, in_skip = True, in_id = 9\<rparr>"
proof -
  have "wf_rules (log_gc PTINC PTEXC) PTINC" "wf_rules (log_gc PTINC PTEXC) PTEXC" by code_simp+
  moreover have "decide_log (rule_verdict (process_holds ref_rtl shell) (rules_of (log_gc PTINC PTEXC) PTINC))
      (rule_verdict (process_holds ref_rtl shell) (rules_of (log_gc PTINC PTEXC) PTEXC))
    = \<lparr>in_status = 0, in_skip = True, in_id = 9\<rparr>" by code_simp
  ultimately show ?thesis by (simp add: process_termination_decision)
qed

section \<open>Threads\<close>

text \<open>The rules a thread inspection searches: the thread lists, but as many of their groups as the
  process termination lists have.\<close>

definition thread_view :: "GC \<Rightarrow> GC" where
  "thread_view G = G\<lparr>gc_COUNT := (gc_COUNT G)(TINC := gc_COUNT G PTINC, TEXC := gc_COUNT G PTEXC)\<rparr>"

lemma thread_view_match:
  "ThreadCreationListMatch R G TI t n = ThreadCreationListMatch R (thread_view G) TI t n"
  by (simp add: ThreadCreationListMatch_def list_match_def thread_view_def Let_def split: option.split)

text \<open>C29: The inspection of a thread creation decides by the thread include and exclude rules
  cut to the number of process termination rules: with no termination rules configured no thread
  rule is ever consulted, and with more termination rules than thread rules the surplus
  slots end the search.\<close>
theorem thread_creation_decision:
  assumes "wf_rules (thread_view G) TINC" "wf_rules (thread_view G) TEXC"
  shows "InspectThreadCreation R G TI =
    Inr (decide_log (rule_verdict (thread_holds R TI) (rules_of (thread_view G) TINC))
      (rule_verdict (thread_holds R TI) (rules_of (thread_view G) TEXC)))"
proof -
  let ?G = "thread_view G"
  have counts: "gc_COUNT G PTINC = gc_COUNT ?G TINC" "gc_COUNT G PTEXC = gc_COUNT ?G TEXC"
    by (simp_all add: thread_view_def)
  show ?thesis
    using assms
    by (simp add: InspectThreadCreation_def counts thread_view_match [of R G] ThreadCreationListMatch_hit
        decide_log_simps word_gt_0 flip: rules_hit_verdict)
qed

lemma thread_creation_decision_witness:
  "InspectThreadCreation ref_rtl (with_list PTEXC [shell_rule 1 0] (log_gc TINC TEXC)) (thread_event shell)
    = Inr \<lparr>in_status = 0, in_skip = True, in_id = 9\<rparr>
   \<and> InspectThreadCreation ref_rtl (log_gc TINC TEXC) (thread_event shell)
    = Inr \<lparr>in_status = 0, in_skip = False, in_id = 0\<rparr>"
proof -
  let ?G = "with_list PTEXC [shell_rule 1 0] (log_gc TINC TEXC)"
  let ?dec = "\<lambda>G. decide_log (rule_verdict (thread_holds ref_rtl (thread_event shell)) (rules_of (thread_view G) TINC))
      (rule_verdict (thread_holds ref_rtl (thread_event shell)) (rules_of (thread_view G) TEXC))"
  have "wf_rules (thread_view ?G) TINC" "wf_rules (thread_view ?G) TEXC"
    "wf_rules (thread_view (log_gc TINC TEXC)) TINC" "wf_rules (thread_view (log_gc TINC TEXC)) TEXC"
    by code_simp+
  moreover have "?dec ?G = \<lparr>in_status = 0, in_skip = True, in_id = 9\<rparr>"
    "?dec (log_gc TINC TEXC) = \<lparr>in_status = 0, in_skip = False, in_id = 0\<rparr>" by code_simp+
  ultimately show ?thesis by (simp add: thread_creation_decision)
qed

section \<open>Modules\<close>

text \<open>The inspection of an image load consults the include and the exclude rules, in this
  order, and never the block rules.\<close>
lemma module_load_decision:
  assumes "wf_rules G MINC" "wf_rules G MEXC"
  shows "InspectImageloadEvent R G MI =
    Inr (decide_log (rule_verdict (module_holds R MI) (rules_of G MINC))
      (rule_verdict (module_holds R MI) (rules_of G MEXC)))"
  using imageload_decides [OF assms] by (simp add: rules_hit_verdict)

lemma module_load_decision_witness:
  "InspectImageloadEvent ref_rtl (log_gc MINC MEXC) (module_event shell) =
    Inr \<lparr>in_status = 0, in_skip = True, in_id = 9\<rparr>"
proof -
  have "wf_rules (log_gc MINC MEXC) MINC" "wf_rules (log_gc MINC MEXC) MEXC" by code_simp+
  moreover have "decide_log (rule_verdict (module_holds ref_rtl (module_event shell)) (rules_of (log_gc MINC MEXC) MINC))
      (rule_verdict (module_holds ref_rtl (module_event shell)) (rules_of (log_gc MINC MEXC) MEXC))
    = \<lparr>in_status = 0, in_skip = True, in_id = 9\<rparr>" by code_simp
  ultimately show ?thesis by (simp add: module_load_decision)
qed

section \<open>Registry and files\<close>

definition block_gc :: "rule_list \<Rightarrow> rule_list \<Rightarrow> rule_list \<Rightarrow> GC" where
  "block_gc blk inc exc = with_list blk [shell_rule 0 MM_STATUS_NOT_FOUND] (log_gc inc exc)"

text \<open>The inspection of a registry operation: the first block rule that holds sets the
  status, an include rule that holds keeps the event, and otherwise an exclude rule drops it unless
  a block rule with a nonzero id matched.\<close>
lemma registry_event_decision:
  assumes "wf_rules G RBL" "wf_rules G RINC" "wf_rules G REXC"
  shows "InspectRegistryEvent R G RI =
    Inr (decide_block (rule_verdict (registry_holds R RI) (rules_of G RBL))
      (rule_verdict (registry_holds R RI) (rules_of G RINC))
      (rule_verdict (registry_holds R RI) (rules_of G REXC)))"
  using registry_decides [OF assms] by (simp add: rules_hit_verdict)

lemma registry_event_decision_witness:
  "InspectRegistryEvent ref_rtl (block_gc RBL RINC REXC) (registry_event shell) =
    Inr \<lparr>in_status = MM_STATUS_NOT_FOUND, in_skip = True, in_id = 9\<rparr>"
proof -
  let ?v = "\<lambda>l. rule_verdict (registry_holds ref_rtl (registry_event shell)) (rules_of (block_gc RBL RINC REXC) l)"
  have "wf_rules (block_gc RBL RINC REXC) RBL" "wf_rules (block_gc RBL RINC REXC) RINC"
    "wf_rules (block_gc RBL RINC REXC) REXC" by code_simp+
  moreover have "decide_block (?v RBL) (?v RINC) (?v REXC)
    = \<lparr>in_status = MM_STATUS_NOT_FOUND, in_skip = True, in_id = 9\<rparr>" by code_simp
  ultimately show ?thesis by (simp add: registry_event_decision)
qed

text \<open>The inspection of a file creation decides by the same table over its own lists.\<close>
lemma file_create_decision:
  assumes "wf_rules G FCBL" "wf_rules G FCINC" "wf_rules G FCEXC"
  shows "InspectFsCreateEvent R G FI =
    Inr (decide_block (rule_verdict (file_create_holds R FI) (rules_of G FCBL))
      (rule_verdict (file_create_holds R FI) (rules_of G FCINC))
      (rule_verdict (file_create_holds R FI) (rules_of G FCEXC)))"
  using file_create_decides [OF assms] by (simp add: rules_hit_verdict)

lemma file_create_decision_witness:
  "InspectFsCreateEvent ref_rtl (block_gc FCBL FCEXC FCINC) (create_event shell) =
    Inr \<lparr>in_status = MM_STATUS_NOT_FOUND, in_skip = False, in_id = 9\<rparr>"
proof -
  let ?v = "\<lambda>l. rule_verdict (file_create_holds ref_rtl (create_event shell)) (rules_of (block_gc FCBL FCEXC FCINC) l)"
  have "wf_rules (block_gc FCBL FCEXC FCINC) FCBL" "wf_rules (block_gc FCBL FCEXC FCINC) FCINC"
    "wf_rules (block_gc FCBL FCEXC FCINC) FCEXC" by code_simp+
  moreover have "decide_block (?v FCBL) (?v FCINC) (?v FCEXC)
    = \<lparr>in_status = MM_STATUS_NOT_FOUND, in_skip = False, in_id = 9\<rparr>" by code_simp
  ultimately show ?thesis by (simp add: file_create_decision)
qed

text \<open>C27: The inspection of a change to a file decides by the same table as long as no rule of its
  lists has an item on the deletion flag.\<close>
theorem file_set_decision:
  assumes "wf_rules G FSBL" "wf_rules G FSINC" "wf_rules G FSEXC"
    and "no_deletions G FSBL" "no_deletions G FSINC" "no_deletions G FSEXC"
  shows "InspectFsSetEvent R G FI =
    Inr (decide_block (rule_verdict (file_set_holds R FI) (rules_of G FSBL))
      (rule_verdict (file_set_holds R FI) (rules_of G FSINC))
      (rule_verdict (file_set_holds R FI) (rules_of G FSEXC)))"
  using file_set_decides [OF assms] by (simp add: rules_hit_verdict)

lemma file_set_decision_witness:
  "InspectFsSetEvent ref_rtl (block_gc FSBL FSINC FSEXC) (set_event shell) =
    Inr \<lparr>in_status = MM_STATUS_NOT_FOUND, in_skip = True, in_id = 9\<rparr>"
proof -
  let ?v = "\<lambda>l. rule_verdict (file_set_holds ref_rtl (set_event shell)) (rules_of (block_gc FSBL FSINC FSEXC) l)"
  let ?G = "block_gc FSBL FSINC FSEXC"
  have "wf_rules ?G FSBL" "wf_rules ?G FSINC" "wf_rules ?G FSEXC"
    "no_deletions ?G FSBL" "no_deletions ?G FSINC" "no_deletions ?G FSEXC" by code_simp+
  moreover have "decide_block (?v FSBL) (?v FSINC) (?v FSEXC)
    = \<lparr>in_status = MM_STATUS_NOT_FOUND, in_skip = True, in_id = 9\<rparr>" by code_simp
  ultimately show ?thesis by (simp add: file_set_decision)
qed

lemma first_group_cong: "(\<And>g. g \<in> set gs \<Longrightarrow> P g \<longleftrightarrow> Q g) \<Longrightarrow> first_group P gs = first_group Q gs"
  by (induction gs) auto

text \<open>C39: The search of a list of rules on changes of files, as the loader builds it. The first rule all of
  whose items hold decides, and an item on the deletion flag holds by its place in the rule: as the first item with
  the value FALSE, as the second with the value TRUE, and nowhere else. So the event's deletion flag does
  not count: with another flag every search gives the same.\<close>
theorem deletion_rule_ignores_event:
  assumes "built_list G l" "file_set_list t = Some l"
  shows "FileSetEventListMatch R G FI t (gc_COUNT G l) = Inr (first_group
      (\<lambda>g. \<forall>j < length (group_items g). let e = group_items g ! j in
        if field_type (deref e) = MM_FILE_DELETION then j = of_bool (itemBoolean (deref e)) else file_set_holds R FI e)
      (live_groups (deref (gc_list G l)) (unat (gc_COUNT G l))))
    \<and> FileSetEventListMatch R G (FI\<lparr>DeleteFile := b\<rparr>) t n = FileSetEventListMatch R G FI t n"
proof -
  let ?gs = "live_groups (deref (gc_list G l)) (unat (gc_COUNT G l))"
  have wf: "wf_list (deref (gc_list G l)) (unat (gc_COUNT G l))" "VALID_PAGE (gc_list G l)"
    using assms(1) built_list_wf [of G l] by (auto simp: built_list_def)
  have small: "length (group_items g) \<le> 256" if "g \<in> set ?gs" for g
    using wf(1) that by (fastforce simp: wf_list_def wf_group_def group_items_def)
  have at: "(of_nat j :: u32) = of_bool c \<longleftrightarrow> j = of_bool c" if "j < 256" for j c
    using that unat_of_nat_small [of j] by (cases c) (auto simp: word_unat_eq_iff)
  have same: "first_group (file_set_counts.counts_all R FI) ?gs = first_group
      (\<lambda>g. \<forall>j < length (group_items g). let e = group_items g ! j in
        if field_type (deref e) = MM_FILE_DELETION then j = of_bool (itemBoolean (deref e)) else file_set_holds R FI e) ?gs"
  proof (rule first_group_cong)
    fix g assume "g \<in> set ?gs"
    then have "\<forall>j < length (group_items g). j < 256" using small [of g] by auto
    then show "file_set_counts.counts_all R FI g \<longleftrightarrow> (\<forall>j < length (group_items g). let e = group_items g ! j in
        if field_type (deref e) = MM_FILE_DELETION then j = of_bool (itemBoolean (deref e)) else file_set_holds R FI e)"
      by (auto simp: file_set_counts.counts_all_def file_set_step_cases not_deletion_def at Let_def)
  qed
  have "groups_loop (file_set_field R FI) (deref (gc_list G l)) 0 (unat (gc_COUNT G l))
      = Inr (first_group (file_set_counts.counts_all R FI) ?gs)"
    using file_set_counts.groups_loop_first_group [where i = 0 and PL = "deref (gc_list G l)"
        and n = "unat (gc_COUNT G l)" and v = FI] wf(1) by simp
  then show ?thesis
    using assms(2) wf(2) same by (simp add: FileSetEventListMatch_def list_match_def Let_def file_set_field_DeleteFile)
qed

text \<open>The lists with one rule of one item on the deletion flag, as the loader leaves them.\<close>

definition deletion_rule :: "bool \<Rightarrow> CONFIG_GROUP ptr" where
  "deletion_rule b = Ptr page \<lparr>entries = Ptr page ((blank_item MM_FILE_DELETION EQUALS)\<lparr>itemBoolean := b\<rparr>) # replicate 255 Null,
     cg_count = 1, cg_id = 5, cg_actions = 0, cg_tag = CALIBAN\<rparr>"

definition deletion_gc :: "bool \<Rightarrow> GC" where
  "deletion_gc b = blank_gc\<lparr>gc_list := \<lambda>_. Ptr page (deletion_rule b # replicate 65534 Null), gc_COUNT := \<lambda>_. 1\<rparr>"

lemma deletion_rule_ignores_event_witness:
  "FileSetEventListMatch ref_rtl (deletion_gc False) (set_event shell) FILE_SET_INFO_BLOCK_LIST 1
     = Inr \<lparr>lr_matched = True, lr_id = 5, lr_actions = 0\<rparr>
   \<and> FileSetEventListMatch ref_rtl (deletion_gc True) ((set_event shell)\<lparr>DeleteFile := 1\<rparr>)
       FILE_SET_INFO_BLOCK_LIST 1 = Inr no_match"
proof -
  have live: "live_groups (deref (gc_list (deletion_gc b) FSBL)) (unat (1 :: u32)) = [deref (deletion_rule b)]"
    "gc_COUNT (deletion_gc b) FSBL = 1" for b
    by (simp_all add: live_groups_def deletion_gc_def deletion_rule_def)
  have items: "group_items (deref (deletion_rule b)) = [Ptr page ((blank_item MM_FILE_DELETION EQUALS)\<lparr>itemBoolean := b\<rparr>)]" for b
    by (simp add: group_items_def deletion_rule_def)
  have "built_group (deletion_rule b)" for b
    using items [of b] by (simp add: built_group_def wf_group_def wf_item_def blank_item_def) (simp add: deletion_rule_def)
  moreover have "VALID_PAGE (gc_list (deletion_gc b) FSBL)" for b by (simp add: deletion_gc_def VALID_PAGE_def page_def)
  ultimately have built: "built_list (deletion_gc b) FSBL" for b
    using live [of b] by (simp add: built_list_def rules_of_def) (simp add: deletion_gc_def)
  note rule = deletion_rule_ignores_event [OF built file_set_list_simps(1), unfolded live, THEN conjunct1]
  have "cg_id (deref (deletion_rule b)) = 5" "cg_actions (deref (deletion_rule b)) = 0" for b
    by (simp_all add: deletion_rule_def)
  then show ?thesis
    using rule [of ref_rtl False "set_event shell"] rule [of ref_rtl True "(set_event shell)\<lparr>DeleteFile := 1\<rparr>"] items
    by (simp add: blank_item_def)
qed

section \<open>Network and objects\<close>

text \<open>The inspection of a network event consults the include and the exclude rules, never the
  block rules; the event's addresses are compared in the byte order the caller says they have.\<close>
lemma network_event_decision:
  assumes "wf_wfp NI" "wf_rules G WINC" "wf_rules G WEXC"
  shows "InspectNetworkEvent R G NI le =
    Inr (decide_log (rule_verdict (network_holds R le NI) (rules_of G WINC))
      (rule_verdict (network_holds R le NI) (rules_of G WEXC)))"
  using network_decides [OF assms] by (simp add: rules_hit_verdict)

text \<open>A rule on TCP connections from the subnet 10.0.0.0/8.\<close>

definition net_gc :: GC where
  "net_gc = with_list WEXC [group_of 6 0
     [Ptr page ((blank_item MM_NET_IP_PROTOCOL EQUALS)\<lparr>itemUint8 := 6\<rparr>),
      Ptr page ((blank_item MM_NET_LOCAL_IPV4_ADDR EQUALS)\<lparr>ipv4Subnet := 10, ipv4SubnetMask := 255\<rparr>)]]
     (with_list WINC [] blank_gc)"

lemma network_event_decision_witness:
  "InspectNetworkEvent ref_rtl net_gc ((net_event shell)\<lparr>ipProtocol := 6, localIpv4Addr := 0x0A010203\<rparr>) True =
    Inr \<lparr>in_status = 0, in_skip = True, in_id = 6\<rparr>"
proof -
  let ?e = "(net_event shell)\<lparr>ipProtocol := 6, localIpv4Addr := 0x0A010203\<rparr>"
  have "wf_wfp ?e" "wf_rules net_gc WINC" "wf_rules net_gc WEXC" by code_simp+
  moreover have "decide_log (rule_verdict (network_holds ref_rtl True ?e) (rules_of net_gc WINC))
      (rule_verdict (network_holds ref_rtl True ?e) (rules_of net_gc WEXC))
    = \<lparr>in_status = 0, in_skip = True, in_id = 6\<rparr>" by code_simp
  ultimately show ?thesis by (simp add: network_event_decision)
qed

text \<open>C28: The inspection of an access to an object: a block rule without an action clears every
  access right, a block rule with an action clears none but still gives the match id, and an
  include rule that holds then gives its own action as the rights to clear.\<close>
theorem object_access_decision:
  assumes "wf_obproc OB" "wf_rules G OBL" "wf_rules G OINC" "wf_rules G OEXC"
  shows "InspectObjectAccessEvent R G OB =
    Inr (decide_object (rule_verdict (object_holds R OB) (rules_of G OBL))
      (rule_verdict (object_holds R OB) (rules_of G OINC))
      (rule_verdict (object_holds R OB) (rules_of G OEXC)))"
  using object_decides [OF assms] by (simp add: rules_hit_verdict)

definition object_gc :: "u32 \<Rightarrow> GC" where
  "object_gc a = with_list OBL [shell_rule 4 a] (with_list OINC [] (with_list OEXC [] blank_gc))"

lemma object_access_decision_witness:
  "InspectObjectAccessEvent ref_rtl (object_gc 0) (object_event shell) =
    Inr \<lparr>in_status = - 1, in_skip = False, in_id = 4\<rparr>
   \<and> InspectObjectAccessEvent ref_rtl (object_gc MM_STATUS_NOT_FOUND) (object_event shell) =
    Inr \<lparr>in_status = 0, in_skip = False, in_id = 4\<rparr>"
proof -
  let ?v = "\<lambda>a l. rule_verdict (object_holds ref_rtl (object_event shell)) (rules_of (object_gc a) l)"
  have "wf_obproc (object_event shell)" "wf_rules (object_gc 0) OBL" "wf_rules (object_gc 0) OINC" "wf_rules (object_gc 0) OEXC"
    "wf_rules (object_gc MM_STATUS_NOT_FOUND) OBL" "wf_rules (object_gc MM_STATUS_NOT_FOUND) OINC"
    "wf_rules (object_gc MM_STATUS_NOT_FOUND) OEXC" by code_simp+
  moreover have "decide_object (?v 0 OBL) (?v 0 OINC) (?v 0 OEXC)
      = \<lparr>in_status = - 1, in_skip = False, in_id = 4\<rparr>"
    "decide_object (?v MM_STATUS_NOT_FOUND OBL) (?v MM_STATUS_NOT_FOUND OINC) (?v MM_STATUS_NOT_FOUND OEXC)
      = \<lparr>in_status = 0, in_skip = False, in_id = 4\<rparr>" by code_simp+
  ultimately show ?thesis by (simp add: object_access_decision)
qed

end
