(* ===== verification/MM_Check_Properties.thy ===== *)
theory MM_Check_Properties
  imports MM_Samples MM_Rules
begin

text \<open>
  What the checks of \<open>src/MoonMon/Utils.c\<close> test, for numbers, addresses and strings, and the
  freshness of the ids.
\<close>

section \<open>Numbers\<close>

text \<open>C24: A numeric check of a typed item adds one to the counter exactly when the value stands in
  the relation its operator is named after, for all five widths and signs, except on a value
  equal to the item's: there \<open>NOT_AND\<close> matches although the bits are all set, and
  \<open>NOT_LESS_THAN\<close> and \<open>NOT_GREATER_THAN\<close> do not match.\<close>
theorem numeric_checks_meaning:
  fixes e :: "CFI ptr" and m x :: u32 and y :: u8 and z :: u16 and w :: u64
  shows "let ok = MM_TYPE_CHECK cfi_tag e CALLISTO; mt = match_type (deref e) in
   CheckUlongEntry e x m = tick (ok \<and>
      (if x = itemUlong (deref e) \<and> mt \<in> {MM_NOT_AND, NOT_LESS_THAN, NOT_GREATER_THAN}
       then mt = MM_NOT_AND else num_meaning (<) mt x (itemUlong (deref e)))) m
   \<and> CheckUint8Entry e y m = tick (ok \<and>
      (if y = itemUint8 (deref e) \<and> mt \<in> {MM_NOT_AND, NOT_LESS_THAN, NOT_GREATER_THAN}
       then mt = MM_NOT_AND else num_meaning (<) mt y (itemUint8 (deref e)))) m
   \<and> CheckInt8Entry e y m = tick (ok \<and>
      (if y = itemInt8 (deref e) \<and> mt \<in> {MM_NOT_AND, NOT_LESS_THAN, NOT_GREATER_THAN}
       then mt = MM_NOT_AND else num_meaning (<s) mt y (itemInt8 (deref e)))) m
   \<and> CheckUshortEntry e z m = tick (ok \<and>
      (if z = itemUshort (deref e) \<and> mt \<in> {MM_NOT_AND, NOT_LESS_THAN, NOT_GREATER_THAN}
       then mt = MM_NOT_AND else num_meaning (<) mt z (itemUshort (deref e)))) m
   \<and> CheckLonglongEntry e w m = tick (ok \<and>
      (if w = itemLonglong (deref e) \<and> mt \<in> {MM_NOT_AND, NOT_LESS_THAN, NOT_GREATER_THAN}
       then mt = MM_NOT_AND else num_meaning (<s) mt w (itemLonglong (deref e)))) m"
  unfolding Let_def Check_numeric
  by (intro conjI arg_cong2 [of _ _ _ _ tick] arg_cong2 [of _ _ _ _ "(\<and>)"] num_rel_meaning refl)
     simp_all

section \<open>Addresses\<close>

text \<open>An address by its octets: octet \<open>i\<close> of the 32 bits in memory has the bits from \<open>8 * i\<close> on.\<close>

lemma le_bytes_nth: "i < n \<Longrightarrow> le_bytes n v ! i = of_nat (v div 256 ^ i)"
  by (induction n arbitrary: v i) (auto simp: nth_Cons div_mult2_eq split: nat.split)

lemma octet_bit:
  assumes "i < 4" "k < 8"
  shows "bit (le_bytes 4 (unat (x :: u32)) ! i) k \<longleftrightarrow> bit x (8 * i + k)"
proof -
  have "le_bytes 4 (unat x) ! i = of_nat (drop_bit (8 * i) (unat x))"
    using assms(1) by (simp add: le_bytes_nth drop_bit_eq_div power_mult)
  then show ?thesis using assms by (simp add: bit_simps)
qed

lemma octets_eq: "(a :: u32) = b \<longleftrightarrow> (\<forall>i < 4. le_bytes 4 (unat a) ! i = le_bytes 4 (unat b) ! i)"
proof
  assume eq: "\<forall>i < 4. le_bytes 4 (unat a) ! i = le_bytes 4 (unat b) ! i"
  show "a = b"
  proof (rule bit_word_eqI)
    fix n assume "n < LENGTH(32)"
    then have n: "n div 8 < 4" "n mod 8 < 8" "n = 8 * (n div 8) + n mod 8" by simp_all
    show "bit a n = bit b n" using octet_bit [OF n(1,2), of a] octet_bit [OF n(1,2), of b] eq n by simp
  qed
qed simp

lemma octet_and:
  assumes "i < 4"
  shows "le_bytes 4 (unat (a AND b :: u32)) ! i = le_bytes 4 (unat a) ! i AND le_bytes 4 (unat b) ! i"
  by (rule bit_word_eqI) (use assms in \<open>simp add: octet_bit bit_and_iff\<close>)

lemma htonl_octets: "le_bytes 4 (unat (htonl x)) = rev (le_bytes 4 (unat x))"
proof (rule nth_equalityI)
  fix i assume "i < length (le_bytes 4 (unat (htonl x)))"
  then have i: "i < 4" "3 - i < 4" by simp_all
  have "le_bytes 4 (unat (htonl x)) ! i = le_bytes 4 (unat x) ! (3 - i)"
  proof (rule bit_word_eqI)
    fix k assume "k < LENGTH(8)"
    then have k: "k < 8" "8 * i + k < 32" "(8 * i + k) div 8 = i" "(8 * i + k) mod 8 = k" using i by simp_all
    show "bit (le_bytes 4 (unat (htonl x)) ! i) k = bit (le_bytes 4 (unat x) ! (3 - i)) k"
      using octet_bit [OF i(1) k(1), of "htonl x"] octet_bit [OF i(2) k(1), of x] htonl_bit [OF k(2), of x] k(3,4) by simp
  qed
  then show "le_bytes 4 (unat (htonl x)) ! i = rev (le_bytes 4 (unat x)) ! i" using i by (simp add: rev_nth)
qed simp

text \<open>C26: \<open>htonl\<close> reverses the four octets of an address. An IPv4 check matches exactly when the address is not
  0.0.0.0 and each of its octets agrees with the rule's subnet under the octet of the rule's mask, the octets
  of the address taken from the last to the first when it is in host order. So the octets of a rule are
  compared from the first one of the dotted notation on.\<close>
theorem ipv4_check_byte_order:
  "le_bytes 4 (unat (htonl x)) = rev (le_bytes 4 (unat x))
   \<and> CheckIpv4 e x littleEndian m = tick (MM_TYPE_CHECK cfi_tag e CALLISTO \<and> x \<noteq> 0
       \<and> (let octets = le_bytes 4 (unat x); octets = (if littleEndian then rev octets else octets) in
          map2 (AND) octets (le_bytes 4 (unat (ipv4SubnetMask (deref e)))) = le_bytes 4 (unat (ipv4Subnet (deref e))))) m"
proof -
  have masked: "a AND ipv4SubnetMask (deref e) = ipv4Subnet (deref e) \<longleftrightarrow> map2 (AND) (le_bytes 4 (unat a))
      (le_bytes 4 (unat (ipv4SubnetMask (deref e)))) = le_bytes 4 (unat (ipv4Subnet (deref e)))" for a
    unfolding octets_eq by (simp add: octet_and list_eq_iff_nth_eq)
  show ?thesis
    by (cases littleEndian) (simp_all only: CheckIpv4_tick ipv4_pred_def masked htonl_octets Let_def if_True if_False simp_thms)
qed

text \<open>C25: The IPv6 check of two 16-byte addresses never reads past them. It matches exactly when
  the prefix length is at most 128, the whole bytes of the prefix agree, and of the
  byte the prefix ends in the low-order bits agree, where the prefix has the high-order ones.\<close>
theorem ipv6_check_prefix:
  assumes "MM_TYPE_CHECK cfi_tag e CALLISTO" "VALID_PAGE (ipv6Subnet (deref e))"
    and "length a = 16" "length (deref (ipv6Subnet (deref e))) = 16"
  shows "CheckIpv6 e (Ptr ta a) m = Inr (tick (let p = unat (ipv6Prefix (deref e));
      s = deref (ipv6Subnet (deref e)) in
    p \<le> 128 \<and> take (p div 8) a = take (p div 8) s
    \<and> take_bit (p mod 8) (if p < 128 then a ! (p div 8) else 0)
      = take_bit (p mod 8) (if p < 128 then s ! (p div 8) else 0)) m)"
proof -
  define p s where "p = unat (ipv6Prefix (deref e))" and "s = deref (ipv6Subnet (deref e))"
  have bytes: "take (p div 8) a = take (p div 8) s \<longleftrightarrow> (\<forall>j < p div 8. a ! j = s ! j)" if "p \<le> 128"
    using that assms(3,4) by (auto simp: s_def list_eq_iff_nth_eq)
  have bits: "(p mod 8 = 0 \<or> push_bit (8 - p mod 8) (a ! (p div 8)) = push_bit (8 - p mod 8) (s ! (p div 8)))
    \<longleftrightarrow> take_bit (p mod 8) (if p < 128 then a ! (p div 8) else 0)
      = take_bit (p mod 8) (if p < 128 then s ! (p div 8) else 0)" if "p \<le> 128"
    using that push_bit_low [of "p mod 8" "a ! (p div 8)" "s ! (p div 8)"] by auto
  have "ipv6_rest p a s 0 \<longleftrightarrow> p \<le> 128 \<and> take (p div 8) a = take (p div 8) s
    \<and> take_bit (p mod 8) (if p < 128 then a ! (p div 8) else 0)
      = take_bit (p mod 8) (if p < 128 then s ! (p div 8) else 0)"
    unfolding ipv6_rest_iff using bytes bits by auto
  then show ?thesis
    using CheckIpv6_exact [of e a ta m] assms by (simp add: p_def s_def Let_def)
qed

definition ipv6_item :: "u8 \<Rightarrow> u8 list \<Rightarrow> CFI ptr" where
  "ipv6_item p s = Ptr page ((blank_item MM_NET_LOCAL_IPV6_ADDR EQUALS)\<lparr>ipv6Prefix := p, ipv6Subnet := Ptr page s\<rparr>)"

text \<open>With the prefix 2000::/3 an address of another block matches, because its low bits are equal.\<close>

lemma ipv6_check_prefix_witness:
  "CheckIpv6 (ipv6_item 3 (0x20 # replicate 15 0)) (Ptr page (0xF8 # replicate 15 1)) 4 = Inr 5
   \<and> CheckIpv6 (ipv6_item 8 (0x20 # replicate 15 0)) (Ptr page (0xF8 # replicate 15 1)) 4 = Inr 4"
  using ipv6_check_prefix [of "ipv6_item 3 (0x20 # replicate 15 0)" "0xF8 # replicate 15 1" page 4]
    ipv6_check_prefix [of "ipv6_item 8 (0x20 # replicate 15 0)" "0xF8 # replicate 15 1" page 4]
  by (simp add: ipv6_item_def blank_item_def VALID_PAGE_def page_def)

section \<open>Strings\<close>

text \<open>What the eight string operators mean for the bytes of the pattern and of the lowered
  string.\<close>

definition str_meaning :: "u8 \<Rightarrow> u8 list \<Rightarrow> u8 list \<Rightarrow> bool" where
  "str_meaning mt pat str =
     switch mt
       [(EQUALS, pat = str), (NOT_EQUALS, pat \<noteq> str),
        (STARTS_WITH, prefix pat str), (NOT_STARTS_WITH, \<not> prefix pat str),
        (ENDS_WITH, suffix pat str), (NOT_ENDS_WITH, \<not> suffix pat str),
        (CONTAINS, sublist pat str), (NOT_CONTAINS, \<not> sublist pat str)] False"

text \<open>C23: Under the documented runtime the string check of a typed item counts exactly when the
  item's bytes, as they stand in the registry, are equal to, a prefix, a suffix or any part of the
  bytes of the lowered event string, or are not, as the operator says: a pattern with an
  upper-case letter never matches, and the search also finds it at an odd byte.\<close>
theorem string_check_meaning:
  assumes "rtl_documented R low" "pool_ample R" "cfi_tag e = CALLISTO"
    and "VALID_PAGE (item e)" "VALID_PAGE s" "wf_ustr (deref (item e))" "wf_ustr (deref s)"
    and "Buffer (deref (item e)) \<noteq> Null"
  shows "CheckUnicodeEntry R (Ptr a e) s m =
    tick (str_meaning (match_type e) (ustr_bytes (deref (item e))) (low (ustr_bytes (deref s)))) m"
proof -
  have "s \<noteq> Null" using assms(5) by auto
  moreover note string_tests [OF assms(1,2,4-8)]
  ultimately show ?thesis
    using assms(3) by (simp add: CheckUnicodeEntry_tick unicode_pred_def str_rel_def str_meaning_def)
qed

text \<open>The pattern "cmd" is found, the pattern "CMD" is not, and the single byte 0 that starts no
  UTF-16 unit of the string is.\<close>

lemma string_check_meaning_witness:
  "CheckUnicodeEntry ref_rtl (str_item IMAGE_FILE_NAME CONTAINS ''cmd'') (ustr ''C:/CMD.exe'') 0 = 1
   \<and> CheckUnicodeEntry ref_rtl (str_item IMAGE_FILE_NAME CONTAINS ''CMD'') (ustr ''C:/CMD.exe'') 0 = 0
   \<and> CheckUnicodeEntry ref_rtl (Ptr page ((blank_item IMAGE_FILE_NAME CONTAINS)
        \<lparr>item := Ptr page \<lparr>Length = 2, MaximumLength = 2, Buffer = Ptr page [0, 0x2F]\<rparr>\<rparr>)) (ustr ''C:/CMD.exe'') 0 = 1"
proof -
  let ?s = "ustr ''C:/CMD.exe''" and ?cmd = "str_item IMAGE_FILE_NAME CONTAINS ''cmd''"
    and ?CMD = "str_item IMAGE_FILE_NAME CONTAINS ''CMD''"
    and ?odd = "Ptr page ((blank_item IMAGE_FILE_NAME CONTAINS)
        \<lparr>item := Ptr page \<lparr>Length = 2, MaximumLength = 2, Buffer = Ptr page [0, 0x2F]\<rparr>\<rparr>)"
  have meaning: "str_meaning CONTAINS (ustr_bytes (deref (item (deref ?cmd)))) (lower_units (ustr_bytes (deref ?s)))"
    "\<not> str_meaning CONTAINS (ustr_bytes (deref (item (deref ?CMD)))) (lower_units (ustr_bytes (deref ?s)))"
    "str_meaning CONTAINS (ustr_bytes (deref (item (deref ?odd)))) (lower_units (ustr_bytes (deref ?s)))"
    by code_simp+
  have typed: "cfi_tag (deref x) = CALLISTO \<and> match_type (deref x) = CONTAINS \<and> VALID_PAGE (item (deref x))
      \<and> wf_ustr (deref (item (deref x))) \<and> Buffer (deref (item (deref x))) \<noteq> Null \<and> x = Ptr page (deref x)"
    if "x \<in> {?cmd, ?CMD, ?odd}" for x
    using that by (auto simp: str_item_def blank_item_def ustr_def VALID_PAGE_def page_def wf_ustr_def utf16_def)
  have s: "VALID_PAGE ?s" "wf_ustr (deref ?s)"
    by (simp_all add: ustr_def VALID_PAGE_def page_def wf_ustr_def utf16_def)
  have check: "CheckUnicodeEntry ref_rtl x ?s 0 = tick (str_meaning CONTAINS
      (ustr_bytes (deref (item (deref x)))) (lower_units (ustr_bytes (deref ?s)))) 0"
    if "x \<in> {?cmd, ?CMD, ?odd}" for x
    using string_check_meaning [OF ref_rtl_documented ref_rtl_ample, of "deref x" ?s page 0] typed [OF that] s
    by simp
  show ?thesis
    using meaning check [of ?cmd] check [of ?CMD] check [of ?odd] by simp
qed

section \<open>Ids\<close>

text \<open>C33: The ids given to the log records are fresh: no two of the first 2^64 - 16 calls return
  the same id and none returns 0, the value that means no id, from any start below the last sixteen values.\<close>
theorem record_ids_fresh:
  assumes "unat (gc_id G) < id_period" "n \<le> id_period"
  shows "distinct (mm_ids n G) \<and> 0 \<notin> set (mm_ids n G)"
  using assms by (rule mm_ids_fresh)

text \<open>Four calls across the wrap.\<close>

lemma record_ids_fresh_witness:
  "distinct (mm_ids 4 (blank_gc\<lparr>gc_id := 0xffffffffffffffee\<rparr>))
   \<and> 0 \<notin> set (mm_ids 4 (blank_gc\<lparr>gc_id := 0xffffffffffffffee\<rparr>))"
  by (rule record_ids_fresh) (simp_all add: id_period_def)

end
