(* ===== verification/MM_Config_Load.thy ===== *)
theory MM_Config_Load
  imports MM_Config
begin

text \<open>
  \<open>src/MoonMon/Config.c\<close>, second part: reading the configuration from the registry. The registry is a
  parameter: a record of the two queries the code makes.
\<close>

section \<open>Names\<close>

text \<open>Wide strings are lists of UTF-16 units without the terminator; \<open>wide\<close> is the literal \<open>L"..."\<close>.
  \<open>_wcsnicmp\<close> compares the first \<open>n\<close> units, ignoring the case of ASCII letters; only its equality
  is used.\<close>

definition wide :: "string \<Rightarrow> u16 list" where
  "wide s = map (\<lambda>c. of_nat (of_char c)) s"

definition wlower :: "u16 \<Rightarrow> u16" where
  "wlower c = (if 0x41 \<le> c \<and> c \<le> 0x5A then c + 0x20 else c)"

definition wcsnicmp_eq :: "u16 list \<Rightarrow> u16 list \<Rightarrow> nat \<Rightarrow> bool" where
  "wcsnicmp_eq a b n \<longleftrightarrow> map wlower (take n a) = map wlower (take n b)"

definition list_prefixes :: "(u16 \<times> string) list" where
  "list_prefixes =
    [(PROCESS_BLOCK_LIST, ''CFG_PBL_''),
     (PROCESS_INCLUDE_LIST, ''CFG_PINC_''),
     (PROCESS_EXCLUDE_LIST, ''CFG_PEXC_''),
     (PROCESS_TERMINATED_INCLUDE_LIST, ''CFG_PTINC_''),
     (PROCESS_TERMINATED_EXCLUDE_LIST, ''CFG_PTEXC_''),
     (THREAD_BLOCK_LIST, ''CFG_TBL_''),
     (THREAD_INCLUDE_LIST, ''CFG_TINC_''),
     (THREAD_EXCLUDE_LIST, ''CFG_TEXC_''),
     (MODULE_BLOCK_LIST, ''CFG_MBL_''),
     (MODULE_INCLUDE_LIST, ''CFG_MINC_''),
     (MODULE_EXCLUDE_LIST, ''CFG_MEXC''),
     (OBJECT_BLOCK_LIST, ''CFG_OBL_''),
     (OBJECT_INCLUDE_LIST, ''CFG_OINC_''),
     (OBJECT_EXCLUDE_LIST, ''CFG_OEXC_''),
     (REGISTRY_BLOCK_LIST, ''CFG_RBL_''),
     (REGISTRY_INCLUDE_LIST, ''CFG_RINC_''),
     (REGISTRY_EXCLUDE_LIST, ''CFG_REXC_''),
     (FILE_CREATE_BLOCK_LIST, ''CFG_FCBL_''),
     (FILE_CREATE_INCLUDE_LIST, ''CFG_FCINC_''),
     (FILE_CREATE_EXCLUDE_LIST, ''CFG_FCEXC_''),
     (FILE_SET_INFO_BLOCK_LIST, ''CFG_FSBL_''),
     (FILE_SET_INFO_INCLUDE_LIST, ''CFG_FSINC_''),
     (FILE_SET_INFO_EXCLUDE_LIST, ''CFG_FSEXC_''),
     (WFP_BLOCK_LIST, ''CFG_WBL_''),
     (WFP_INCLUDE_LIST, ''CFG_WINC_''),
     (WFP_EXCLUDE_LIST, ''CFG_WEXC_'')]"

fun resolve_loop :: "u16 list \<Rightarrow> (u16 \<times> string) list \<Rightarrow> u16" where
  "resolve_loop Name [] = 0"
| "resolve_loop Name ((key, value) # kvs) =
     (if length Name < length (wide value) then resolve_loop Name kvs
      else if wcsnicmp_eq (wide value) Name (length (wide value)) then key
      else resolve_loop Name kvs)"

definition resolveValueNameToList :: "u16 list ptr \<Rightarrow> u16" where
  "resolveValueNameToList Name = (case Name of Null \<Rightarrow> 0 | Ptr _ n \<Rightarrow> resolve_loop n list_prefixes)"

section \<open>Items\<close>

definition getFieldDataType :: "u16 \<Rightarrow> MM_TYPE" where
  "getFieldDataType ftype =
     switch ftype
       [(MM_FILE_DELETION, MM_BOOL),
        (MM_NET_DIRECTION, MM_UINT8), (MM_NET_IP_PROTOCOL, MM_UINT8),
        (MM_NET_ADDRESS_TYPE, MM_UINT8), (MM_NET_PROMISCUOUS, MM_UINT8),
        (MM_WFP_LAYER, MM_UINT16), (MM_FILE_NETWORK_PROTOCOL_VERSION_MAJOR, MM_UINT16),
        (MM_FILE_NETWORK_PROTOCOL_VERSION_MINOR, MM_UINT16), (MM_NET_LOCAL_PORT, MM_UINT16),
        (MM_NET_REMOTE_PORT, MM_UINT16),
        (REG_OP, MM_UINT32), (REG_DATA_TYPE, MM_UINT32),
        (MM_FILE_OPERATION, MM_UINT32), (MM_FILE_ACCESS_FLAGS, MM_UINT32),
        (MM_FILE_FLAGS, MM_UINT32), (MODULE_PROPERTIES, MM_UINT32),
        (CREATION_STATUS, MM_UINT32), (PHOPERATION, MM_UINT32),
        (PHDESIRED_ACCESS, MM_UINT32), (PHORIGINAL_DESIRED_ACCESS, MM_UINT32),
        (MM_FILE_NETWORK_PROTOCOL, MM_UINT32), (MM_NAMED_PIPE_TYPE, MM_UINT32),
        (MM_NAMED_PIPE_CONFIG, MM_UINT32), (MM_NAMED_PIPE_STATE, MM_UINT32),
        (MM_NAMED_PIPE_END, MM_UINT32), (MM_NET_INTERFACE_TYPE, MM_UINT32),
        (MM_FILE_CREATION_TIME, MM_UINT64), (MM_FILE_CHANGE_TIME, MM_UINT64),
        (MM_NET_LOCAL_IPV4_ADDR, MM_IPV4), (MM_NET_REMOTE_IPV4_ADDR, MM_IPV4),
        (MM_NET_LOCAL_IPV6_ADDR, MM_IPV6), (MM_NET_REMOTE_IPV6_ADDR, MM_IPV6),
        (TARGET_PARENT_IMAGE_FILE_NAME, MM_UNICODE), (TARGET_PARENT_COMMAND_LINE, MM_UNICODE),
        (TARGET_PWINDOW_TITLE, MM_UNICODE), (TARGET_PCWD, MM_UNICODE),
        (IMAGE_FILE_NAME, MM_UNICODE), (COMMAND_LINE, MM_UNICODE),
        (PARENT_IMAGE_FILE_NAME, MM_UNICODE), (PARENT_COMMAND_LINE, MM_UNICODE),
        (PCWD, MM_UNICODE), (PWINDOW_TITLE, MM_UNICODE),
        (LOADED_MODULE, MM_UNICODE), (TARGET_IMAGE_FILE_NAME, MM_UNICODE),
        (TARGET_COMMAND_LINE, MM_UNICODE), (REG_KEY, MM_UNICODE),
        (REG_KEY_NEW, MM_UNICODE), (REG_VALUE_NAME, MM_UNICODE),
        (REG_OLD_FILE_NAME, MM_UNICODE), (REG_NEW_FILE_NAME, MM_UNICODE),
        (MM_FILE_NAME, MM_UNICODE), (MM_FILE_VOLUME, MM_UNICODE),
        (MM_FILE_EXTENSION, MM_UNICODE), (MM_FILE_SHARE, MM_UNICODE),
        (MM_FILE_STREAM, MM_UNICODE), (MM_FILE_FINAL_COMPONENT, MM_UNICODE),
        (MM_FILE_PARENT_DIR, MM_UNICODE), (MM_FILE_NEW_NAME, MM_UNICODE),
        (MATCH_ID, MM_META), (LOG_FLAGS, MM_META),
        (EVENT_TYPE, MM_META), (EVENT_END, MM_META),
        (SID_DATA, MM_ENUM)] MM_BAD_TYPE"

text \<open>Reading \<open>n\<close> bytes at offset \<open>off\<close> of a buffer, and the integer \<open>RtlCopyMemory\<close> makes of
  them.\<close>

definition read_bytes :: "u8 list \<Rightarrow> nat \<Rightarrow> nat \<Rightarrow> u8 list res" where
  "read_bytes buf off n = (if off + n \<le> length buf then Inr (take n (drop off buf)) else Inl OutOfBounds)"

definition read_le :: "u8 list \<Rightarrow> nat \<Rightarrow> nat \<Rightarrow> 'a::len word res" where
  "read_le buf off n = andthen (read_bytes buf off n) (\<lambda>bs. Inr (of_nat (le_nat bs)))"

text \<open>The result of \<open>makeNewItem\<close>: its status, the item, and whether it has freed the item itself.
  \<open>k\<close> distinguishes the allocations of one call.\<close>

definition makeNewItem :: "rtl \<Rightarrow> u64 \<Rightarrow> CFI \<Rightarrow> u16 \<Rightarrow> u32 \<Rightarrow> u8 list \<Rightarrow> (NTSTATUS \<times> CFI \<times> bool) res" where
  "makeNewItem R k newitem ftype copy_size Data =
     (let data_type = getFieldDataType ftype;
          a = ExAllocatePool2 R k 16;
          empty = \<lparr>Length = 0, MaximumLength = 0, Buffer = Null\<rparr>;
          newitem' = newitem\<lparr>item := Ptr a empty\<rparr> in
      if a = 0 then Inr (STATUS_NO_MEMORY, newitem\<lparr>item := Null\<rparr>, True)
      else if data_type = MM_UNICODE then
        (let b = ExAllocatePool2 R (k + 1) (unat (copy_size + 1)) in
         if b = 0 then Inr (STATUS_NO_MEMORY, newitem', False) else
         andthen (read_bytes Data 0 (unat copy_size)) (\<lambda>bs.
           Inr (STATUS_SUCCESS,
             newitem\<lparr>item := Ptr a \<lparr>Length = ucast copy_size, MaximumLength = ucast copy_size,
                                     Buffer = Ptr b (bs @ [0])\<rparr>\<rparr>, False)))
      else if data_type = MM_IPV4 then
        (if copy_size < 8 then Inr (STATUS_BAD_DATA, newitem', False) else
         andthen (read_le Data 0 4) (\<lambda>mask. andthen (read_le Data 4 4) (\<lambda>subnet.
           Inr (STATUS_SUCCESS,
             newitem'\<lparr>ipv4SubnetMask := mask, ipv4Subnet := subnet, ipv6Subnet := Null\<rparr>, False))))
      else if data_type = MM_IPV6 then
        (if copy_size < 16 then Inr (STATUS_BAD_DATA, newitem', False) else
         andthen (read_le Data 16 1) (\<lambda>prefix_len.
         let b = ExAllocatePool2 R (k + 1) 16;
             newitem'' = newitem'\<lparr>ipv6Prefix := prefix_len\<rparr> in
         if b = 0 then Inr (STATUS_NO_MEMORY, newitem''\<lparr>ipv6Subnet := Null\<rparr>, False) else
         andthen (read_bytes Data 0 16) (\<lambda>bs.
           Inr (STATUS_SUCCESS, newitem''\<lparr>ipv6Subnet := Ptr b bs\<rparr>, False))))
      else if data_type = MM_META then Inr (STATUS_BAD_DATA, newitem', False)
      else if data_type = MM_BAD_TYPE then Inr (STATUS_BAD_DATA, newitem', False)
      else
        (case data_type of
           MM_BOOL \<Rightarrow> andthen (read_bytes Data 0 1) (\<lambda>bs.
             Inr (STATUS_SUCCESS, newitem'\<lparr>itemBoolean := (hd bs \<noteq> 0)\<rparr>, False))
         | MM_INT8 \<Rightarrow> andthen (read_le Data 0 1) (\<lambda>v.
             Inr (STATUS_SUCCESS, newitem'\<lparr>itemInt8 := v\<rparr>, False))
         | MM_UINT8 \<Rightarrow> andthen (read_le Data 0 1) (\<lambda>v.
             Inr (STATUS_SUCCESS, newitem'\<lparr>itemUint8 := v\<rparr>, False))
         | MM_UINT16 \<Rightarrow> andthen (read_le Data 0 2) (\<lambda>v.
             Inr (STATUS_SUCCESS, newitem'\<lparr>itemUshort := v\<rparr>, False))
         | MM_UINT32 \<Rightarrow> andthen (read_le Data 0 4) (\<lambda>v.
             Inr (STATUS_SUCCESS, newitem'\<lparr>itemUlong := v\<rparr>, False))
         | MM_UINT64 \<Rightarrow> andthen (read_le Data 0 8) (\<lambda>v.
             Inr (STATUS_SUCCESS, newitem'\<lparr>itemLonglong := v\<rparr>, False))
         | _ \<Rightarrow> Inr (STATUS_SUCCESS, newitem', False)))"

section \<open>The registry\<close>

text \<open>The queries of the settings key. \<open>ZwEnumerateValueKey\<close> takes the index and the size of the
  buffer and gives the status, the length it needs, and the name of the value; the two calls of
  \<open>ZwQueryValueKey\<close> are the one that asks for the size and the one that reads
  \<open>KEY_VALUE_PARTIAL_INFORMATION\<close>: type, \<open>DataLength\<close> and the bytes. \<open>ZwOpenKey\<close> is called for
  the service key and for its \<open>Settings\<close> subkey.\<close>

record value_info =
  vi_Type :: u32
  vi_Data :: "u8 list"

record registry =
  ZwOpenKey_service :: NTSTATUS
  ZwOpenKey_Settings :: NTSTATUS
  ZwEnumerateValueKey :: "u32 \<Rightarrow> u32 \<Rightarrow> NTSTATUS \<times> u32 \<times> u16 list"
  ZwQueryValueKey_size :: "u16 list \<Rightarrow> NTSTATUS \<times> u32"
  ZwQueryValueKey :: "u16 list \<Rightarrow> u32 \<Rightarrow> NTSTATUS \<times> value_info"

abbreviation REG_BINARY :: u32 where "REG_BINARY \<equiv> 3"

text \<open>The buffer the code reads the value into has twice the size the registry asked for and is
  zeroed: the bytes that can be read at \<open>regInfo->Data\<close>, which is at offset 12.\<close>

definition data_area :: "u32 \<Rightarrow> u8 list \<Rightarrow> u8 list" where
  "data_area requiredSize bs = take (unat (2 * requiredSize) - 12) (bs @ replicate (unat (2 * requiredSize) - 12) 0)"

definition vi_DataLength :: "value_info \<Rightarrow> u32" where
  "vi_DataLength v = of_nat (length (vi_Data v))"

section \<open>Global settings\<close>

definition validGlobalSettings :: "string list" where
  "validGlobalSettings =
    [''KEEP_EXCLUDES'', ''RESIST_TAMPERING'', ''PROCESS_CALLBACK'', ''THREAD_CALLBACK'',
     ''MODULE_CALLBACK'', ''OBJECT_CALLBACK'', ''REGISTRY_CALLBACK'', ''FILE_CALLBACK'',
     ''WFP_CALLBACK'']"

definition apply_setting :: "nat \<Rightarrow> GC \<Rightarrow> GC" where
  "apply_setting i G =
     switch i
       [(0, G\<lparr>KEEP_EXCLUDES := True\<rparr>), (1, G\<lparr>RESIST_TAMPERING := True\<rparr>),
        (2, G\<lparr>PROCESS_CALLBACK := True\<rparr>), (3, G\<lparr>THREAD_CALLBACK := True\<rparr>),
        (4, G\<lparr>MODULE_CALLBACK := True\<rparr>), (5, G\<lparr>OBJECT_CALLBACK := True\<rparr>),
        (6, G\<lparr>REGISTRY_CALLBACK := True\<rparr>), (7, G\<lparr>FILE_CALLBACK := True\<rparr>),
        (8, G\<lparr>WFP_CALLBACK := True\<rparr>)] G"

text \<open>The loop over the nine names. \<open>valueName->Length\<close> counts bytes, so the comparison runs over
  the whole of both strings.\<close>

fun settings_loop :: "rtl \<Rightarrow> registry \<Rightarrow> u16 list \<Rightarrow> nat \<Rightarrow> string list \<Rightarrow> GC \<Rightarrow> GC res" where
  "settings_loop R Z name i [] G = Inr G"
| "settings_loop R Z name i (s # ss) G =
     (if 2 * length name < length (wide s) then settings_loop R Z name (Suc i) ss G
      else if \<not> wcsnicmp_eq name (wide s) (2 * length name) then settings_loop R Z name (Suc i) ss G
      else case ZwQueryValueKey_size Z name of (status, requiredSize) \<Rightarrow>
        if \<not> (status = STATUS_BUFFER_OVERFLOW \<or> status = STATUS_BUFFER_TOO_SMALL) \<and> \<not> NT_SUCCESS status
        then Inr G
        else if ExAllocatePool2 R (of_nat i) (unat (requiredSize * 2)) = 0 then Inr G
        else case ZwQueryValueKey Z name requiredSize of (status, regInfo) \<Rightarrow>
          if NT_SUCCESS status \<and> vi_Type regInfo = REG_BINARY \<and> 1 \<le> vi_DataLength regInfo then
            andthen (index (data_area requiredSize (vi_Data regInfo)) 0) (\<lambda>d.
              settings_loop R Z name (Suc i) ss (if d = 1 then apply_setting i G else G))
          else settings_loop R Z name (Suc i) ss G)"

definition loadGlobalSetting :: "rtl \<Rightarrow> registry \<Rightarrow> GC \<Rightarrow> u16 list \<Rightarrow> GC res" where
  "loadGlobalSetting R Z G valueName = settings_loop R Z valueName 0 validGlobalSettings G"

section \<open>Loading the configuration\<close>

definition cfi_zero :: CFI where
  "cfi_zero = \<lparr>match_type = 0, itemBoolean = False, itemInt8 = 0, itemUint8 = 0, ipv6Prefix = 0,
     field_type = 0, itemUshort = 0, itemUlong = 0, ipv4Subnet = 0, ipv4SubnetMask = 0,
     itemLonglong = 0, ipv6Subnet = Null, item = Null, cfi_tag = ''''\<rparr>"

text \<open>The header of a rule in the registry, and the number of bytes to copy after it: at most what
  the value says, or all of the value's data but the header.\<close>

definition parse_CFG :: "u8 list \<Rightarrow> CFG res" where
  "parse_CFG Data =
     andthen (read_le Data 0 4) (\<lambda>size. andthen (read_le Data 4 2) (\<lambda>type.
     andthen (read_le Data 6 2) (\<lambda>field_type. andthen (read_le Data 8 1) (\<lambda>match_type.
     andthen (read_le Data 9 4) (\<lambda>i. andthen (read_le Data 13 4) (\<lambda>actions.
       Inr \<lparr>cfg_size = size, cfg_type = type, cfg_field_type = field_type,
            cfg_match_type = match_type, cfg_id = i, cfg_actions = actions\<rparr>))))))"

definition reg_copy_size :: "u32 \<Rightarrow> CFG \<Rightarrow> u32" where
  "reg_copy_size DataLength cfg = (if cfg_size cfg < DataLength then cfg_size cfg else DataLength - 17)"

text \<open>What the body of the loop does to one value: go on to the next (\<open>Next\<close>, with the increments of
  the index), leave the loop (\<open>Leave\<close>) or return (\<open>Return\<close>).\<close>

datatype load_step = Next nat NTSTATUS GC | Leave NTSTATUS GC | Return NTSTATUS GC

definition load_binary :: "rtl \<Rightarrow> u64 \<Rightarrow> u16 \<Rightarrow> u32 \<Rightarrow> value_info \<Rightarrow> NTSTATUS \<Rightarrow> GC \<Rightarrow> load_step res" where
  "load_binary R k found_list requiredSize regInfo status G =
     (let na = ExAllocatePool2 R k 56 in
      if na = 0 then Inr (Return STATUS_NO_MEMORY G) else
      let area = data_area requiredSize (vi_Data regInfo) in
      andthen (parse_CFG area) (\<lambda>cfg.
        let n = reg_copy_size (vi_DataLength regInfo) cfg in
        if n = 0 then Inr (Leave status G) else
        andthen (makeNewItem R (k + 1) cfi_zero (cfg_field_type cfg) n (drop 17 area))
          (\<lambda>(status, newitem, freed).
            if status = STATUS_BAD_DATA then Inr (Next 1 status G)
            else if \<not> NT_SUCCESS status then
              (if freed then Inl DoubleFree else Inr (Next 1 status G))
            else
              let newitem = newitem\<lparr>match_type := cfg_match_type cfg,
                                    field_type := cfg_field_type cfg, cfi_tag := CALLISTO\<rparr> in
              andthen (loadConfigItem R G found_list cfg (Ptr na newitem)) (\<lambda>(status, G').
                Inr (Next 1 status G')))))"

definition load_value :: "rtl \<Rightarrow> registry \<Rightarrow> u64 \<Rightarrow> u16 list \<Rightarrow> u32 \<Rightarrow> NTSTATUS \<Rightarrow> GC \<Rightarrow> load_step res" where
  "load_value R Z k name resultLength status G =
     (let found_list = resolveValueNameToList (Ptr 1 name) in
      if resultLength = 0 then Inr (Next 1 status G)
      else if 0 < found_list then
        case ZwQueryValueKey_size Z name of (status, requiredSize) \<Rightarrow>
          if \<not> (status = STATUS_BUFFER_OVERFLOW \<or> status = STATUS_BUFFER_TOO_SMALL) \<and> \<not> NT_SUCCESS status
          then Inr (Next 2 status G)
          else if ExAllocatePool2 R (k + 3) (unat (requiredSize * 2)) = 0
          then Inr (Return STATUS_NO_MEMORY G)
          else case ZwQueryValueKey Z name requiredSize of (status, regInfo) \<Rightarrow>
            if NT_SUCCESS status \<and> vi_Type regInfo = REG_BINARY
            then load_binary R k found_list requiredSize regInfo status G
            else Inr (Next 1 status G)
      else andthen (loadGlobalSetting R Z G name) (\<lambda>G'. Inr (Next 1 status G')))"

text \<open>The loop. \<open>STATUS_BUFFER_OVERFLOW\<close> enlarges the buffer and retries the same index, for ever if
  the registry keeps answering so; hence the fuel, and \<open>None\<close> for a loop that has not ended. The
  terminator is stored at \<open>Name[NameLength]\<close>, an index that counts bytes into an array of 16-bit units
  at offset 12 of the buffer.\<close>

fun load_loop :: "rtl \<Rightarrow> registry \<Rightarrow> nat \<Rightarrow> u32 \<Rightarrow> u32 \<Rightarrow> GC \<Rightarrow> (NTSTATUS \<times> GC) res option" where
  "load_loop R Z 0 idx sz_kv G = None"
| "load_loop R Z (Suc fuel) idx sz_kv G =
     (let k = 16 * ucast idx + 1000 in
      if ExAllocatePool2 R k (unat sz_kv) = 0 then Some (Inr (STATUS_NO_MEMORY, G)) else
      case ZwEnumerateValueKey Z idx sz_kv of (status, resultLength, name) \<Rightarrow>
        if status = STATUS_NO_MORE_ENTRIES then Some (Inr (STATUS_SUCCESS, G))
        else if status = STATUS_BUFFER_OVERFLOW then load_loop R Z fuel idx (resultLength + 1) G
        else if \<not> NT_SUCCESS status then Some (Inr (status, G))
        else if unat sz_kv < 14 + 4 * length name then Some (Inl OutOfBounds)
        else if ExAllocatePool2 R (k + 1) 16 = 0 then Some (Inr (STATUS_NO_MEMORY, G))
        else case load_value R Z (k + 2) name resultLength status G of
          Inl e \<Rightarrow> Some (Inl e)
        | Inr (Return st G') \<Rightarrow> Some (Inr (st, G'))
        | Inr (Leave st G') \<Rightarrow> Some (Inr (st, G'))
        | Inr (Next d st G') \<Rightarrow>
            let idx' = idx + of_nat d in
            if BLOCKLIST_MAX \<le> idx' then Some (Inr (st, G')) else load_loop R Z fuel idx' sz_kv G')"

definition LoadConfig :: "rtl \<Rightarrow> registry \<Rightarrow> nat \<Rightarrow> GC \<Rightarrow> (NTSTATUS \<times> GC) res option" where
  "LoadConfig R Z fuel G =
     (if \<not> NT_SUCCESS (ZwOpenKey_service Z) then Some (Inr (ZwOpenKey_service Z, G))
      else if \<not> NT_SUCCESS (ZwOpenKey_Settings Z) then Some (Inr (ZwOpenKey_Settings Z, G))
      else load_loop R Z fuel 0 4096 G)"

section \<open>Names of lists\<close>

definition name_has :: "u16 list \<Rightarrow> string \<Rightarrow> bool" where
  "name_has n p \<longleftrightarrow> prefix (map wlower (wide p)) (map wlower n)"

lemma wcsnicmp_prefix:
  "length (wide p) \<le> length n \<and> wcsnicmp_eq (wide p) n (length (wide p)) \<longleftrightarrow> name_has n p"
proof
  assume "length (wide p) \<le> length n \<and> wcsnicmp_eq (wide p) n (length (wide p))"
  then have "map wlower (wide p) = take (length (wide p)) (map wlower n)"
    by (simp add: wcsnicmp_eq_def take_map)
  then show "name_has n p" unfolding name_has_def by (metis take_is_prefix)
next
  assume "name_has n p"
  then obtain r where r: "map wlower n = map wlower (wide p) @ r"
    by (auto simp: name_has_def prefix_def)
  then have "length n = length (wide p) + length r"
    by (metis length_append length_map)
  moreover have "take (length (wide p)) (map wlower n) = map wlower (wide p)"
    by (simp add: r)
  ultimately show "length (wide p) \<le> length n \<and> wcsnicmp_eq (wide p) n (length (wide p))"
    by (simp add: wcsnicmp_eq_def take_map)
qed

lemma resolve_loop_cons:
  "resolve_loop n ((key, p) # kvs) = (if name_has n p then key else resolve_loop n kvs)"
  using wcsnicmp_prefix [of p n] by (auto simp: not_less)

lemma resolve_loop_none:
  "\<forall>(k, p) \<in> set kvs. \<not> name_has n p \<Longrightarrow> resolve_loop n kvs = 0"
  by (induction kvs) (auto simp del: resolve_loop.simps(2) simp: resolve_loop_cons)

text \<open>No two prefixes can start the same name: the literals are made of capitals and underscores,
  on which the folding of case is injective, and none of them is a prefix of another.\<close>

definition plain :: string where
  "plain = ''ABCDEFGHIJKLMNOPQRSTUVWXYZ_''"

lemma plain_inj: "inj_on (\<lambda>c. wlower (of_nat (of_char c))) (set plain)"
proof -
  have "distinct (map (\<lambda>c. wlower (of_nat (of_char c))) plain)"
    by (simp add: plain_def wlower_def)
  then show ?thesis by (simp add: distinct_map)
qed

lemma prefix_map_inj:
  assumes "inj_on f S" "set xs \<subseteq> S" "set ys \<subseteq> S" "prefix (map f xs) (map f ys)"
  shows "prefix xs ys"
  using assms(2-)
proof (induction xs arbitrary: ys)
  case (Cons x xs)
  then obtain y zs where ys: "ys = y # zs" by (cases ys) auto
  then have "f x = f y" "prefix (map f xs) (map f zs)" using Cons.prems by auto
  then show ?case
    using Cons.IH [of zs] Cons.prems ys inj_onD [OF assms(1), of x y] by auto
qed simp

definition clash :: "string \<Rightarrow> string \<Rightarrow> bool" where
  "clash p q \<longleftrightarrow> prefix p q \<or> prefix q p"

lemma name_has_clash:
  assumes "name_has n p" "name_has n q" "set p \<subseteq> set plain" "set q \<subseteq> set plain"
  shows "clash p q"
proof -
  let ?f = "\<lambda>c. wlower (of_nat (of_char c))"
  have w: "map wlower (wide s) = map ?f s" for s by (simp add: wide_def)
  have "prefix (map ?f p) (map ?f q) \<or> prefix (map ?f q) (map ?f p)"
    using assms(1,2) unfolding name_has_def w by (meson prefix_same_cases)
  then show ?thesis
    using prefix_map_inj [OF plain_inj] assms(3,4) unfolding clash_def by blast
qed

fun clash_free :: "(u16 \<times> string) list \<Rightarrow> bool" where
  "clash_free [] = True"
| "clash_free ((k, p) # kvs) = (set p \<subseteq> set plain \<and> list_all (\<lambda>(_, q). \<not> clash p q) kvs \<and> clash_free kvs)"

lemma list_prefixes_clash_free: "clash_free list_prefixes"
  by (simp add: list_prefixes_def clash_def plain_def)

lemma clash_free_plain: "clash_free kvs \<Longrightarrow> (k, p) \<in> set kvs \<Longrightarrow> set p \<subseteq> set plain"
  by (induction kvs) auto

lemma resolve_loop_unique:
  assumes "clash_free kvs" "(k, p) \<in> set kvs" "name_has n p"
  shows "resolve_loop n kvs = k"
  using assms
proof (induction kvs)
  case (Cons kv kvs)
  obtain k' p' where kv: "kv = (k', p')" by (cases kv)
  show ?case
  proof (cases "(k, p) = kv")
    case True
    then show ?thesis using Cons.prems kv by (simp add: resolve_loop_cons del: resolve_loop.simps)
  next
    case False
    then have mem: "(k, p) \<in> set kvs" using Cons.prems by simp
    then have "\<not> clash p' p" using Cons.prems(1) kv by (auto simp: list_all_iff)
    then have "\<not> name_has n p'"
      using name_has_clash [of n p' p] Cons.prems clash_free_plain [OF Cons.prems(1)] kv by auto
    then show ?thesis
      using Cons.IH mem Cons.prems kv by (simp add: resolve_loop_cons del: resolve_loop.simps)
  qed
qed simp

lemma prefix_types_resolve: "list_all (\<lambda>(k, _). list_of_type k \<noteq> None \<and> 0 < k) list_prefixes"
  by code_simp

section \<open>Settings only switch on\<close>

text \<open>The order \<open>flags_le G G'\<close>: every flag that is set in \<open>G\<close> is set in \<open>G'\<close>.\<close>

definition flags :: "GC \<Rightarrow> bool list" where
  "flags G = [PROCESS_CALLBACK G, THREAD_CALLBACK G, MODULE_CALLBACK G, OBJECT_CALLBACK G,
     REGISTRY_CALLBACK G, FILE_CALLBACK G, WFP_CALLBACK G, KEEP_EXCLUDES G, RESIST_TAMPERING G]"

definition flags_le :: "GC \<Rightarrow> GC \<Rightarrow> bool" where
  "flags_le G G' \<longleftrightarrow> list_all2 (\<longrightarrow>) (flags G) (flags G')"

lemma flags_le_refl [simp]: "flags_le G G"
  by (simp add: flags_le_def flags_def)

lemma flags_le_trans: "flags_le G G' \<Longrightarrow> flags_le G' G'' \<Longrightarrow> flags_le G G''"
  by (auto simp: flags_le_def flags_def)

lemma apply_setting_le: "flags_le G (apply_setting i G)"
  unfolding apply_setting_def by (rule switch_cases) (simp_all add: flags_le_def flags_def)

lemma settings_loop_le: "settings_loop R Z name i ss G = Inr G' \<Longrightarrow> flags_le G G'"
proof (induction ss arbitrary: i G)
  case (Cons s ss)
  obtain st n where q: "ZwQueryValueKey_size Z name = (st, n)" by force
  obtain st' info where v: "ZwQueryValueKey Z name n = (st', info)" by force
  show ?case
    using Cons.prems
    by (auto simp: q v andthen_Inr_iff split: if_splits dest!: Cons.IH
        intro: flags_le_trans [OF apply_setting_le])
qed simp

lemma loadConfigItem_flags:
  "loadConfigItem R G t cfg x = Inr (st, G') \<Longrightarrow> flags G' = flags G"
  by (auto simp: loadConfigItem_def andthen_Inr_iff Let_def set_list_def set_count_def flags_def
      split: prod.splits ptr.splits option.splits if_splits)

lemma load_binary_flags:
  assumes "load_binary R k t n info st G = Inr step"
  shows "\<exists>st' G'. (step = Leave st' G' \<or> step = Return st' G' \<or> step = Next 1 st' G') \<and> flags G' = flags G"
  using assms loadConfigItem_flags [of R G t]
  by (auto simp: load_binary_def andthen_Inr_iff Let_def split: if_splits prod.splits)

lemma load_value_flags:
  assumes "load_value R Z k name rl st G = Inr step"
  shows "\<exists>st' G'. (step = Leave st' G' \<or> step = Return st' G' \<or> step = Next 1 st' G' \<or> step = Next 2 st' G')
    \<and> flags_le G G'"
proof -
  have eq: "flags G' = flags G \<Longrightarrow> flags_le G G'" for G'
    by (simp add: flags_le_def list_all2_refl)
  show ?thesis
    using assms settings_loop_le [of R Z name 0 validGlobalSettings G]
    by (auto simp: load_value_def loadGlobalSetting_def andthen_Inr_iff Let_def
        split: if_splits prod.splits dest!: load_binary_flags intro: eq)
qed

lemma load_loop_flags:
  "load_loop R Z fuel idx sz G = Some (Inr (st, G')) \<Longrightarrow> flags_le G G'"
proof (induction R Z fuel idx sz G rule: load_loop.induct)
  case (2 R Z fuel idx sz G)
  obtain st rl name where e: "ZwEnumerateValueKey Z idx sz = (st, rl, name)" by (metis prod_cases3)
  let ?k = "16 * ucast idx + 1000"
  show ?case
  proof (cases "load_value R Z (?k + 2) name rl st G")
    case (Inl f)
    then show ?thesis using 2 e by (auto simp: Let_def split: if_splits)
  next
    case (Inr step)
    from load_value_flags [OF Inr] show ?thesis
      using 2 e Inr by (auto simp: Let_def split: if_splits intro: flags_le_trans)
  qed
qed simp

lemma LoadConfig_flags_le: "LoadConfig R Z fuel G = Some (Inr (st, G')) \<Longrightarrow> flags_le G G'"
  by (auto simp: LoadConfig_def split: if_splits dest: load_loop_flags)

section \<open>The loop ends\<close>

text \<open>What the documentation of \<open>ZwEnumerateValueKey\<close> promises: a buffer of the length it has
  reported is large enough.\<close>

definition enum_documented :: "registry \<Rightarrow> bool" where
  "enum_documented Z \<longleftrightarrow> (\<forall>idx sz rl name.
     ZwEnumerateValueKey Z idx sz = (STATUS_BUFFER_OVERFLOW, rl, name) \<longrightarrow>
     fst (ZwEnumerateValueKey Z idx (rl + 1)) \<noteq> STATUS_BUFFER_OVERFLOW)"

text \<open>One pass that does not overflow ends or moves to a higher index.\<close>

lemma load_loop_pass:
  assumes "fst (ZwEnumerateValueKey Z idx sz) \<noteq> STATUS_BUFFER_OVERFLOW" "idx < 32000"
    and "\<And>idx' G'. \<lbrakk>unat idx < unat idx'; idx' < 32000\<rbrakk> \<Longrightarrow> load_loop R Z fuel idx' sz G' \<noteq> None"
  shows "load_loop R Z (Suc fuel) idx sz G \<noteq> None"
proof -
  obtain st rl name where e: "ZwEnumerateValueKey Z idx sz = (st, rl, name)" by (metis prod_cases3)
  have d: "unat idx < unat (idx + 1)" "unat idx < unat (idx + 2)"
    using assms(2) by (auto simp: word_less_nat_alt unat_word_ariths)
  let ?k = "16 * ucast idx + 1000"
  show ?thesis
  proof (cases "load_value R Z (?k + 2) name rl st G")
    case (Inl f)
    then show ?thesis using assms(1) e by (simp add: Let_def)
  next
    case (Inr step)
    from load_value_flags [OF Inr] show ?thesis
      using assms(1) assms(3) [OF d(1)] assms(3) [OF d(2)] e Inr
      by (auto simp: Let_def not_le)
  qed
qed

lemma load_loop_ends:
  assumes "enum_documented Z" "idx < 32000" "2 * (32000 - unat idx) \<le> fuel"
  shows "load_loop R Z fuel idx sz G \<noteq> None"
  using assms(2,3)
proof (induction "32000 - unat idx" arbitrary: idx fuel sz G rule: less_induct)
  case less
  have idx: "unat idx < 32000" using less.prems(1) by (simp add: word_less_nat_alt)
  then obtain fuel' where f: "fuel = Suc (Suc fuel')"
    using less.prems(2) by (metis Suc_diff_Suc add_2_eq_Suc le_Suc_ex mult_2_right mult.commute add_Suc_right add_Suc)
  have later: "load_loop R Z m idx' s G' \<noteq> None"
    if "unat idx < unat idx'" "idx' < 32000" "fuel' \<le> m" for idx' s G' m
    using that idx less.prems(2) f
    by (intro less.hyps) (auto simp: word_less_nat_alt)
  show ?case
  proof (cases "fst (ZwEnumerateValueKey Z idx sz) = STATUS_BUFFER_OVERFLOW")
    case False
    show ?thesis
      unfolding f by (rule load_loop_pass [OF False less.prems(1)], rule later) auto
  next
    case True
    then obtain rl name where e: "ZwEnumerateValueKey Z idx sz = (STATUS_BUFFER_OVERFLOW, rl, name)"
      by (metis fst_conv surj_pair)
    then have again: "fst (ZwEnumerateValueKey Z idx (rl + 1)) \<noteq> STATUS_BUFFER_OVERFLOW"
      using assms(1) by (auto simp: enum_documented_def)
    have "load_loop R Z (Suc fuel') idx (rl + 1) G \<noteq> None"
      by (rule load_loop_pass [OF again less.prems(1)], rule later) auto
    then show ?thesis
      unfolding f using e by (subst load_loop.simps(2)) (simp add: Let_def)
  qed
qed

lemma LoadConfig_ends:
  assumes "enum_documented Z" "64000 \<le> fuel"
  shows "LoadConfig R Z fuel G \<noteq> None"
  using load_loop_ends [OF assms(1), of 0 fuel] assms(2) by (simp add: LoadConfig_def)

section \<open>What an item holds\<close>

text \<open>The field a data type is decoded into; the other value fields stay zero.\<close>

lemma makeNewItem_direction:
  assumes "makeNewItem R k cfi_zero MM_NET_DIRECTION n Data = Inr (st, x, freed)"
  shows "itemInt8 x = 0"
  using assms by (auto simp: makeNewItem_def getFieldDataType_def Let_def andthen_Inr_iff cfi_zero_def
      split: if_splits)

lemma makeNewItem_interface:
  assumes "ExAllocatePool2 R k 16 \<noteq> 0"
  shows "\<exists>x. makeNewItem R k cfi_zero MM_NET_INTERFACE n Data = Inr (STATUS_BAD_DATA, x, False)"
  using assms by (simp add: makeNewItem_def getFieldDataType_def Let_def)

text \<open>An item never holds an IPv6 prefix shorter than 16 bytes.\<close>

lemma makeNewItem_wf:
  assumes "makeNewItem R k cfi_zero ft n Data = Inr (STATUS_SUCCESS, x, freed)"
  shows "wf_item (Ptr a (x\<lparr>match_type := m, field_type := ft', cfi_tag := tg\<rparr>))"
  using assms
  by (auto simp: makeNewItem_def Let_def andthen_Inr_iff cfi_zero_def wf_item_def read_bytes_def
      split: if_splits MM_TYPE.splits)

text \<open>The bytes a value of a data type needs.\<close>

lemma makeNewItem_in_bounds:
  assumes "unat n \<le> length Data" "17 \<le> length Data"
  shows "\<exists>r. makeNewItem R k x ft n Data = Inr r"
  using assms
  by (auto simp: makeNewItem_def Let_def read_bytes_def read_le_def split: MM_TYPE.splits)

section \<open>The copy stays inside the value's buffer\<close>

lemma length_data_area [simp]:
  "length (data_area r bs) = unat (2 * r) - 12"
  by (simp add: data_area_def)

lemma data_area_documented:
  assumes "length bs < 2 ^ 30" "r = of_nat (12 + length bs)"
  shows "length (data_area r bs) = 2 * length bs + 12" "vi_DataLength \<lparr>vi_Type = t, vi_Data = bs\<rparr> = of_nat (length bs)"
proof -
  have "unat (2 * r) = 2 * (12 + length bs)"
    using assms by (simp add: unat_word_ariths unat_of_nat take_bit_nat_eq_self)
  then show "length (data_area r bs) = 2 * length bs + 12" by simp
qed (simp add: vi_DataLength_def)

lemma parse_CFG_Inr: "17 \<le> length area \<Longrightarrow> \<exists>cfg. parse_CFG area = Inr cfg"
  by (simp add: parse_CFG_def read_le_def read_bytes_def)

text \<open>A value at least as long as the header is read within its buffer, whatever its size field
  says and whatever the field is.\<close>

lemma copy_in_bounds:
  assumes "17 \<le> length bs" "length bs < 2 ^ 30" "r = of_nat (12 + length bs)"
  shows "\<exists>cfg res. parse_CFG (data_area r bs) = Inr cfg
    \<and> makeNewItem R k x (cfg_field_type cfg) (reg_copy_size (of_nat (length bs)) cfg)
        (drop 17 (data_area r bs)) = Inr res"
proof -
  have len: "length (data_area r bs) = 2 * length bs + 12"
    using data_area_documented(1) [OF assms(2,3)] .
  then obtain cfg where cfg: "parse_CFG (data_area r bs) = Inr cfg"
    using parse_CFG_Inr [of "data_area r bs"] assms(1) by auto
  have dl: "unat (of_nat (length bs) :: u32) = length bs"
    using assms(2) by (simp add: unat_of_nat take_bit_nat_eq_self)
  have "unat (reg_copy_size (of_nat (length bs)) cfg) \<le> length bs"
    using dl assms(1) by (auto simp: reg_copy_size_def word_less_nat_alt unat_sub_if')
  then show ?thesis
    using cfg makeNewItem_in_bounds [of "reg_copy_size (of_nat (length bs)) cfg"
        "drop 17 (data_area r bs)" R k x "cfg_field_type cfg"] len assms(1) by auto
qed

text \<open>A shorter one is not: the subtraction of the header wraps, and a string is copied from far
  outside the buffer.\<close>

lemma short_value_wraps:
  assumes "length bs < 17" "r = of_nat (12 + length bs)" "parse_CFG (data_area r bs) = Inr cfg"
    and "of_nat (length bs) \<le> cfg_size cfg" "getFieldDataType (cfg_field_type cfg) = MM_UNICODE"
    and "pool_ample R"
  shows "makeNewItem R k x (cfg_field_type cfg) (reg_copy_size (of_nat (length bs)) cfg)
      (drop 17 (data_area r bs)) = Inl OutOfBounds"
proof -
  have len: "length (data_area r bs) = 2 * length bs + 12"
    using data_area_documented(1) [of bs r] assms(1,2) by simp
  have c: "reg_copy_size (of_nat (length bs)) cfg = of_nat (length bs) - 17"
    using assms(4) by (auto simp: reg_copy_size_def)
  have "unat (of_nat (length bs) :: u32) = length bs"
    using assms(1) by (simp add: unat_of_nat take_bit_nat_eq_self)
  then have "unat (of_nat (length bs) - 17 :: u32) = 4294967296 + length bs - 17"
    using assms(1) by (simp add: unat_sub_if' word_le_nat_alt)
  then show ?thesis
    using assms len c by (simp add: makeNewItem_def Let_def pool_ample_def read_bytes_def)
qed

end
