(* ===== verification/MM_Config_Properties.thy ===== *)
theory MM_Config_Properties
  imports MM_Config_Load MM_Samples
begin

text \<open>
  What \<open>src/MoonMon/Config.c\<close> promises: which list a value belongs to, how items become rules, that loading
  ends and stays inside its buffers, and what unloading releases.
\<close>

section \<open>Sample registry\<close>

text \<open>A rule of the process block list as the agent writes it: the 17-byte header (size, type, field
  type, match type, id, actions) and the pattern.\<close>

definition rule_bytes :: "u16 \<Rightarrow> u8 \<Rightarrow> u32 \<Rightarrow> u8 list \<Rightarrow> u8 list" where
  "rule_bytes ft mt i bs = le_bytes 4 (length bs) @ le_bytes 2 1 @ le_bytes 2 (unat ft) @ [mt]
     @ le_bytes 4 (unat i) @ le_bytes 4 0 @ bs"

text \<open>A settings key that holds one rule and one setting, and needs a larger buffer for the first
  value than the code starts with.\<close>

definition sample_registry :: registry where
  "sample_registry = \<lparr>ZwOpenKey_service = 0, ZwOpenKey_Settings = 0,
     ZwEnumerateValueKey = \<lambda>i sz. if i = 0
       then (if sz < 5000 then (STATUS_BUFFER_OVERFLOW, 5000, []) else (0, 30, wide ''CFG_PBL_1''))
       else if i = 1 then (0, 30, wide ''KEEP_EXCLUDES'') else (STATUS_NO_MORE_ENTRIES, 0, []),
     ZwQueryValueKey_size = \<lambda>n. (STATUS_BUFFER_TOO_SMALL, if n = wide ''CFG_PBL_1'' then 43 else 13),
     ZwQueryValueKey = \<lambda>n sz. (0, \<lparr>vi_Type = 3, vi_Data = if n = wide ''CFG_PBL_1''
       then rule_bytes IMAGE_FILE_NAME ENDS_WITH 7 (utf16 ''a.exe'') else [1]\<rparr>)\<rparr>"

text \<open>A context whose process block list is empty and has room for four groups, and one with the
  table the code allocates.\<close>

definition small_gc :: GC where
  "small_gc = blank_gc\<lparr>gc_list := (\<lambda>_. Ptr page (replicate 4 Null))\<rparr>"

definition fresh_gc :: GC where
  "fresh_gc = blank_gc\<lparr>gc_list := (\<lambda>_. Ptr page (replicate 65535 Null))\<rparr>"

lemma fresh_built: "built_list fresh_gc l" "gc_COUNT fresh_gc l = 0" "rules_of fresh_gc l = []"
  by (simp_all add: built_list_def rules_of_def fresh_gc_def blank_gc_def page_def VALID_PAGE_def)

definition cfg_with :: "u32 \<Rightarrow> u32 \<Rightarrow> CFG" where
  "cfg_with i a = \<lparr>cfg_size = 0, cfg_type = 0, cfg_field_type = 0, cfg_match_type = 0, cfg_id = i,
     cfg_actions = a\<rparr>"

definition an_item :: "CFI ptr" where
  "an_item = str_item IMAGE_FILE_NAME EQUALS ''c:/a.exe''"

lemma an_item_wf [simp]: "wf_item an_item"
  by (simp add: an_item_def str_item_def blank_item_def wf_item_def)

section \<open>Names\<close>

text \<open>C30: A value belongs to the list whose prefix its name starts with, upper or lower case; the 26
  prefixes exclude one another, so the order of the table does not matter, each of their types is
  the type of a list, and a name with none of the prefixes gives 0.\<close>
theorem value_names_resolve:
  "(\<forall>(k, p) \<in> set list_prefixes. name_has n p \<longrightarrow>
      resolveValueNameToList (Ptr a n) = k \<and> list_of_type k \<noteq> None)
   \<and> ((\<forall>(k, p) \<in> set list_prefixes. \<not> name_has n p) \<longrightarrow> resolveValueNameToList (Ptr a n) = 0)"
proof -
  have "list_of_type k \<noteq> None" if "(k, p) \<in> set list_prefixes" for k p
    using prefix_types_resolve that by (auto simp: list_all_iff)
  then show ?thesis
    using resolve_loop_unique [OF list_prefixes_clash_free, of _ _ n] resolve_loop_none [of list_prefixes n]
    by (auto simp: resolveValueNameToList_def)
qed

lemma value_names_resolve_witness:
  "resolveValueNameToList (Ptr 1 (wide ''cfg_ptinc_4'')) = PROCESS_TERMINATED_INCLUDE_LIST
   \<and> resolveValueNameToList (Ptr 1 (wide ''RESIST_TAMPERING'')) = 0"
proof -
  have "(PROCESS_TERMINATED_INCLUDE_LIST, ''CFG_PTINC_'') \<in> set list_prefixes"
    "name_has (wide ''cfg_ptinc_4'') ''CFG_PTINC_''"
    by (simp_all add: list_prefixes_def name_has_def wide_def wlower_def)
  moreover have "\<forall>(k, p) \<in> set list_prefixes. \<not> name_has (wide ''RESIST_TAMPERING'') p"
    by (simp add: list_prefixes_def name_has_def wide_def wlower_def)
  ultimately show ?thesis
    using value_names_resolve [of "wide ''cfg_ptinc_4''" 1]
      value_names_resolve [of "wide ''RESIST_TAMPERING''" 1] by blast
qed

section \<open>Items and rules\<close>

text \<open>C11: Inserting one item: with memory, a free slot and room in its group, \<open>loadConfigItem\<close> succeeds
  and the abstract list gains the item in the rule of its id, whose action is masked by the
  item's, or a new rule at the end; the list stays well formed and no other list changes.\<close>
theorem insert_item_refines:
  assumes "list_of_type t = Some l" "built_list G l" "wf_item x"
    and "\<forall>r \<in> set (rules_of G l). fst r = cfg_id cfg \<longrightarrow> length (snd (snd r)) < 256"
    and "gc_COUNT G l < 65535" "pool_ample R"
  shows "\<exists>G'. loadConfigItem R G t cfg x = Inr (STATUS_SUCCESS, G')
     \<and> rules_of G' l = add_rule (rules_of G l) (cfg_id cfg) (cfg_actions cfg) x
     \<and> built_list G' l
     \<and> (\<forall>l'. l' \<noteq> l \<longrightarrow> gc_list G' l' = gc_list G l' \<and> gc_COUNT G' l' = gc_COUNT G l')"
  by (rule loadConfigItem_refines) (fact assms)+

lemma insert_item_refines_witness:
  "\<exists>G'. loadConfigItem ref_rtl fresh_gc REGISTRY_BLOCK_LIST (cfg_with 7 3) an_item = Inr (STATUS_SUCCESS, G')
     \<and> rules_of G' RBL = [(7, 3, [an_item])]"
proof -
  have "list_of_type REGISTRY_BLOCK_LIST = Some RBL" by (simp add: list_of_type_def)
  from insert_item_refines [OF this fresh_built(1) an_item_wf, of "cfg_with 7 3" ref_rtl]
  show ?thesis using ref_rtl_ample by (auto simp: fresh_built cfg_with_def)
qed

text \<open>C35: The 257th item of a rule is written past the group's array: nothing checks its 256
  entries.\<close>
theorem insert_item_overflow:
  assumes "list_of_type t = Some l" "built_list G l"
    and "r \<in> set (rules_of G l)" "fst r = cfg_id cfg" "length (snd (snd r)) = 256"
  shows "loadConfigItem R G t cfg x = Inl OutOfBounds"
  using assms by (rule loadConfigItem_overflow)

definition full_group :: CONFIG_GROUP where
  "full_group = \<lparr>entries = replicate 256 an_item, cg_count = 256, cg_id = 7, cg_actions = 0, cg_tag = CALIBAN\<rparr>"

definition full_gc :: GC where
  "full_gc = set_count RBL 1 (set_list RBL (Ptr page (Ptr page full_group # replicate 65534 Null)) blank_gc)"

lemma full_gc_built: "built_list full_gc RBL" "rules_of full_gc RBL = [(7, 0, replicate 256 an_item)]"
proof -
  show rules: "rules_of full_gc RBL = [(7, 0, replicate 256 an_item)]"
    by (simp add: rules_of_def full_gc_def set_count_def set_list_def live_groups_def full_group_def
        abs_group_def group_items_def)
  have "wf_group full_group"
    by (simp add: wf_group_def full_group_def group_items_def list_all_iff)
  then show "built_list full_gc RBL"
    unfolding built_list_def rules
    by (simp add: full_gc_def set_count_def set_list_def built_group_def page_def VALID_PAGE_def)
       (simp add: full_group_def)
qed

lemma insert_item_overflow_witness:
  "loadConfigItem ref_rtl full_gc REGISTRY_BLOCK_LIST (cfg_with 7 3) an_item = Inl OutOfBounds"
  by (rule insert_item_overflow [of _ RBL _ "(7, 0, replicate 256 an_item)"])
     (simp_all add: list_of_type_def full_gc_built cfg_with_def)

text \<open>Loading the items of an empty list one by one groups them by id: each id that occurs has
  exactly one rule, whose items are the items of that id in the order they came in, and whose
  action is the conjunction of theirs.\<close>
lemma loaded_items_grouped:
  assumes "list_of_type t = Some l" "pool_ample R" "built_list G l" "gc_COUNT G l = 0"
    and "list_all (\<lambda>(_, x). wf_item x) xs" "length xs \<le> 65535"
    and "\<forall>i. length (filter (\<lambda>e. fst e = i) (map item_of xs)) \<le> 256"
  shows "\<exists>G'. load_items R G t xs = Inr G' \<and> built_list G' l \<and> distinct (map fst (rules_of G' l))
     \<and> (\<forall>i. map_of (rules_of G' l) i =
         (case filter (\<lambda>e. fst e = i) (map item_of xs) of [] \<Rightarrow> None
          | (_, a, x) # ys \<Rightarrow> Some (foldl (AND) a (map (fst \<circ> snd) ys), x # map (snd \<circ> snd) ys)))"
proof -
  obtain G' where "load_items R G t xs = Inr G'" "built_list G' l"
    "rules_of G' l = load_rules (map item_of xs)"
    using load_items_refines [OF assms] by blast
  then show ?thesis
    by (intro exI [of _ G']) (simp add: load_rules_distinct load_rules_groups)
qed

lemma loaded_items_grouped_witness:
  "\<exists>G'. load_items ref_rtl fresh_gc REGISTRY_BLOCK_LIST
      [(cfg_with 7 3, an_item), (cfg_with 8 1, an_item), (cfg_with 7 6, an_item)] = Inr G'
    \<and> map_of (rules_of G' RBL) 7 = Some (2, [an_item, an_item]) \<and> map_of (rules_of G' RBL) 9 = None"
proof -
  let ?xs = "[(cfg_with 7 3, an_item), (cfg_with 8 1, an_item), (cfg_with 7 6, an_item)]"
  have "list_of_type REGISTRY_BLOCK_LIST = Some RBL" by (simp add: list_of_type_def)
  moreover have "length (filter (\<lambda>e. fst e = i) (map item_of ?xs)) \<le> 256" for i
    using length_filter_le [of "\<lambda>e. fst e = i" "map item_of ?xs"] by simp
  ultimately obtain G' where G': "load_items ref_rtl fresh_gc REGISTRY_BLOCK_LIST ?xs = Inr G'"
    "\<forall>i. map_of (rules_of G' RBL) i =
         (case filter (\<lambda>e. fst e = i) (map item_of ?xs) of [] \<Rightarrow> None
          | (_, a, x) # ys \<Rightarrow> Some (foldl (AND) a (map (fst \<circ> snd) ys), x # map (snd \<circ> snd) ys))"
    using loaded_items_grouped [OF _ ref_rtl_ample fresh_built(1) fresh_built(2), of REGISTRY_BLOCK_LIST RBL ?xs]
    by auto
  have "map_of (rules_of G' RBL) 7 = Some (2, [an_item, an_item])" "map_of (rules_of G' RBL) 9 = None"
    unfolding G'(2) [rule_format] by (simp_all add: cfg_with_def)
  with G'(1) show ?thesis by blast
qed

text \<open>Purging a list of the configuration releases, for every rule, each of its items and the
  rule itself, in this order and nothing else; the list's counter keeps its value.\<close>
lemma purge_releases_owned:
  assumes "list_of_type t = Some l" "built_list G l"
  shows "\<exists>G'. purgeConfigList G t = Inr (STATUS_SUCCESS, G',
      concat (map (\<lambda>q. map addr (group_items (deref q)) @ [addr q])
        (take (unat (gc_COUNT G l)) (deref (gc_list G l)))))
     \<and> gc_COUNT G' l = gc_COUNT G l"
  using purge_frees_owned [OF assms] by (simp add: owned_def)

lemma purge_releases_owned_witness:
  "\<exists>G'. purgeConfigList full_gc REGISTRY_BLOCK_LIST = Inr (STATUS_SUCCESS, G', replicate 257 page)"
proof -
  have "list_of_type REGISTRY_BLOCK_LIST = Some RBL" by (simp add: list_of_type_def)
  moreover have "concat (map (\<lambda>q. map addr (group_items (deref q)) @ [addr q])
      (take (unat (gc_COUNT full_gc RBL)) (deref (gc_list full_gc RBL)))) = replicate 256 page @ [page]"
    by (simp add: full_gc_def set_count_def set_list_def full_group_def group_items_def an_item_def str_item_def)
  moreover have "replicate 256 page @ [page] = replicate 257 page"
    using replicate_append_same [of 256 page] by (simp flip: replicate_Suc)
  ultimately show ?thesis
    using purge_releases_owned [OF _ full_gc_built(1), of REGISTRY_BLOCK_LIST] by auto
qed

section \<open>Reading values\<close>

text \<open>C32: A value of at least 17 bytes, the size of the rule header, is parsed and copied within the
  buffer it was read into, whatever sizes and types the header claims.\<close>
theorem long_values_in_bounds:
  assumes "17 \<le> length bs" "length bs < 2 ^ 30" "r = of_nat (12 + length bs)"
  shows "\<exists>cfg res. parse_CFG (data_area r bs) = Inr cfg
    \<and> makeNewItem R k x (cfg_field_type cfg) (reg_copy_size (of_nat (length bs)) cfg)
        (drop 17 (data_area r bs)) = Inr res"
  using assms by (rule copy_in_bounds)

lemma long_values_in_bounds_witness:
  "\<exists>cfg res. parse_CFG (data_area 37 (replicate 25 0xFF)) = Inr cfg
    \<and> makeNewItem ref_rtl 0 cfi_zero (cfg_field_type cfg) (reg_copy_size 25 cfg)
        (drop 17 (data_area 37 (replicate 25 0xFF))) = Inr res"
  using long_values_in_bounds [of "replicate 25 0xFF" 37 ref_rtl 0 cfi_zero] by simp

text \<open>C37: A shorter value makes the number of bytes to copy wrap around: a string item of it reads
  past the end of the buffer.\<close>
theorem short_values_wrap:
  assumes "length bs < 17" "r = of_nat (12 + length bs)" "parse_CFG (data_area r bs) = Inr cfg"
    and "of_nat (length bs) \<le> cfg_size cfg" "getFieldDataType (cfg_field_type cfg) = MM_UNICODE"
    and "pool_ample R"
  shows "makeNewItem R k x (cfg_field_type cfg) (reg_copy_size (of_nat (length bs)) cfg)
      (drop 17 (data_area r bs)) = Inl OutOfBounds"
  using assms by (rule short_value_wraps)

lemma short_values_wrap_witness:
  "makeNewItem ref_rtl 0 cfi_zero IMAGE_FILE_NAME (reg_copy_size 16 (cfg_with 0 0 \<lparr>cfg_size := 16\<rparr>))
      (drop 17 (data_area 28 (take 16 (rule_bytes IMAGE_FILE_NAME EQUALS 0 (replicate 16 0))))) = Inl OutOfBounds"
proof -
  let ?bs = "take 16 (rule_bytes IMAGE_FILE_NAME EQUALS 0 (replicate 16 0))"
  let ?cfg = "\<lparr>cfg_size = 16, cfg_type = 1, cfg_field_type = IMAGE_FILE_NAME, cfg_match_type = EQUALS,
      cfg_id = 0, cfg_actions = 0\<rparr>"
  have "length ?bs = 16" "parse_CFG (data_area 28 ?bs) = Inr ?cfg" "getFieldDataType IMAGE_FILE_NAME = MM_UNICODE"
    by code_simp+
  then have "makeNewItem ref_rtl 0 cfi_zero IMAGE_FILE_NAME (reg_copy_size 16 ?cfg)
      (drop 17 (data_area 28 ?bs)) = Inl OutOfBounds"
    using short_values_wrap [of ?bs 28 ?cfg ref_rtl 0 cfi_zero] ref_rtl_ample by simp
  then show ?thesis by (simp add: reg_copy_size_def cfg_with_def)
qed

text \<open>C40: The value of a rule on the direction of a connection is lost: it is stored in the unsigned
  byte of the item and compared from the signed one, so an \<open>EQUALS\<close> rule for any direction matches
  exactly direction 0.\<close>
theorem direction_value_lost:
  assumes "makeNewItem R k cfi_zero MM_NET_DIRECTION n Data = Inr (st, x, freed)"
  shows "CheckInt8Entry (Ptr a (x\<lparr>match_type := EQUALS, field_type := MM_NET_DIRECTION, cfi_tag := CALLISTO\<rparr>)) d m
    = tick (d = 0) m"
  using makeNewItem_direction [OF assms] by (simp add: CheckInt8Entry_def)

definition direction_item :: CFI where
  "direction_item = cfi_zero\<lparr>itemUint8 := 1, match_type := EQUALS, field_type := MM_NET_DIRECTION, cfi_tag := CALLISTO,
     item := Ptr (ExAllocatePool2 ref_rtl 0 16) \<lparr>Length = 0, MaximumLength = 0, Buffer = Null\<rparr>\<rparr>"

lemma direction_value_lost_witness:
  "CheckInt8Entry (Ptr page direction_item) 1 5 = 5 \<and> CheckInt8Entry (Ptr page direction_item) 0 5 = 6"
proof -
  let ?x = "cfi_zero\<lparr>itemUint8 := 1, item := Ptr (ExAllocatePool2 ref_rtl 0 16) \<lparr>Length = 0, MaximumLength = 0, Buffer = Null\<rparr>\<rparr>"
  have "makeNewItem ref_rtl 0 cfi_zero MM_NET_DIRECTION 1 [1] = Inr (STATUS_SUCCESS, ?x, False)"
    by (simp add: makeNewItem_def getFieldDataType_def ref_rtl_def read_le_def read_bytes_def)
  note lost = direction_value_lost [OF this, of page]
  show ?thesis using lost [of 1 5] lost [of 0 5] by (simp add: direction_item_def cfi_zero_def)
qed

section \<open>The whole load\<close>

text \<open>C31: With a registry that accepts the buffer size it asked for, \<open>LoadConfig\<close> ends within 64000
  passes, whatever the values hold and whichever allocations fail.\<close>
theorem load_terminates:
  assumes "enum_documented Z" "64000 \<le> fuel"
  shows "\<exists>res. LoadConfig R Z fuel G = Some res"
  using LoadConfig_ends [OF assms] by blast

lemma load_terminates_witness: "\<exists>res. LoadConfig ref_rtl sample_registry 64000 small_gc = Some res"
proof -
  have "enum_documented sample_registry"
    by (auto simp: enum_documented_def sample_registry_def split: if_splits)
  then show ?thesis by (rule load_terminates) simp
qed

text \<open>Loading can only switch settings on: every callback switch and option that is TRUE before
  is TRUE after. A configuration therefore cannot switch a callback off.\<close>
lemma load_only_enables:
  assumes "LoadConfig R Z fuel G = Some (Inr (st, G'))"
  shows "list_all2 (\<longrightarrow>) (flags G) (flags G')"
  using LoadConfig_flags_le [OF assms] by (simp add: flags_le_def)

lemma load_only_enables_witness:
  "\<exists>G'. LoadConfig ref_rtl sample_registry 4 small_gc = Some (Inr (STATUS_SUCCESS, G'))
    \<and> list_all2 (\<longrightarrow>) (flags small_gc) (flags G') \<and> KEEP_EXCLUDES G'
    \<and> map (\<lambda>(i, a, xs). (i, a, length xs)) (rules_of G' PBL) = [(7, 0, 1)]"
proof -
  have "case LoadConfig ref_rtl sample_registry 4 small_gc of Some (Inr (st, G')) \<Rightarrow>
      st = STATUS_SUCCESS \<and> KEEP_EXCLUDES G'
      \<and> map (\<lambda>(i, a, xs). (i, a, length xs)) (rules_of G' PBL) = [(7, 0, 1)] | _ \<Rightarrow> False"
    by code_simp
  then obtain G' where G': "LoadConfig ref_rtl sample_registry 4 small_gc = Some (Inr (STATUS_SUCCESS, G'))"
    "KEEP_EXCLUDES G'" "map (\<lambda>(i, a, xs). (i, a, length xs)) (rules_of G' PBL) = [(7, 0, 1)]"
    by (auto split: option.splits sum.splits prod.splits)
  note on = load_only_enables [OF G'(1)]
  show ?thesis by (intro exI [of _ G'] conjI G' on)
qed

end
