(* ===== verification/MM_Log_Properties.thy ===== *)
theory MM_Log_Properties
  imports MM_Log MM_Samples
begin

text \<open>
  What the log promises its client: a record is put at the end of the list and delivered once, whole
  and in order, as long as the list is not full; and how it behaves when it is, or when the
  client's buffer is too small.
\<close>

section \<open>Sample logs\<close>

definition ready_gc :: GC where
  "ready_gc = blank_gc\<lparr>gc_State := INITIALIZED\<rparr>"

lemma ready_ok [simp]: "log_ok ready_gc" "gc_L ready_gc = []" "log_inv ready_gc"
  by (simp_all add: log_ok_def log_inv_def ready_gc_def blank_gc_def)

definition a_field :: log_field where
  "a_field = (IMAGE_FILE_NAME, 5, 77, [1, 2, 3])"

text \<open>The log that holds this one record.\<close>

definition one_gc :: GC where
  "one_gc = ready_gc\<lparr>gc_L := [\<lparr>le_size = 32, le_data = encode_field a_field, le_tag = EUROPA\<rparr>],
     L_SIZE_BYTES := 32\<rparr>"

lemma one_ok: "log_ok one_gc" "log_bytes (gc_L one_gc) = 32"
proof -
  have "wf_entry \<lparr>le_size = 32, le_data = encode_field a_field, le_tag = EUROPA\<rparr>"
    unfolding wf_entry_def by (rule exI [of _ a_field]) (simp add: entry_of_def encode_field_def a_field_def)
  then show "log_ok one_gc" "log_bytes (gc_L one_gc) = 32"
    by (simp_all add: log_ok_def log_inv_def one_gc_def ready_gc_def blank_gc_def)
qed

section \<open>Putting\<close>

text \<open>C21: Adding a record to a sound log: the record becomes the last entry, with its size, type, id,
  timestamp and data in the documented layout, and the byte counter stays exact. Below
  200000000 bytes nothing is lost. From there on the newest entries are dropped until at most
  the purge limit is left, and no more than needed.\<close>
theorem add_entry_appends:
  assumes "log_inv G" "pool_ample R"
    and "VALID_PAGE Data" "unat sz \<le> length (deref Data)" "0 < sz" "sz \<le> 1000000000"
  shows "\<exists>G' n. AddLogEntry R rand k G rid ts sz type Data = Inr G' \<and> log_inv G'
    \<and> gc_L G' = take n (gc_L G) @ [\<lparr>le_size = sz + 29,
          le_data = log_record sz type rid ts (take (unat sz) (deref Data)), le_tag = EUROPA\<rparr>]
    \<and> n \<le> length (gc_L G)
    \<and> (if log_bytes (gc_L G) < 200000000 then n = length (gc_L G)
       else n < length (gc_L G) \<and> log_bytes (take n (gc_L G)) \<le> keep_limit rand
         \<and> (Suc n = length (gc_L G) \<or> keep_limit rand < log_bytes (take (Suc n) (gc_L G))))"
  using AddLogEntry_spec [OF assms] by (simp add: new_entry_def)

lemma add_entry_appends_witness:
  "\<exists>G'. AddLogEntry ref_rtl 0 0 one_gc 6 78 2 COMMAND_LINE (Ptr page [9, 8]) = Inr G'
    \<and> map le_size (gc_L G') = [32, 31] \<and> log_inv G'"
proof -
  have inv: "log_inv one_gc" using one_ok by (simp add: log_ok_def)
  have vp: "VALID_PAGE (Ptr page [9, 8 :: u8])" by (simp add: VALID_PAGE_def page_def)
  have sz: "unat (2 :: u32) \<le> length (deref (Ptr page [9, 8 :: u8]))" "0 < (2 :: u32)" "2 \<le> (1000000000 :: u32)"
    by simp_all
  obtain G' n where G': "AddLogEntry ref_rtl 0 0 one_gc 6 78 2 COMMAND_LINE (Ptr page [9, 8]) = Inr G'"
    "log_inv G'" "gc_L G' = take n (gc_L one_gc) @ [\<lparr>le_size = 2 + 29, le_data = log_record 2 COMMAND_LINE 6 78
       (take (unat (2 :: u32)) (deref (Ptr page [9, 8]))), le_tag = EUROPA\<rparr>]"
    "if log_bytes (gc_L one_gc) < 200000000 then n = length (gc_L one_gc)
     else n < length (gc_L one_gc) \<and> log_bytes (take n (gc_L one_gc)) \<le> keep_limit 0
       \<and> (Suc n = length (gc_L one_gc) \<or> keep_limit 0 < log_bytes (take (Suc n) (gc_L one_gc)))"
    using add_entry_appends [OF inv ref_rtl_ample vp sz, of 0 0 6 78 COMMAND_LINE]
    by (elim exE conjE) (rule that)
  then have "n = length (gc_L one_gc)" using one_ok(2) by simp
  then have "map le_size (gc_L G') = [32, 31]" using G'(3) by (simp add: one_gc_def)
  then show ?thesis by (intro exI [of _ G'] conjI G'(1,2))
qed

section \<open>Reading\<close>

text \<open>A read of an initialised, nonempty log delivers a prefix of the list, whole records from the
  oldest on, and removes exactly that prefix. It stays within the client's buffer, which decodes
  to the records delivered; it delivers at least one unless the first does not fit, and stops
  only when the buffer is full up to 12 bytes or the next record does not fit.\<close>
lemma read_delivers_prefix:
  assumes "log_ok G" "gc_L G \<noteq> []"
  shows "\<exists>n G' b. ReadLogEntry (Ptr a G) len True =
      (\<lparr>rr_status = if n = 0 then STATUS_INVALID_BUFFER_SIZE else STATUS_SUCCESS,
        rr_bytes = log_bytes (take n (gc_L G)), rr_buffer = Some b\<rparr>, Ptr a G')
    \<and> n \<le> length (gc_L G) \<and> gc_L G' = drop n (gc_L G) \<and> log_ok G' \<and> length b = unat len
    \<and> log_bytes (take n (gc_L G)) \<le> unat len
    \<and> take (log_bytes (take n (gc_L G))) b = concat (map le_data (take n (gc_L G)))
    \<and> decode_log b = decode_log (concat (map le_data (take n (gc_L G))))
    \<and> (n = 0 \<longleftrightarrow> unat len < unat (le_size (hd (gc_L G))))
    \<and> (n < length (gc_L G) \<longrightarrow> unat (len - 12) \<le> log_bytes (take n (gc_L G))
         \<or> unat len < log_bytes (take (Suc n) (gc_L G)))"
  using ReadLogEntry_spec [OF assms, of a len] by fastforce

lemma read_delivers_prefix_witness:
  "\<exists>G' b. ReadLogEntry (Ptr 1 one_gc) 100 True =
      (\<lparr>rr_status = STATUS_SUCCESS, rr_bytes = 32, rr_buffer = Some b\<rparr>, Ptr 1 G')
    \<and> gc_L G' = [] \<and> length b = 100 \<and> decode_log b = [a_field]"
proof -
  have ne: "gc_L one_gc \<noteq> []" by (simp add: one_gc_def)
  obtain n G' b where r: "ReadLogEntry (Ptr 1 one_gc) 100 True =
      (\<lparr>rr_status = if n = 0 then STATUS_INVALID_BUFFER_SIZE else STATUS_SUCCESS,
        rr_bytes = log_bytes (take n (gc_L one_gc)), rr_buffer = Some b\<rparr>, Ptr 1 G')"
    "n \<le> length (gc_L one_gc)" "gc_L G' = drop n (gc_L one_gc)" "length b = unat (100 :: u32)"
    "decode_log b = decode_log (concat (map le_data (take n (gc_L one_gc))))"
    "n = 0 \<longleftrightarrow> unat (100 :: u32) < unat (le_size (hd (gc_L one_gc)))"
    using read_delivers_prefix [OF one_ok(1) ne, of 1 100] by (elim exE conjE) (rule that; assumption)
  then have n: "n = 1" by (simp add: one_gc_def)
  have "decode_log (encode_field a_field) = [a_field]"
    using decode_encode [of "[a_field]" "[]"] by (simp add: a_field_def)
  then show ?thesis using r n by (simp add: one_gc_def)
qed

text \<open>A session of the client and the callbacks: \<open>AddLogEntry\<close> calls and reads of \<open>len\<close> bytes, and what
  the client has decoded in the end.\<close>

fun log_session ::
  "rtl \<Rightarrow> u32 \<Rightarrow> u64 \<Rightarrow> u64 \<Rightarrow> u32 \<Rightarrow> log_field queue_op list \<Rightarrow> GC \<Rightarrow> log_field list \<times> GC" where
  "log_session R rand k a len [] G = ([], G)"
| "log_session R rand k a len (Put f # ops) G = log_session R rand k a len ops (log_put R rand k a f G)"
| "log_session R rand k a len (Get # ops) G =
     (case log_get len G of (fs, G') \<Rightarrow>
      case log_session R rand k a len ops G' of (fs', G'') \<Rightarrow> (fs @ fs', G''))"

text \<open>Every put of the session finds room.\<close>

fun session_roomy ::
  "rtl \<Rightarrow> u32 \<Rightarrow> u64 \<Rightarrow> u64 \<Rightarrow> u32 \<Rightarrow> log_field queue_op list \<Rightarrow> GC \<Rightarrow> bool" where
  "session_roomy R rand k a len [] G = True"
| "session_roomy R rand k a len (Put f # ops) G =
     (log_room R a f G \<and> session_roomy R rand k a len ops (log_put R rand k a f G))"
| "session_roomy R rand k a len (Get # ops) G = session_roomy R rand k a len ops (snd (log_get len G))"

lemma log_session_run: "log_session R rand k a len ops G = log_queue.run R rand k a len ops G"
  by (induction R rand k a len ops G rule: log_session.induct) (auto split: prod.splits)

lemma session_roomy_run: "session_roomy R rand k a len ops G = log_queue.roomy R rand k a len ops G"
  by (induction R rand k a len ops G rule: session_roomy.induct) auto

text \<open>C4: The log is a queue: in any session of puts that find room and reads of any size, what the
  client has decoded followed by what is left is exactly what was there followed by what was put,
  each record once, with its type, id, timestamp and data, in order.\<close>
theorem session_in_order:
  assumes "log_ok G" "session_roomy R rand k a len ops G"
  shows "fst (log_session R rand k a len ops G) @ log_contents (snd (log_session R rand k a len ops G))
    = log_contents G @ puts_of ops \<and> log_ok (snd (log_session R rand k a len ops G))"
  using assms log_queue.run_in_order unfolding log_session_run session_roomy_run by blast

lemma session_in_order_witness:
  "fst (log_session ref_rtl 0 0 page 100 [Put a_field, Put a_field, Get] ready_gc)
     @ log_contents (snd (log_session ref_rtl 0 0 page 100 [Put a_field, Put a_field, Get] ready_gc))
   = [a_field, a_field]"
proof -
  have room: "log_room ref_rtl page a_field G" if "log_bytes (gc_L G) < 200000000" for G
    using that ref_rtl_ample by (simp add: log_room_def a_field_def VALID_PAGE_def page_def)
  let ?G = "log_put ref_rtl 0 0 page a_field ready_gc"
  have room0: "log_room ref_rtl page a_field ready_gc" by (rule room) simp
  then obtain e where e: "gc_L ?G = gc_L ready_gc @ [e]" "entry_of e a_field"
    using log_put_spec [OF ready_ok(1)] by blast
  then have "log_bytes (gc_L ?G) = 32"
    by (simp add: entry_of_def encode_field_def a_field_def)
  then have "session_roomy ref_rtl 0 0 page 100 [Put a_field, Put a_field, Get] ready_gc"
    using room0 room [of ?G] by simp
  from session_in_order [OF ready_ok(1) this] show ?thesis
    by (simp add: log_contents_def)
qed

text \<open>C34: A client that keeps reading with a buffer every record fits in gets the whole log: as many
  reads as there are records leave it empty.\<close>
theorem reads_drain_log:
  assumes "log_ok G" "\<forall>f \<in> set (log_contents G). log_small len f" "length (log_contents G) \<le> n"
  shows "fst (log_session R rand k a len (replicate n Get) G) = log_contents G
    \<and> log_contents (snd (log_session R rand k a len (replicate n Get) G)) = []"
  using log_queue.run_drains [OF assms] by (simp add: log_session_run)

lemma reads_drain_log_witness:
  "fst (log_session ref_rtl 0 0 page 32 (replicate 1 Get) one_gc) = [a_field]"
proof -
  have c: "log_contents one_gc = [a_field]"
    using decode_encode [of "[a_field]" "[]"] by (simp add: log_contents_def one_gc_def a_field_def)
  have "log_small 32 a_field" by (simp add: log_small_def a_field_def)
  then show ?thesis
    using reads_drain_log [OF one_ok(1), of 32 1 ref_rtl 0 0 page] c by simp
qed

text \<open>C38: A record larger than the client's buffer at the head of the log stops the log for this
  client: every later read fails with \<open>STATUS_INVALID_BUFFER_SIZE\<close>, delivers nothing and leaves the
  list as it is, however often it is repeated.\<close>
theorem large_record_blocks:
  assumes "log_ok G" "gc_L G = e # es" "unat len < unat (le_size e)"
  shows "rr_status (fst (ReadLogEntry (Ptr a G) len True)) = STATUS_INVALID_BUFFER_SIZE
    \<and> fst (log_session R rand k b len (replicate n Get) G) = []
    \<and> gc_L (snd (log_session R rand k b len (replicate n Get) G)) = gc_L G"
proof -
  have step: "fst (log_get len G) = [] \<and> gc_L (snd (log_get len G)) = gc_L G \<and> log_ok (snd (log_get len G))"
    if "log_ok G" "gc_L G = e # es" for G
    using log_get_spec [OF that(1), of len] that(2) assms(3) by auto
  have "fst (log_session R rand k b len (replicate n Get) G) = []
    \<and> gc_L (snd (log_session R rand k b len (replicate n Get) G)) = gc_L G"
    using assms(1,2)
  proof (induction n arbitrary: G)
    case (Suc n)
    obtain G' where G': "log_get len G = ([], G')" "gc_L G' = gc_L G" "log_ok G'"
      using step [OF Suc.prems] by (cases "log_get len G") auto
    then show ?case using Suc.IH [of G'] Suc.prems by (auto split: prod.splits)
  qed simp
  moreover have "rr_status (fst (ReadLogEntry (Ptr a G) len True)) = STATUS_INVALID_BUFFER_SIZE"
    using ReadLogEntry_spec [OF assms(1), of a len] assms(2,3) by auto
  ultimately show ?thesis by blast
qed

lemma large_record_blocks_witness:
  "rr_status (fst (ReadLogEntry (Ptr 1 one_gc) 31 True)) = STATUS_INVALID_BUFFER_SIZE
   \<and> fst (log_session ref_rtl 0 0 page 31 (replicate 1000 Get) one_gc) = []"
  using large_record_blocks [OF one_ok(1), of "\<lparr>le_size = 32, le_data = encode_field a_field, le_tag = EUROPA\<rparr>" "[]"
      31 1 ref_rtl 0 0 page 1000]
  by (simp add: one_gc_def)

end
