(* ===== verification/MM_Cache_Properties.thy ===== *)
theory MM_Cache_Properties
  imports MM_Process_Cache MM_Samples
begin

text \<open>
  What the cache of recent processes promises the callbacks that look processes up in it.
\<close>

section \<open>Sample caches\<close>

lemma zeroed_slots [simp]: "NEW_PROCS zeroed_gc = replicate 32000 zeroed_slot"
  by (simp add: zeroed_gc_def)

lemma zeroed_cache_ok [simp]: "cache_ok zeroed_gc"
  unfolding cache_ok_def zeroed_slots
  by (intro conjI ballI allI impI; (elim conjE)?) (auto simp: wf_slot_def zeroed_slot_def)

lemma zeroed_next [simp]: "next_slot zeroed_gc = 1"
  by (simp add: next_slot_def zeroed_gc_def)

lemma zeroed_cached [simp]: "cached zeroed_gc p = None"
  unfolding cached_None [OF zeroed_cache_ok] zeroed_slots by (simp add: zeroed_slot_def)

definition editor :: PROC_INFO where
  "editor = proc ''C:/edit.exe'' ''edit a.txt''"

lemma editor_can: "p \<noteq> 0 \<Longrightarrow> cache_can ref_rtl p editor zeroed_gc"
  using ref_rtl_ample by (simp add: cache_can_def editor_def proc_def zero_pi_def wf_pi_def)

section \<open>Looking up\<close>

text \<open>A process that is not cached can be looked up after \<open>AddNewProcess\<close>, with the strings and the
  user information it was added with, and counts as new; the table stays sound. This holds whatever
  the next slot of the ring holds, a process in use included.\<close>
lemma added_process_found:
  assumes "cache_ok G" "p \<noteq> 0" "cached G p = None" "next_slot G < 32000" "pool_ample R"
    and "pi_tag PI = PHOEBE" "wf_pi PI"
  shows "\<exists>G' freed. AddNewProcess R G p (Ptr b PI) = Inr (G', freed) \<and> cache_ok G'
    \<and> cached G' p = Some (pi_view PI) \<and> IsNewProcess G' p
    \<and> pc_p (NEW_PROCS G' ! next_slot G) = p \<and> unat (NEW_PROCS_INDEX G') = next_slot G"
proof -
  have can: "cache_can R p PI G" using assms by (simp add: cache_can_def)
  have b: "AddNewProcess R G p (Ptr b PI) = AddNewProcess R G p (Ptr p PI)"
    unfolding AddNewProcess_def ptr.sel MM_TYPE_CHECK_simps ..
  have len: "length (NEW_PROCS G) = 32000" using assms(1) by (simp add: cache_ok_def)
  have found: "cached (cache_ins R p PI G) p = Some (pi_view PI)"
    by (rule process_cache.ins_new [OF assms(1) can assms(3)])
  have miss: "first_slot (\<lambda>s. pc_p s = p) (NEW_PROCS G) = None"
    using slot_nonzero_cached [OF assms(1,2)] assms(3) by blast
  obtain s freed a PI' n where add: "AddNewProcess R G p (Ptr p PI)
      = Inr (set_slot (next_slot G) s (G\<lparr>NEW_PROCS_INDEX := n\<rparr>), freed)" "unat n = next_slot G"
    "pc_p s = p" "pc_tag s = CHARON" "pc_New s"
    using add_miss [OF assms(1) miss assms(4-7), of p] by blast
  let ?G = "set_slot (next_slot G) s (G\<lparr>NEW_PROCS_INDEX := n\<rparr>)"
  have ins: "cache_ins R p PI G = ?G" using add by (simp add: cache_ins_def)
  have "s \<in> set (NEW_PROCS ?G)"
    using assms(4) len by (simp add: set_slot_def set_update_memI)
  then have "IsNewProcess ?G p"
    using add assms(2) by (auto simp: IsNewProcess_def first_slot_None)
  then show ?thesis
    using add found process_cache.ins_ok [OF assms(1) can] b len assms(4) unfolding ins
    by (auto simp: set_slot_def)
qed

lemma added_process_found_witness:
  "\<exists>G' freed. AddNewProcess ref_rtl zeroed_gc 44 (Ptr page editor) = Inr (G', freed)
    \<and> cached G' 44 = Some (pi_view editor) \<and> IsNewProcess G' 44"
proof -
  have "pi_tag editor = PHOEBE" "wf_pi editor" "(44 :: u64) \<noteq> 0" "next_slot zeroed_gc < 32000"
    by (simp_all add: editor_def proc_def zero_pi_def wf_pi_def)
  then show ?thesis
    using added_process_found [OF zeroed_cache_ok _ zeroed_cached _ ref_rtl_ample, of 44 editor page] by blast
qed

text \<open>The operations of the callbacks on the table, run one after the other, each as long as it may.\<close>

fun cache_run :: "rtl \<Rightarrow> (u64, PROC_INFO) cache_op list \<Rightarrow> GC \<Rightarrow> GC" where
  "cache_run R [] G = G"
| "cache_run R (Ins p PI # ops) G = cache_run R ops (cache_ins R p PI G)"
| "cache_run R (Del p # ops) G = cache_run R ops (cache_del p G)"

fun cache_feasible :: "rtl \<Rightarrow> (u64, PROC_INFO) cache_op list \<Rightarrow> GC \<Rightarrow> bool" where
  "cache_feasible R [] G = True"
| "cache_feasible R (Ins p PI # ops) G = (cache_can R p PI G \<and> cache_feasible R ops (cache_ins R p PI G))"
| "cache_feasible R (Del p # ops) G = cache_feasible R ops (cache_del p G)"

lemma cache_run_steps: "cache_run R ops G = process_cache.steps R ops G"
  by (induction R ops G rule: cache_run.induct) simp_all

lemma cache_feasible_steps: "cache_feasible R ops G = process_cache.feasible R ops G"
  by (induction R ops G rule: cache_feasible.induct) simp_all

text \<open>C22: The cache never mixes processes up: after any run of additions and removals, what is cached
  for a handle was cached for it before or was added under this very handle.\<close>
theorem cache_answers_sourced:
  assumes "cache_ok G" "cache_feasible R ops G" "cached (cache_run R ops G) p = Some w"
  shows "cache_ok (cache_run R ops G)
    \<and> (cached G p = Some w \<or> (\<exists>PI. Ins p PI \<in> set ops \<and> w = pi_view PI))"
  using process_cache.steps_source [OF assms(1), of R ops p w] assms(2,3)
  by (simp add: cache_run_steps cache_feasible_steps)

lemma cache_answers_sourced_witness:
  "cached (cache_run ref_rtl [Ins 44 editor] zeroed_gc) 44 = Some (pi_view editor)
   \<and> cache_ok (cache_run ref_rtl [Ins 44 editor] zeroed_gc)"
proof -
  have can: "cache_can ref_rtl 44 editor zeroed_gc" by (rule editor_can) simp
  have "cached (cache_run ref_rtl [Ins 44 editor] zeroed_gc) 44 = Some (pi_view editor)"
    using process_cache.ins_new [OF zeroed_cache_ok can] by simp
  then show ?thesis
    using cache_answers_sourced [OF zeroed_cache_ok, of ref_rtl "[Ins 44 editor]" 44] can by simp
qed

text \<open>C36: When the ring index stands at 31999, the next process that is not cached is
  written to slot 32000 of the 32000 slots: the index is compared before it is incremented.\<close>
theorem cache_index_overflow:
  assumes "cache_ok G" "p \<noteq> 0" "cached G p = None" "NEW_PROCS_INDEX G = 31999" "pi_tag PI = PHOEBE"
  shows "AddNewProcess R G p (Ptr b PI) = Inl OutOfBounds"
proof (rule AddNewProcess_overflow [OF _ _ assms(4,5)])
  show "first_slot (\<lambda>s. pc_p s = p) (NEW_PROCS G) = None"
    using slot_nonzero_cached [OF assms(1,2)] assms(3) by blast
  show "length (NEW_PROCS G) = 32000" using assms(1) by (simp add: cache_ok_def)
qed

lemma cache_index_overflow_witness:
  "AddNewProcess ref_rtl (zeroed_gc\<lparr>NEW_PROCS_INDEX := 31999\<rparr>) 44 (Ptr page editor) = Inl OutOfBounds"
proof (rule cache_index_overflow)
  have "cached (zeroed_gc\<lparr>NEW_PROCS_INDEX := 31999\<rparr>) 44 = cached zeroed_gc 44"
    by (simp add: cached_def GetCachedProcess_def)
  then show "cached (zeroed_gc\<lparr>NEW_PROCS_INDEX := 31999\<rparr>) 44 = None" by simp
qed (simp_all add: editor_def proc_def)

text \<open>\<open>RemoveNewProcessStatus\<close> makes the process no longer new and changes no answer of the cache,
  neither for this process nor for any other, whose newness stays as it was.\<close>
lemma new_status_removed:
  assumes "cache_ok G"
  shows "\<not> IsNewProcess (RemoveNewProcessStatus G p) p \<and> cache_ok (RemoveNewProcessStatus G p)
    \<and> cached (RemoveNewProcessStatus G p) = cached G
    \<and> (q \<noteq> p \<longrightarrow> IsNewProcess (RemoveNewProcessStatus G p) q = IsNewProcess G q)"
proof (cases "GetCachedProcess G p")
  case None
  then have "RemoveNewProcessStatus G p = G"
    by (simp add: RemoveNewProcessStatus_def GetCachedProcess_def)
  moreover have "\<not> IsNewProcess G p"
    using None by (auto simp: IsNewProcess_def GetCachedProcess_def first_slot_None)
  ultimately show ?thesis using assms by simp
next
  case (Some i)
  let ?s = "(NEW_PROCS G ! i)\<lparr>pc_New := False\<rparr>"
  have rem: "RemoveNewProcessStatus G p = set_slot i ?s G"
    using Some by (simp add: RemoveNewProcessStatus_def GetCachedProcess_def)
  have i: "i < 32000" "pc_p (NEW_PROCS G ! i) = p" "length (NEW_PROCS G) = 32000"
    using Some slot_get [OF assms, of p] assms by (auto simp: cache_ok_def)
  have slot: "NEW_PROCS (set_slot i ?s G) ! j = (if j = i then ?s else NEW_PROCS G ! j)" if "j < 32000" for j
    using that i by (simp add: set_slot_def)
  have "wf_slot (NEW_PROCS G ! i)" using assms i by (simp add: cache_ok_def)
  then have wf: "wf_slot ?s" by (simp add: wf_slot_def)
  have uniq: "pc_p (NEW_PROCS G ! j) \<noteq> p" if "j < 32000" "j \<noteq> i" "p \<noteq> 0" for j
    using assms i that by (auto simp: cache_ok_def)
  have ok: "cache_ok (set_slot i ?s G)"
    by (rule set_slot_ok [OF assms i(1) wf]) (use uniq i in auto)
  have "cached (set_slot i ?s G) r = Some w \<longleftrightarrow> cached G r = Some w" for r w
    unfolding cached_Some [OF ok] cached_Some [OF assms] using slot by (auto split: if_splits)
  then have look: "cached (set_slot i ?s G) = cached G"
    by (intro ext) (metis not_None_eq)
  have new: "IsNewProcess H r \<longleftrightarrow> r \<noteq> 0 \<and> (\<exists>j < 32000. pc_tag (NEW_PROCS H ! j) = CHARON
      \<and> pc_p (NEW_PROCS H ! j) = r \<and> pc_New (NEW_PROCS H ! j))" if "length (NEW_PROCS H) = 32000" for H r
    by (simp add: IsNewProcess_def first_slot_None all_set_conv_all_nth that) blast
  have len: "length (NEW_PROCS (set_slot i ?s G)) = 32000" using i by (simp add: set_slot_def)
  have "\<not> IsNewProcess (set_slot i ?s G) p"
    unfolding new [OF len] using slot by (auto split: if_splits) (use uniq in blast)
  moreover have "IsNewProcess (set_slot i ?s G) q = IsNewProcess G q" if "q \<noteq> p"
    unfolding new [OF len] new [OF i(3)] using slot i that by (auto split: if_splits)
  ultimately show ?thesis unfolding rem using ok look by blast
qed

lemma new_status_removed_witness:
  "\<not> IsNewProcess (RemoveNewProcessStatus (cache_ins ref_rtl 44 editor zeroed_gc) 44) 44
   \<and> cached (RemoveNewProcessStatus (cache_ins ref_rtl 44 editor zeroed_gc) 44) 44 = Some (pi_view editor)"
proof -
  have can: "cache_can ref_rtl 44 editor zeroed_gc" by (rule editor_can) simp
  note removed = new_status_removed [OF process_cache.ins_ok [OF zeroed_cache_ok can], of 44 0]
  show ?thesis
    using removed process_cache.ins_new [OF zeroed_cache_ok can] by simp
qed

end
