(* ===== verification/MM_Kernel.thy ===== *)
theory MM_Kernel
  imports MM_Process_Cache MM_Process_Rules
begin

text \<open>
  What the callbacks of \<open>src/MoonMon/MoonMon.c\<close> share: the answers of the kernel they run in, which are
  a parameter of each of them; \<open>SidLookup\<close> of \<open>src/MoonMon/Utils.c\<close>; \<open>TerminateProcess\<close> and
  \<open>NapTime\<close> of \<open>src/MoonMon/Process.c\<close>; and the lookup of the processes an event is about, with the
  mark it leaves in the cache while the callback runs. A \<open>PEPROCESS\<close> and a handle are 64-bit words.
\<close>

section \<open>The kernel\<close>

text \<open>What the token of a process says about its user.\<close>

datatype token_sid = NoToken | TokenError NTSTATUS | InvalidSid
  | Sid (sid_Revision: u8) (sid_SubAuthorityCount: u8) (sid_IdentifierAuthority: "u8 list")
      (sid_SubAuthority: "u8 list")

record kernel =
  KeQuerySystemTimePrecise :: u64
  MM_Genrand :: "u64 \<Rightarrow> u32"
  IoGetCurrentProcess :: u64
  PsGetCurrentProcessId :: u64
  PsGetCurrentThreadId :: u64
  PsGetProcessId :: "u64 \<Rightarrow> u64"
  PsLookupProcessByProcessId :: "u64 \<Rightarrow> NTSTATUS \<times> u64"
  process_peb :: "u64 \<Rightarrow> peb_view"
  process_sid :: "u64 \<Rightarrow> token_sid"
  PsGetProcessExitTime :: u64
  PsGetProcessExitStatus :: "u64 \<Rightarrow> NTSTATUS"
  ObOpenObjectByPointer :: "u64 \<Rightarrow> NTSTATUS"
  FltGetFileNameInformationUnsafe :: "u64 \<Rightarrow> NTSTATUS \<times> UNICODE_STRING ptr"
  IoQueryFileDosDeviceName :: "u64 \<Rightarrow> NTSTATUS \<times> UNICODE_STRING ptr"
  CmCallbackGetKeyObjectIDEx :: "u64 \<Rightarrow> NTSTATUS \<times> UNICODE_STRING ptr"
  ObQueryNameString :: "u64 \<Rightarrow> u32 \<Rightarrow> NTSTATUS \<times> UNICODE_STRING \<times> u32"
  FileNameOfHandle :: "u64 \<Rightarrow> NTSTATUS \<times> u8 list \<times> u32"

abbreviation HandleToULong :: "u64 \<Rightarrow> u32" where "HandleToULong h \<equiv> ucast h"

section \<open>The user of a process\<close>

definition zero_ui :: USER_INFO where
  "zero_ui = \<lparr>sid_data = Null, sid_data_length = 0, ui_name = Null, ui_domain = Null, ui_tag = ''''\<rparr>"

text \<open>\<open>k\<close> is the key of the first of its three allocations. A SID without subauthorities is left as
  the zeroes of its allocation.\<close>

definition SidLookup :: "rtl \<Rightarrow> kernel \<Rightarrow> u64 \<Rightarrow> u64 \<Rightarrow> USER_INFO \<Rightarrow> USER_INFO res" where
  "SidLookup R K k p UI =
     (if ExAllocatePool2 R k 32 = 0 then Inr UI
      else if ExAllocatePool2 R (k + 1) 16 = 0 then Inr UI
      else case process_sid K p of
        Sid revision count auth sub \<Rightarrow>
          let len = 8 + 4 * count; a = ExAllocatePool2 R (k + 2) (unat len);
              UI = UI\<lparr>sid_data_length := len, sid_data := Null\<rparr> in
          if a = 0 then Inr UI
          else if 8 < len then
            if unat len < 8 + 4 * unat count \<or> length sub < 4 * unat count \<or> length auth < 6
            then Inl OutOfBounds
            else Inr (UI\<lparr>sid_data := Ptr a (revision # count # take 6 auth @ take (4 * unat count) sub),
                         ui_name := Null, ui_domain := Null, ui_tag := MNEME\<rparr>)
          else Inr (UI\<lparr>sid_data := Ptr a (replicate (unat len) 0), ui_tag := MNEME\<rparr>)
      | _ \<Rightarrow> Inr UI)"

section \<open>Terminating and sleeping\<close>

text \<open>The result, and the processes \<open>ZwTerminateProcess\<close> has been called for.\<close>

definition TerminateProcess :: "kernel \<Rightarrow> u64 \<Rightarrow> bool \<times> u64 list" where
  "TerminateProcess K p =
     (if NT_SUCCESS (ObOpenObjectByPointer K p) then (True, [p]) else (False, []))"

text \<open>\<open>NapTime\<close> never returns: its value is \<open>None\<close>. The argument counts the naps.\<close>

partial_function (option) NapTime :: "nat \<Rightarrow> unit option" where
  "NapTime naps = NapTime (naps + 1)"

lemma NapTime_None: "NapTime n = None"
proof (cases "NapTime n")
  case (Some u)
  have False by (rule NapTime.raw_induct [of "\<lambda>_ _. False", OF _ Some])
  then show ?thesis ..
qed

section \<open>Finding the processes of an event\<close>

definition set_in_use :: "nat \<Rightarrow> bool \<Rightarrow> GC \<Rightarrow> GC" where
  "set_in_use i b G = set_slot i ((NEW_PROCS G ! i)\<lparr>pc_InUse := b\<rparr>) G"

text \<open>The statements with which the callbacks look a process up: a hit marks the slot, and gives the
  information it holds when that has its tag. The result is the slot, \<open>foundProc\<close>, the pointer to
  the information, \<open>dflt\<close> where there is none, and the context.\<close>

definition find_process :: "GC \<Rightarrow> u64 \<Rightarrow> PROC_INFO ptr \<Rightarrow> nat option \<times> bool \<times> PROC_INFO ptr \<times> GC" where
  "find_process G p dflt =
     (case GetCachedProcess G p of None \<Rightarrow> (None, False, dflt, G)
      | Some i \<Rightarrow>
        let G' = set_in_use i True G; PI = pc_PI (NEW_PROCS G ! i) in
        if MM_TYPE_CHECK pi_tag PI PHOEBE then (Some i, True, PI, G') else (Some i, False, dflt, G'))"

text \<open>Some callbacks probe a process that is not cached. The target of an event is taken from the
  cache as it is.\<close>

definition probe :: "rtl \<Rightarrow> kernel \<Rightarrow> u64 \<Rightarrow> bool \<times> PROC_INFO ptr" where
  "probe R K proc = (case processInfoInit R (process_peb K proc) proc zero_pi Null False of
     (found, PI) \<Rightarrow> (found, local PI))"

definition find_or_probe ::
  "rtl \<Rightarrow> kernel \<Rightarrow> GC \<Rightarrow> u64 \<Rightarrow> u64 \<Rightarrow> nat option \<times> bool \<times> PROC_INFO ptr \<times> GC" where
  "find_or_probe R K G p proc =
     (case find_process G p (local zero_pi) of
        (None, _, _, _) \<Rightarrow> (case probe R K proc of (found, PI) \<Rightarrow> (None, found, PI, G))
      | hit \<Rightarrow> hit)"

definition find_target ::
  "rtl \<Rightarrow> kernel \<Rightarrow> GC \<Rightarrow> u64 \<Rightarrow> u64 \<Rightarrow> nat option \<times> bool \<times> PROC_INFO ptr \<times> GC" where
  "find_target R K G p proc =
     (case GetCachedProcess G p of
        None \<Rightarrow> (case probe R K proc of (found, PI) \<Rightarrow> (None, found, PI, G))
      | Some i \<Rightarrow> (Some i, True, pc_PI (NEW_PROCS G ! i), set_in_use i True G))"

text \<open>The cleanup: a slot is unmarked, what has been probed is destroyed.\<close>

definition release :: "nat option \<Rightarrow> GC \<Rightarrow> GC" where
  "release slot G = (case slot of None \<Rightarrow> G | Some i \<Rightarrow> set_in_use i False G)"

definition discard :: "nat option \<Rightarrow> bool \<Rightarrow> PROC_INFO ptr \<Rightarrow> u64 list res" where
  "discard slot found PI =
     (if slot = None \<and> found then andthen (processInfoDelete PI) (\<lambda>(_, freed). Inr freed) else Inr [])"

section \<open>Using a slot changes no answer of the cache\<close>

lemma length_set_slot [simp]: "length (NEW_PROCS (set_slot i s G)) = length (NEW_PROCS G)"
  by (simp add: set_slot_def)

lemma set_slot_fields [simp]:
  "gc_L (set_slot i s G) = gc_L G" "L_SIZE_BYTES (set_slot i s G) = L_SIZE_BYTES G"
  "gc_list (set_slot i s G) = gc_list G" "gc_COUNT (set_slot i s G) = gc_COUNT G"
  "KEEP_EXCLUDES (set_slot i s G) = KEEP_EXCLUDES G" "clientpid (set_slot i s G) = clientpid G"
  "gc_tag (set_slot i s G) = gc_tag G" "gc_State (set_slot i s G) = gc_State G"
  "NEW_PROCS_INDEX (set_slot i s G) = NEW_PROCS_INDEX G" "gc_id (set_slot i s G) = gc_id G"
  "RESIST_TAMPERING (set_slot i s G) = RESIST_TAMPERING G"
  by (simp_all add: set_slot_def)

lemma nth_set_slot:
  "i < length (NEW_PROCS G) \<Longrightarrow> NEW_PROCS (set_slot i s G) ! j = (if j = i then s else NEW_PROCS G ! j)"
  by (simp add: set_slot_def nth_list_update)

lemma set_in_use_ok:
  assumes "cache_ok G" "i < 32000"
  shows "cache_ok (set_in_use i b G)"
proof -
  have wf: "wf_slot (NEW_PROCS G ! i)" using assms by (simp add: cache_ok_def)
  then have "wf_slot ((NEW_PROCS G ! i)\<lparr>pc_InUse := b\<rparr>)" by (simp add: wf_slot_def)
  then show ?thesis
    unfolding set_in_use_def by (rule set_slot_ok [OF assms]) (use assms in \<open>auto simp: cache_ok_def\<close>)
qed

lemma set_in_use_get:
  assumes "cache_ok G" "i < 32000"
  shows "GetCachedProcess (set_in_use i b G) p = GetCachedProcess G p"
proof -
  have "GetCachedProcess (set_in_use i b G) p = Some j \<longleftrightarrow> GetCachedProcess G p = Some j" for j
    using assms slot_get [OF set_in_use_ok [OF assms]] slot_get [OF assms(1)]
    by (auto simp: set_in_use_def nth_set_slot cache_ok_def split: if_splits)
  then show ?thesis by (metis not_None_eq)
qed

lemma set_in_use_cached:
  assumes "cache_ok G" "i < 32000"
  shows "cached (set_in_use i b G) p = cached G p"
proof -
  have len: "length (NEW_PROCS G) = 32000" using assms(1) by (simp add: cache_ok_def)
  have "pc_PI (NEW_PROCS (set_in_use i b G) ! j) = pc_PI (NEW_PROCS G ! j)" for j
    using assms(2) len by (simp add: set_in_use_def nth_set_slot)
  then show ?thesis by (simp add: cached_def set_in_use_get [OF assms])
qed

lemma log_frame_fields:
  assumes "log_frame G G'"
  shows "NEW_PROCS G' = NEW_PROCS G" "NEW_PROCS_INDEX G' = NEW_PROCS_INDEX G"
    "clientpid G' = clientpid G" "gc_list G' = gc_list G" "gc_COUNT G' = gc_COUNT G" "gc_id G' = gc_id G"
    "KEEP_EXCLUDES G' = KEEP_EXCLUDES G" "gc_State G' = gc_State G" "gc_tag G' = gc_tag G"
    "RESIST_TAMPERING G' = RESIST_TAMPERING G"
  using assms by (auto simp: log_frame_def)

lemma cache_same:
  assumes "NEW_PROCS G' = NEW_PROCS G"
  shows "cache_ok G' = cache_ok G" "cached G' p = cached G p" "GetCachedProcess G' p = GetCachedProcess G p"
    "IsNewProcess G' p = IsNewProcess G p"
  using assms by (simp_all add: cache_ok_def cached_def GetCachedProcess_def IsNewProcess_def)

text \<open>Marking and unmarking a slot that was not in use gives the context back.\<close>

lemma release_marked:
  assumes "i < length (NEW_PROCS G)" "\<not> pc_InUse (NEW_PROCS G ! i)"
  shows "release (Some i) (set_in_use i True G) = G"
proof -
  have "(NEW_PROCS G ! i)\<lparr>pc_InUse := False\<rparr> = NEW_PROCS G ! i"
    using assms(2) by (cases "NEW_PROCS G ! i") simp
  then show ?thesis
    using assms(1) by (simp add: release_def set_in_use_def set_slot_def)
qed

end
