(* ===== verification/MM_Network_Callback.thy ===== *)
theory MM_Network_Callback
  imports MM_Kernel MM_Network_Rules
begin

text \<open>
  \<open>NetClassifyCallback\<close> of \<open>src/MoonMon/MoonMon.c\<close>, which the filtering platform calls at the layers where
  the driver has callouts. The ids of the layers and the positions of the fields in the array of
  values come from the platform's headers and are a parameter. A value is a tagged union.
\<close>

section \<open>What the platform hands over\<close>

datatype wfp_layer = ALE_AUTH_CONNECT_V4 | ALE_AUTH_LISTEN_V4 | ALE_AUTH_RECV_ACCEPT_V4 | DATAGRAM_DATA_V4
  | ALE_AUTH_CONNECT_V6 | ALE_AUTH_LISTEN_V6 | ALE_AUTH_RECV_ACCEPT_V6 | DATAGRAM_DATA_V6
  | ALE_RESOURCE_ASSIGNMENT_V4 | ALE_RESOURCE_ASSIGNMENT_V6
  | NAME_RESOLUTION_CACHE_V4 | NAME_RESOLUTION_CACHE_V6

text \<open>The fields that are read, by the layer family whose index constant the code uses.\<close>

datatype wfp_family = CONNECT_V4 | CONNECT_V6 | RESOURCE_V4 | RESOURCE_V6

datatype wfp_field = ALE_APP_ID | IP_ARRIVAL_INTERFACE | ARRIVAL_INTERFACE_TYPE | IP_LOCAL_INTERFACE
  | INTERFACE_TYPE | IP_PROTOCOL | IP_LOCAL_ADDRESS | IP_REMOTE_ADDRESS | IP_LOCAL_PORT | IP_REMOTE_PORT
  | IP_LOCAL_ADDRESS_TYPE | ALE_PROMISCUOUS_MODE

record wfp_headers =
  FWPS_LAYER :: "wfp_layer \<Rightarrow> u16"
  FWPS_FIELD :: "wfp_family \<Rightarrow> wfp_field \<Rightarrow> nat"

datatype FWP_VALUE = FWP_EMPTY | FWP_UINT8 u8 | FWP_UINT16 u16 | FWP_UINT32 u32 | FWP_UINT64 "u64 ptr"
  | FWP_BYTE_BLOB "(u32 \<times> u8 list ptr) ptr" | FWP_BYTE_ARRAY16 "u8 list ptr" | FWP_OTHER u64

text \<open>Reading the member \<open>uint8\<close> of the union, whatever is in it: its lowest byte.\<close>

fun fwp_uint8 :: "FWP_VALUE \<Rightarrow> u8" where
  "fwp_uint8 FWP_EMPTY = 0"
| "fwp_uint8 (FWP_UINT8 v) = v"
| "fwp_uint8 (FWP_UINT16 v) = ucast v"
| "fwp_uint8 (FWP_UINT32 v) = ucast v"
| "fwp_uint8 (FWP_UINT64 q) = (case q of Null \<Rightarrow> 0 | Ptr a _ \<Rightarrow> ucast a)"
| "fwp_uint8 (FWP_BYTE_BLOB q) = (case q of Null \<Rightarrow> 0 | Ptr a _ \<Rightarrow> ucast a)"
| "fwp_uint8 (FWP_BYTE_ARRAY16 q) = (case q of Null \<Rightarrow> 0 | Ptr a _ \<Rightarrow> ucast a)"
| "fwp_uint8 (FWP_OTHER v) = ucast v"

record net_event =
  ne_layerId :: u16
  ne_incomingValue :: "FWP_VALUE list"
  ne_processId :: "u64 option"
  ne_packetDirection :: "u32 option"

section \<open>Gathering the event\<close>

text \<open>The locals of the callback that the branches set: the event, and \<open>app\<close>, \<open>event_type\<close>, \<open>netconn\<close>
  and \<open>littleEndian\<close>.\<close>

record net_gathered =
  ng_NI :: WFP_INFO
  ng_app :: UNICODE_STRING
  ng_event_type :: u16
  ng_netconn :: bool
  ng_littleEndian :: bool

definition read_value :: "wfp_headers \<Rightarrow> net_event \<Rightarrow> wfp_family \<Rightarrow> wfp_field \<Rightarrow> FWP_VALUE res" where
  "read_value H ev fam f = index (ne_incomingValue ev) (FWPS_FIELD H fam f)"

text \<open>The path of the program; the length is that of the blob without its final NUL, in 16 bits.\<close>

definition get_app :: "wfp_headers \<Rightarrow> net_event \<Rightarrow> wfp_family \<Rightarrow> net_gathered \<Rightarrow> net_gathered res" where
  "get_app H ev fam g =
     andthen (read_value H ev fam ALE_APP_ID) (\<lambda>v.
       case v of FWP_BYTE_BLOB q \<Rightarrow>
         andthen (load q) (\<lambda>(size, bs).
           let n = ucast size - 2 in
           Inr (g\<lparr>ng_app := \<lparr>Length = n, MaximumLength = n, Buffer = bs\<rparr>\<rparr>))
       | _ \<Rightarrow> Inr g)"

definition get_type :: "wfp_headers \<Rightarrow> net_event \<Rightarrow> wfp_family \<Rightarrow> wfp_field \<Rightarrow> WFP_INFO \<Rightarrow> WFP_INFO res" where
  "get_type H ev fam f NI =
     andthen (read_value H ev fam f) (\<lambda>v.
       case v of FWP_UINT32 t \<Rightarrow> Inr (NI\<lparr>interfaceType := t\<rparr>) | _ \<Rightarrow> Inr NI)"

text \<open>The interface of a connection: the one of arrival, otherwise the local one.\<close>

definition get_interface :: "wfp_headers \<Rightarrow> net_event \<Rightarrow> wfp_family \<Rightarrow> WFP_INFO \<Rightarrow> WFP_INFO res" where
  "get_interface H ev fam NI =
     andthen (read_value H ev fam IP_ARRIVAL_INTERFACE) (\<lambda>v.
       case v of FWP_UINT64 q \<Rightarrow>
         andthen (load q) (\<lambda>i. get_type H ev fam ARRIVAL_INTERFACE_TYPE (NI\<lparr>wfp_interface := i\<rparr>))
       | _ \<Rightarrow>
         andthen (read_value H ev fam IP_LOCAL_INTERFACE) (\<lambda>v.
           case v of FWP_UINT64 q \<Rightarrow>
             andthen (load q) (\<lambda>i. get_type H ev fam INTERFACE_TYPE (NI\<lparr>wfp_interface := i\<rparr>))
           | _ \<Rightarrow> Inr NI))"

definition get_protocol :: "wfp_headers \<Rightarrow> net_event \<Rightarrow> wfp_family \<Rightarrow> WFP_INFO \<Rightarrow> WFP_INFO res" where
  "get_protocol H ev fam NI =
     andthen (read_value H ev fam IP_PROTOCOL) (\<lambda>v.
       case v of FWP_UINT8 p \<Rightarrow> Inr (NI\<lparr>ipProtocol := p\<rparr>) | _ \<Rightarrow> Inr NI)"

definition get_u16 :: "wfp_headers \<Rightarrow> net_event \<Rightarrow> wfp_family \<Rightarrow> wfp_field \<Rightarrow> u16 res" where
  "get_u16 H ev fam f = andthen (read_value H ev fam f) (\<lambda>v. case v of FWP_UINT16 p \<Rightarrow> Inr p | _ \<Rightarrow> Inr 0)"

definition get_u32 :: "wfp_headers \<Rightarrow> net_event \<Rightarrow> wfp_family \<Rightarrow> wfp_field \<Rightarrow> u32 res" where
  "get_u32 H ev fam f = andthen (read_value H ev fam f) (\<lambda>v. case v of FWP_UINT32 a \<Rightarrow> Inr a | _ \<Rightarrow> Inr 0)"

text \<open>Connections over IPv4. At each of the four layers the fields are read at the positions they have
  at the connect layer. The addresses are in host order; they are swapped for packets that are known
  not to be inbound.\<close>

definition gather_v4 :: "wfp_headers \<Rightarrow> net_event \<Rightarrow> net_gathered \<Rightarrow> net_gathered res" where
  "gather_v4 H ev g =
     andthen (get_app H ev CONNECT_V4 g) (\<lambda>g.
     andthen (get_interface H ev CONNECT_V4 (ng_NI g)) (\<lambda>NI.
     andthen (get_protocol H ev CONNECT_V4 NI) (\<lambda>NI.
     andthen (get_u32 H ev CONNECT_V4 IP_LOCAL_ADDRESS) (\<lambda>localIp.
     andthen (get_u32 H ev CONNECT_V4 IP_REMOTE_ADDRESS) (\<lambda>remoteIp.
     let swap = (case ne_packetDirection ev of None \<Rightarrow> False | Some d \<Rightarrow> (ucast d :: u8) \<noteq> 1);
         order = (if swap then htonl else id) in
     andthen (get_u16 H ev CONNECT_V4 IP_LOCAL_PORT) (\<lambda>lport.
     andthen (get_u16 H ev CONNECT_V4 IP_REMOTE_PORT) (\<lambda>rport.
       Inr (g\<lparr>ng_NI := NI\<lparr>localIpv4Addr := order localIp, remoteIpv4Addr := order remoteIp,
                localPort := lport, remotePort := rport\<rparr>,
              ng_littleEndian := \<not> swap\<rparr>))))))))"

definition get_addr16 :: "wfp_headers \<Rightarrow> net_event \<Rightarrow> wfp_family \<Rightarrow> wfp_field \<Rightarrow> u8 list ptr option res" where
  "get_addr16 H ev fam f =
     andthen (read_value H ev fam f) (\<lambda>v. case v of FWP_BYTE_ARRAY16 q \<Rightarrow> Inr (Some q) | _ \<Rightarrow> Inr None)"

definition gather_v6 :: "wfp_headers \<Rightarrow> net_event \<Rightarrow> net_gathered \<Rightarrow> net_gathered res" where
  "gather_v6 H ev g =
     andthen (get_app H ev CONNECT_V6 g) (\<lambda>g.
     andthen (get_interface H ev CONNECT_V6 (ng_NI g)) (\<lambda>NI.
     andthen (get_protocol H ev CONNECT_V6 NI) (\<lambda>NI.
     andthen (get_addr16 H ev CONNECT_V6 IP_LOCAL_ADDRESS) (\<lambda>la.
     andthen (get_addr16 H ev CONNECT_V6 IP_REMOTE_ADDRESS) (\<lambda>ra.
     let NI = NI\<lparr>localIpv6Addr := (case la of Some q \<Rightarrow> q | None \<Rightarrow> localIpv6Addr NI),
                 remoteIpv6Addr := (case ra of Some q \<Rightarrow> q | None \<Rightarrow> remoteIpv6Addr NI)\<rparr>;
         ports = (ipProtocol NI = 6 \<or> ipProtocol NI = 17) in
     andthen (if ports then get_u16 H ev CONNECT_V6 IP_LOCAL_PORT else Inr 0) (\<lambda>lport.
     andthen (if ports then get_u16 H ev CONNECT_V6 IP_REMOTE_PORT else Inr 0) (\<lambda>rport.
       Inr (g\<lparr>ng_NI := NI\<lparr>localPort := lport, remotePort := rport\<rparr>\<rparr>))))))))"

text \<open>The assignment of a resource, as by \<open>bind\<close>: the members both versions read in the same way.\<close>

definition gather_resource ::
  "wfp_headers \<Rightarrow> net_event \<Rightarrow> wfp_family \<Rightarrow> WFP_INFO \<Rightarrow> WFP_INFO res" where
  "gather_resource H ev fam NI =
     andthen (read_value H ev fam IP_LOCAL_ADDRESS_TYPE) (\<lambda>v.
     let NI = (case v of FWP_UINT8 t \<Rightarrow> NI\<lparr>addrType := t\<rparr> | _ \<Rightarrow> NI) in
     andthen (read_value H ev fam ALE_PROMISCUOUS_MODE) (\<lambda>v.
     let NI = (if v \<noteq> FWP_EMPTY then NI\<lparr>promiscuous := fwp_uint8 v\<rparr> else NI) in
     andthen (read_value H ev fam IP_LOCAL_INTERFACE) (\<lambda>v.
     andthen (case v of FWP_UINT64 q \<Rightarrow> andthen (load q) (\<lambda>i. Inr (NI\<lparr>wfp_interface := i\<rparr>)) | _ \<Rightarrow> Inr NI) (\<lambda>NI.
       get_type H ev fam INTERFACE_TYPE NI))))"

definition gather_resource_v4 :: "wfp_headers \<Rightarrow> net_event \<Rightarrow> net_gathered \<Rightarrow> net_gathered res" where
  "gather_resource_v4 H ev g =
     andthen (get_app H ev RESOURCE_V4 (g\<lparr>ng_event_type := MM_NETWORK_RESOURCE, ng_netconn := False\<rparr>)) (\<lambda>g.
     andthen (read_value H ev RESOURCE_V4 IP_LOCAL_ADDRESS) (\<lambda>v.
     let NI = (case v of FWP_UINT32 a \<Rightarrow> (ng_NI g)\<lparr>localIpv4Addr := htonl a\<rparr> | _ \<Rightarrow> ng_NI g) in
     andthen (gather_resource H ev RESOURCE_V4 NI) (\<lambda>NI. Inr (g\<lparr>ng_NI := NI\<rparr>))))"

definition gather_resource_v6 :: "wfp_headers \<Rightarrow> net_event \<Rightarrow> net_gathered \<Rightarrow> net_gathered res" where
  "gather_resource_v6 H ev g =
     andthen (get_app H ev RESOURCE_V6 (g\<lparr>ng_event_type := MM_NETWORK_RESOURCE, ng_netconn := False\<rparr>)) (\<lambda>g.
     andthen (get_addr16 H ev RESOURCE_V6 IP_LOCAL_ADDRESS) (\<lambda>la.
     let NI = (case la of Some q \<Rightarrow> (ng_NI g)\<lparr>localIpv6Addr := q\<rparr> | None \<Rightarrow> ng_NI g) in
     andthen (gather_resource H ev RESOURCE_V6 NI) (\<lambda>NI. Inr (g\<lparr>ng_NI := NI\<rparr>))))"

definition zero_ni :: WFP_INFO where
  "zero_ni = \<lparr>Direction = 0, ipProtocol = 0, addrType = 0, promiscuous = 0, wfp_layer = 0, localPort = 0,
     remotePort = 0, localIpv4Addr = 0, remoteIpv4Addr = 0, interfaceType = 0, wfp_interface = 0,
     localIpv6Addr = Null, remoteIpv6Addr = Null, wfp_PI = Null, wfp_tag = NEREID\<rparr>"

text \<open>The layers of the DNS cache, and unknown ones, only print.\<close>

definition net_gather :: "wfp_headers \<Rightarrow> net_event \<Rightarrow> net_gathered res" where
  "net_gather H ev =
     (let layer = ne_layerId ev; at = (\<lambda>ls. layer \<in> set (map (FWPS_LAYER H) ls));
          NI = (case ne_packetDirection ev of None \<Rightarrow> zero_ni | Some d \<Rightarrow> zero_ni\<lparr>Direction := ucast d\<rparr>);
          g = \<lparr>ng_NI = NI, ng_app = \<lparr>Length = 0, MaximumLength = 0, Buffer = Null\<rparr>,
               ng_event_type = NETWORK_CONNECTION, ng_netconn = True, ng_littleEndian = True\<rparr> in
      if at [ALE_AUTH_CONNECT_V4, ALE_AUTH_LISTEN_V4, ALE_AUTH_RECV_ACCEPT_V4, DATAGRAM_DATA_V4]
      then gather_v4 H ev g
      else if at [ALE_AUTH_CONNECT_V6, ALE_AUTH_LISTEN_V6, ALE_AUTH_RECV_ACCEPT_V6, DATAGRAM_DATA_V6]
      then gather_v6 H ev g
      else if at [ALE_RESOURCE_ASSIGNMENT_V4] then gather_resource_v4 H ev g
      else if at [ALE_RESOURCE_ASSIGNMENT_V6] then gather_resource_v6 H ev g
      else Inr g)"

section \<open>The callback\<close>

definition network_calls ::
  "u64 \<Rightarrow> u16 \<Rightarrow> bool \<Rightarrow> net_gathered \<Rightarrow> inspection \<Rightarrow> log_call list" where
  "network_calls pid layer foundProc g verdict =
     (let NI = ng_NI g; netconn = ng_netconn g; app = ng_app g in
      [log_u32 MATCH_ID (in_id verdict),
       log_u16 EVENT_TYPE (ng_event_type g),
       log_u64 PID pid,
       log_u16 MM_WFP_LAYER layer] @
      (if foundProc then PCacheLogEntries (wfp_PI NI) False else []) @
      (if netconn then
         [log_u8 MM_NET_DIRECTION (Direction NI),
          log_u8 MM_NET_IP_PROTOCOL (ipProtocol NI),
          log_u16 MM_NET_REMOTE_PORT (remotePort NI),
          log_when (remoteIpv4Addr NI \<noteq> 0) (log_u32 MM_NET_REMOTE_IPV4_ADDR (remoteIpv4Addr NI)),
          log_when (remoteIpv6Addr NI \<noteq> Null) (Some (16, MM_NET_REMOTE_IPV6_ADDR, remoteIpv6Addr NI))]
       else []) @
      [log_u8 MM_NET_ADDRESS_TYPE (addrType NI),
       log_when (\<not> netconn) (log_u8 MM_NET_PROMISCUOUS (promiscuous NI)),
       log_u16 MM_NET_LOCAL_PORT (localPort NI),
       log_when (localIpv4Addr NI \<noteq> 0 \<or> \<not> netconn) (log_u32 MM_NET_LOCAL_IPV4_ADDR (localIpv4Addr NI)),
       log_u32 MM_NET_INTERFACE_TYPE (interfaceType NI),
       log_u64 MM_NET_INTERFACE (wfp_interface NI),
       log_when (localIpv6Addr NI \<noteq> Null) (Some (16, MM_NET_LOCAL_IPV6_ADDR, localIpv6Addr NI)),
       log_when (wfp_PI NI \<noteq> Null \<and> ImageFileName (deref (wfp_PI NI)) = Null
           \<and> 0 < Length app \<and> Buffer app \<noteq> Null)
         (Some (ucast (Length app), IMAGE_FILE_NAME, Buffer app)),
       log_u16 EVENT_END (ng_event_type g)])"

text \<open>The process the platform names is logged by its low 32 bits and looked up by its handle. The
  verdict is always \<open>FWP_ACTION_CONTINUE\<close>, so it is not part of the result.\<close>

definition NetClassifyCallback :: "rtl \<Rightarrow> kernel \<Rightarrow> wfp_headers \<Rightarrow> GC \<Rightarrow> net_event \<Rightarrow> GC res" where
  "NetClassifyCallback R K H globals ev =
     (let ts = KeQuerySystemTimePrecise K; (rid, G) = mm_id globals;
          meta_pid = (case ne_processId ev of None \<Rightarrow> 0 | Some p \<Rightarrow> ucast (ucast p :: u32)) in
      andthen (net_gather H ev) (\<lambda>g.
      let (pid, currentProcess) =
            (case ne_processId ev of
               Some p \<Rightarrow> if meta_pid \<noteq> 0 then (meta_pid, p) else (PsGetCurrentProcessId K, PsGetCurrentProcessId K)
             | None \<Rightarrow> (PsGetCurrentProcessId K, PsGetCurrentProcessId K));
          (slot, foundProc, PI, G) = find_process G currentProcess Null;
          g = g\<lparr>ng_NI := (ng_NI g)\<lparr>wfp_PI := PI, wfp_layer := ne_layerId ev\<rparr>\<rparr> in
      andthen (InspectNetworkEvent R G (ng_NI g) (ng_littleEndian g)) (\<lambda>verdict.
      andthen (if \<not> in_skip verdict \<or> KEEP_EXCLUDES G
               then log_all R (MM_Genrand K) 0 rid ts (network_calls pid (ne_layerId ev) foundProc g verdict) G
               else Inr G) (\<lambda>G. Inr (release slot G)))))"

end
