(* ===== verification/MM_System.thy ===== *)
theory MM_System
  imports MM_Network_Callback "HOL-Library.State_Monad"
begin

text \<open>
  The kernel as the set-up of the driver sees it: calls with a status, in an order that matters. The
  state is the history of the calls made so far with their results; what a call answers is a
  parameter that may depend on it. Code that makes calls is a value of the state monad of the
  library, so that it reads in the order of the C statements.
\<close>

section \<open>Calls\<close>

datatype GUID = GUID u32 u16 u16 "u8 list"

datatype call =
    FwpmEngineOpen | FwpmEngineClose | FwpmTransactionBegin | FwpmTransactionCommit | FwpmFreeMemory
  | FwpsCalloutRegister GUID | FwpmCalloutAdd GUID wfp_layer | FwpmFilterAdd GUID wfp_layer GUID
  | FwpmFilterDeleteByKey GUID | FwpmCalloutDeleteByKey GUID | FwpsCalloutUnregisterByKey GUID
  | FwpmProviderGetByKey GUID | FwpmProviderAdd GUID | FwpmProviderDeleteByKey GUID
  | FwpmBfeStateSubscribeChanges | FwpmBfeStateUnsubscribeChanges | FwpmBfeStateGet
  | PsSetCreateProcessNotifyRoutineEx2 bool
  | PsSetCreateThreadNotifyRoutine | PsRemoveCreateThreadNotifyRoutine
  | PsSetLoadImageNotifyRoutine | PsRemoveLoadImageNotifyRoutine
  | ObRegisterCallbacks | ObUnRegisterCallbacks | CmRegisterCallbackEx | CmUnRegisterCallback
  | FltRegisterFilter | FltStartFiltering | FltUnregisterFilter
  | ZwOpenKey | ZwCreateKey string | ZwSetValueKey string | ZwClose
  | IoCreateDevice | IoCreateSymbolicLink | IoDeleteSymbolicLink | IoDeleteDevice

type_synonym history = "(call \<times> NTSTATUS) list"

text \<open>\<open>sys_handle\<close> is what a successful call stores through its handle parameter. The last two members are
  a constant of the Windows headers that the code uses as a status, and the size of the global context
  in the compiler's layout.\<close>

record system =
  sys_status :: "history \<Rightarrow> call \<Rightarrow> NTSTATUS"
  sys_handle :: "history \<Rightarrow> call \<Rightarrow> u64"
  STORE_DATA_STRUCTURE_CORRUPTION :: NTSTATUS
  sizeof_GC :: nat

type_synonym 'a sys = "(history, 'a) state"

definition syscall :: "system \<Rightarrow> call \<Rightarrow> NTSTATUS sys" where
  "syscall S c = State (\<lambda>h. let s = sys_status S h c in (s, h @ [(c, s)]))"

definition syshandle :: "system \<Rightarrow> call \<Rightarrow> (NTSTATUS \<times> u64) sys" where
  "syshandle S c = State (\<lambda>h. let s = sys_status S h c in ((s, sys_handle S h c), h @ [(c, s)]))"

lemma run_syscall [simp]:
  "run_state (syscall S c) h = (sys_status S h c, h @ [(c, sys_status S h c)])"
  by (simp add: syscall_def Let_def)

lemma run_syshandle [simp]:
  "run_state (syshandle S c) h = ((sys_status S h c, sys_handle S h c), h @ [(c, sys_status S h c)])"
  by (simp add: syshandle_def Let_def)

text \<open>A run of calls whose results nobody looks at, and one that stops at the first failure.\<close>

fun syscalls :: "system \<Rightarrow> call list \<Rightarrow> unit sys" where
  "syscalls S [] = State_Monad.return ()"
| "syscalls S (c # cs) = do { _ \<leftarrow> syscall S c; syscalls S cs }"

fun syscalls_until :: "(NTSTATUS \<Rightarrow> bool) \<Rightarrow> system \<Rightarrow> call list \<Rightarrow> NTSTATUS \<Rightarrow> NTSTATUS sys" where
  "syscalls_until failed S [] status = State_Monad.return status"
| "syscalls_until failed S (c # cs) status = do {
     status \<leftarrow> syscall S c;
     if failed status then State_Monad.return status else syscalls_until failed S cs status }"

section \<open>What a history shows\<close>

lemma syscalls_history:
  "\<exists>rs. run_state (syscalls S cs) h = ((), h @ rs) \<and> map fst rs = cs"
proof (induction cs arbitrary: h)
  case (Cons c cs)
  obtain rs where "run_state (syscalls S cs) (h @ [(c, sys_status S h c)])
      = ((), (h @ [(c, sys_status S h c)]) @ rs)" "map fst rs = cs"
    using Cons.IH by blast
  then show ?case by (intro exI [of _ "(c, sys_status S h c) # rs"]) simp
qed simp

text \<open>A run that stops at the first failure makes a prefix of its calls, all but the last of them with
  success; it makes all of them when its result is no failure.\<close>

lemma syscalls_until_history:
  assumes "\<not> failed s0"
  shows "\<exists>s rs. run_state (syscalls_until failed S cs s0) h = (s, h @ rs) \<and> prefix (map fst rs) cs
    \<and> (if failed s then rs \<noteq> [] \<and> snd (last rs) = s \<and> list_all (\<lambda>(c, r). \<not> failed r) (butlast rs)
       else map fst rs = cs \<and> list_all (\<lambda>(c, r). \<not> failed r) rs)"
  using assms
proof (induction cs arbitrary: h s0)
  case Nil
  then show ?case by simp
next
  case (Cons c cs)
  let ?r = "sys_status S h c"
  show ?case
  proof (cases "failed ?r")
    case True
    then show ?thesis by (intro exI [of _ ?r] exI [of _ "[(c, ?r)]"]) simp
  next
    case False
    obtain s rs where "run_state (syscalls_until failed S cs ?r) (h @ [(c, ?r)]) = (s, (h @ [(c, ?r)]) @ rs)"
      "prefix (map fst rs) cs"
      "if failed s then rs \<noteq> [] \<and> snd (last rs) = s \<and> list_all (\<lambda>(c, r). \<not> failed r) (butlast rs)
       else map fst rs = cs \<and> list_all (\<lambda>(c, r). \<not> failed r) rs"
      using Cons.IH [OF False] by blast
    with False show ?thesis by (intro exI [of _ s] exI [of _ "(c, ?r) # rs"]) (auto split: if_splits)
  qed
qed

end
