(* ===== verification/MM_WFP_Setup.thy ===== *)
theory MM_WFP_Setup
  imports MM_System
begin

text \<open>
  The filtering platform set-up of \<open>src/MoonMon/WFP.c\<close>: the keys of \<open>src/MoonMon/WFP.h\<close>, the tables of
  callouts and filters, their registration and their removal. The names shown to an administrator are
  left out of the tables.
\<close>

section \<open>Keys\<close>

definition MM_WFP_PROVIDER :: GUID where
  "MM_WFP_PROVIDER = GUID 0xcd1005ae 0x8e72 0x4102 [0x9e, 0xaf, 0x96, 0x3e, 0xd3, 0xf5, 0x28, 0x87]"

definition MM_INSPECTION_SUBLAYER :: GUID where
  "MM_INSPECTION_SUBLAYER = GUID 0x927fdd87 0x95a9 0x49b3 [0x8e, 0x19, 0x2, 0xa6, 0xc8, 0x63, 0xf1, 0x4b]"

definition MM_CALLOUT_V4 :: GUID where
  "MM_CALLOUT_V4 = GUID 0x1d5182bf 0x81ff 0x4529 [0xa4, 0x67, 0x48, 0x11, 0xc, 0xc4, 0x87, 0xbb]"

definition MM_CALLOUT_V6 :: GUID where
  "MM_CALLOUT_V6 = GUID 0x188ebcab 0x67a9 0x4b8e [0xa2, 0x54, 0x92, 0x19, 0x6d, 0x44, 0x42, 0xa3]"

definition MM_CALLOUT_UDP_V4 :: GUID where
  "MM_CALLOUT_UDP_V4 = GUID 0x616d1294 0x20a4 0x427b [0x95, 0xd4, 0x87, 0x85, 0x91, 0x5e, 0xdf, 0xf7]"

definition MM_CALLOUT_UDP_V6 :: GUID where
  "MM_CALLOUT_UDP_V6 = GUID 0x954dbb7b 0x656a 0x487e [0x97, 0xfb, 0xb, 0xde, 0x1, 0xc9, 0xb8, 0x13]"

definition MM_CALLOUT_ACCEPT_V4 :: GUID where
  "MM_CALLOUT_ACCEPT_V4 = GUID 0x31a4ef5 0x97fa 0x490e [0x9f, 0x74, 0x72, 0x9d, 0x40, 0xc1, 0x7, 0xee]"

definition MM_CALLOUT_ACCEPT_V6 :: GUID where
  "MM_CALLOUT_ACCEPT_V6 = GUID 0xcc0e9769 0xa925 0x489f [0x99, 0xb5, 0xbc, 0x21, 0xbd, 0x97, 0xb2, 0xe4]"

definition MM_CALLOUT_LISTEN_V4 :: GUID where
  "MM_CALLOUT_LISTEN_V4 = GUID 0x84e33137 0x386c 0x498c [0xa3, 0x7d, 0xdc, 0xa1, 0x2b, 0xfd, 0x30, 0xc9]"

definition MM_CALLOUT_LISTEN_V6 :: GUID where
  "MM_CALLOUT_LISTEN_V6 = GUID 0x2a491df3 0x45d1 0x45fe [0x84, 0xd4, 0x96, 0xdf, 0xcb, 0xd9, 0x4a, 0x66]"

definition MM_CALLOUT_RESOURCE_ASSIGNMENT_V4 :: GUID where
  "MM_CALLOUT_RESOURCE_ASSIGNMENT_V4 = GUID 0xb3ea2ddc 0xbb89 0x40c2 [0xb1, 0x1c, 0xe7, 0x11, 0xa7, 0xa8, 0xd6, 0x49]"

definition MM_CALLOUT_RESOURCE_ASSIGNMENT_V6 :: GUID where
  "MM_CALLOUT_RESOURCE_ASSIGNMENT_V6 = GUID 0xf4c8452d 0xa7b8 0x4940 [0x82, 0x9, 0x8b, 0xbe, 0x89, 0x1f, 0xea, 0xaf]"

definition MM_CALLOUT_DNS_CACHE_V4 :: GUID where
  "MM_CALLOUT_DNS_CACHE_V4 = GUID 0xeccf87c3 0x5414 0x4a15 [0xb3, 0x36, 0xb0, 0x92, 0x67, 0x5, 0xb5, 0x8d]"

definition MM_CALLOUT_DNS_CACHE_V6 :: GUID where
  "MM_CALLOUT_DNS_CACHE_V6 = GUID 0x4e4c73d1 0x8a81 0x4c17 [0xae, 0x8b, 0xfc, 0xf1, 0xef, 0x88, 0xbd, 0x9c]"

definition MM_FILTER_V4 :: GUID where
  "MM_FILTER_V4 = GUID 0x9ae6b84e 0x7ec0 0x415b [0xbf, 0x8d, 0x31, 0xaf, 0xea, 0x5d, 0x71, 0x64]"

definition MM_FILTER_V6 :: GUID where
  "MM_FILTER_V6 = GUID 0x2869dbe 0x3778 0x4757 [0xa0, 0x7e, 0x6d, 0x24, 0x79, 0xde, 0x9a, 0x17]"

definition MM_FILTER_UDP_V4 :: GUID where
  "MM_FILTER_UDP_V4 = GUID 0x8bc449f 0x90f9 0x4d25 [0xb0, 0x6d, 0x7a, 0xe7, 0x52, 0x6f, 0xb0, 0x1f]"

definition MM_FILTER_UDP_V6 :: GUID where
  "MM_FILTER_UDP_V6 = GUID 0xc288a8cf 0x482 0x4c6a [0xb4, 0x28, 0x2d, 0x9e, 0x8, 0x0, 0x80, 0x8b]"

definition MM_FILTER_ACCEPT_V4 :: GUID where
  "MM_FILTER_ACCEPT_V4 = GUID 0xdb8ee785 0x13a 0x400a [0x8b, 0x98, 0xc0, 0x27, 0x43, 0x18, 0xcf, 0x70]"

definition MM_FILTER_ACCEPT_V6 :: GUID where
  "MM_FILTER_ACCEPT_V6 = GUID 0x43c8f257 0x7301 0x4130 [0x83, 0x33, 0x50, 0x60, 0x8c, 0x83, 0x35, 0xce]"

definition MM_FILTER_LISTEN_V4 :: GUID where
  "MM_FILTER_LISTEN_V4 = GUID 0xbc843556 0xf907 0x453a [0x82, 0x99, 0x48, 0x63, 0x8f, 0x93, 0x65, 0x21]"

definition MM_FILTER_LISTEN_V6 :: GUID where
  "MM_FILTER_LISTEN_V6 = GUID 0xae71b1c0 0xef7c 0x4360 [0x98, 0x7c, 0x8e, 0x7d, 0xc1, 0xc3, 0x74, 0x81]"

definition MM_FILTER_RESOURCE_ASSIGNMENT_V4 :: GUID where
  "MM_FILTER_RESOURCE_ASSIGNMENT_V4 = GUID 0x2227b848 0x2270 0x41ed [0x8a, 0x7c, 0x15, 0x4b, 0xa4, 0x3f, 0x56, 0xb0]"

definition MM_FILTER_RESOURCE_ASSIGNMENT_V6 :: GUID where
  "MM_FILTER_RESOURCE_ASSIGNMENT_V6 = GUID 0xbbb5355a 0xc8c5 0x4cec [0x93, 0x17, 0x4c, 0x5f, 0xcc, 0x6d, 0xc3, 0x94]"

definition MM_FILTER_DNS_CACHE_V4 :: GUID where
  "MM_FILTER_DNS_CACHE_V4 = GUID 0xed756d08 0x120b 0x41fe [0x88, 0x9a, 0x2e, 0x2a, 0x76, 0xd9, 0x0, 0x14]"

definition MM_FILTER_DNS_CACHE_V6 :: GUID where
  "MM_FILTER_DNS_CACHE_V6 = GUID 0xeb0847a3 0x31d4 0x4f60 [0x92, 0xf4, 0xb6, 0x80, 0xab, 0xeb, 0xc3, 0xc2]"

abbreviation (input) MM_FILTER_V4_ID :: u64 where "MM_FILTER_V4_ID \<equiv> 0x90"
abbreviation (input) MM_FILTER_V6_ID :: u64 where "MM_FILTER_V6_ID \<equiv> 0x91"
abbreviation (input) MM_FILTER_UDP_V4_ID :: u64 where "MM_FILTER_UDP_V4_ID \<equiv> 0x92"
abbreviation (input) MM_FILTER_UDP_V6_ID :: u64 where "MM_FILTER_UDP_V6_ID \<equiv> 0x93"
abbreviation (input) MM_FILTER_ACCEPT_V4_ID :: u64 where "MM_FILTER_ACCEPT_V4_ID \<equiv> 0x94"
abbreviation (input) MM_FILTER_ACCEPT_V6_ID :: u64 where "MM_FILTER_ACCEPT_V6_ID \<equiv> 0x95"
abbreviation (input) MM_FILTER_LISTEN_V4_ID :: u64 where "MM_FILTER_LISTEN_V4_ID \<equiv> 0x96"
abbreviation (input) MM_FILTER_LISTEN_V6_ID :: u64 where "MM_FILTER_LISTEN_V6_ID \<equiv> 0x97"
abbreviation (input) MM_FILTER_RESOURCE_ASSIGNMENT_V4_ID :: u64 where "MM_FILTER_RESOURCE_ASSIGNMENT_V4_ID \<equiv> 0x98"
abbreviation (input) MM_FILTER_RESOURCE_ASSIGNMENT_V6_ID :: u64 where "MM_FILTER_RESOURCE_ASSIGNMENT_V6_ID \<equiv> 0x99"
abbreviation (input) MM_FILTER_DNS_CACHE_V4_ID :: u64 where "MM_FILTER_DNS_CACHE_V4_ID \<equiv> 0x9a"
abbreviation (input) MM_FILTER_DNS_CACHE_V6_ID :: u64 where "MM_FILTER_DNS_CACHE_V6_ID \<equiv> 0x9b"

section \<open>The tables\<close>

definition callouts :: "(wfp_layer \<times> GUID) list" where
  "callouts = [
     (ALE_AUTH_CONNECT_V4, MM_CALLOUT_V4),
     (ALE_AUTH_CONNECT_V6, MM_CALLOUT_V6),
     (DATAGRAM_DATA_V4, MM_CALLOUT_UDP_V4),
     (DATAGRAM_DATA_V6, MM_CALLOUT_UDP_V6),
     (ALE_AUTH_RECV_ACCEPT_V4, MM_CALLOUT_ACCEPT_V4),
     (ALE_AUTH_RECV_ACCEPT_V6, MM_CALLOUT_ACCEPT_V6),
     (ALE_AUTH_LISTEN_V4, MM_CALLOUT_LISTEN_V4),
     (ALE_AUTH_LISTEN_V6, MM_CALLOUT_LISTEN_V6),
     (ALE_RESOURCE_ASSIGNMENT_V4, MM_CALLOUT_RESOURCE_ASSIGNMENT_V4),
     (ALE_RESOURCE_ASSIGNMENT_V6, MM_CALLOUT_RESOURCE_ASSIGNMENT_V6),
     (NAME_RESOLUTION_CACHE_V4, MM_CALLOUT_DNS_CACHE_V4),
     (NAME_RESOLUTION_CACHE_V6, MM_CALLOUT_DNS_CACHE_V6)]"

datatype fwp_action = FWP_ACTION_CALLOUT_INSPECTION | FWP_ACTION_CALLOUT_TERMINATING

record mm_filter =
  fl_filterKey :: GUID
  fl_providerKey :: GUID
  fl_weight :: u8
  fl_layerKey :: wfp_layer
  fl_action_type :: fwp_action
  fl_callout_key :: GUID
  fl_id :: u64

definition filters :: "mm_filter list" where
  "filters = [
     \<lparr>fl_filterKey = MM_FILTER_V4, fl_providerKey = MM_WFP_PROVIDER, fl_weight = 8, fl_layerKey = ALE_AUTH_CONNECT_V4,
       fl_action_type = FWP_ACTION_CALLOUT_INSPECTION, fl_callout_key = MM_CALLOUT_V4, fl_id = MM_FILTER_V4_ID\<rparr>,
     \<lparr>fl_filterKey = MM_FILTER_V6, fl_providerKey = MM_WFP_PROVIDER, fl_weight = 8, fl_layerKey = ALE_AUTH_CONNECT_V6,
       fl_action_type = FWP_ACTION_CALLOUT_INSPECTION, fl_callout_key = MM_CALLOUT_V6, fl_id = MM_FILTER_V6_ID\<rparr>,
     \<lparr>fl_filterKey = MM_FILTER_UDP_V4, fl_providerKey = MM_WFP_PROVIDER, fl_weight = 8, fl_layerKey = DATAGRAM_DATA_V4,
       fl_action_type = FWP_ACTION_CALLOUT_INSPECTION, fl_callout_key = MM_CALLOUT_UDP_V4, fl_id = MM_FILTER_UDP_V4_ID\<rparr>,
     \<lparr>fl_filterKey = MM_FILTER_UDP_V6, fl_providerKey = MM_WFP_PROVIDER, fl_weight = 8, fl_layerKey = DATAGRAM_DATA_V6,
       fl_action_type = FWP_ACTION_CALLOUT_INSPECTION, fl_callout_key = MM_CALLOUT_UDP_V6, fl_id = MM_FILTER_UDP_V6_ID\<rparr>,
     \<lparr>fl_filterKey = MM_FILTER_ACCEPT_V4, fl_providerKey = MM_WFP_PROVIDER, fl_weight = 8, fl_layerKey = ALE_AUTH_RECV_ACCEPT_V4,
       fl_action_type = FWP_ACTION_CALLOUT_INSPECTION, fl_callout_key = MM_CALLOUT_ACCEPT_V4, fl_id = MM_FILTER_ACCEPT_V4_ID\<rparr>,
     \<lparr>fl_filterKey = MM_FILTER_ACCEPT_V6, fl_providerKey = MM_WFP_PROVIDER, fl_weight = 8, fl_layerKey = ALE_AUTH_RECV_ACCEPT_V6,
       fl_action_type = FWP_ACTION_CALLOUT_INSPECTION, fl_callout_key = MM_CALLOUT_ACCEPT_V6, fl_id = MM_FILTER_ACCEPT_V6_ID\<rparr>,
     \<lparr>fl_filterKey = MM_FILTER_LISTEN_V4, fl_providerKey = MM_WFP_PROVIDER, fl_weight = 8, fl_layerKey = ALE_AUTH_LISTEN_V4,
       fl_action_type = FWP_ACTION_CALLOUT_INSPECTION, fl_callout_key = MM_CALLOUT_LISTEN_V4, fl_id = MM_FILTER_LISTEN_V4_ID\<rparr>,
     \<lparr>fl_filterKey = MM_FILTER_LISTEN_V6, fl_providerKey = MM_WFP_PROVIDER, fl_weight = 8, fl_layerKey = ALE_AUTH_LISTEN_V6,
       fl_action_type = FWP_ACTION_CALLOUT_INSPECTION, fl_callout_key = MM_CALLOUT_LISTEN_V6, fl_id = MM_FILTER_LISTEN_V6_ID\<rparr>,
     \<lparr>fl_filterKey = MM_FILTER_RESOURCE_ASSIGNMENT_V4, fl_providerKey = MM_WFP_PROVIDER, fl_weight = 8, fl_layerKey = ALE_RESOURCE_ASSIGNMENT_V4,
       fl_action_type = FWP_ACTION_CALLOUT_INSPECTION, fl_callout_key = MM_CALLOUT_RESOURCE_ASSIGNMENT_V4, fl_id = MM_FILTER_RESOURCE_ASSIGNMENT_V4_ID\<rparr>,
     \<lparr>fl_filterKey = MM_FILTER_RESOURCE_ASSIGNMENT_V6, fl_providerKey = MM_WFP_PROVIDER, fl_weight = 8, fl_layerKey = ALE_RESOURCE_ASSIGNMENT_V6,
       fl_action_type = FWP_ACTION_CALLOUT_INSPECTION, fl_callout_key = MM_CALLOUT_RESOURCE_ASSIGNMENT_V6, fl_id = MM_FILTER_RESOURCE_ASSIGNMENT_V6_ID\<rparr>,
     \<lparr>fl_filterKey = MM_FILTER_DNS_CACHE_V4, fl_providerKey = MM_WFP_PROVIDER, fl_weight = 1, fl_layerKey = NAME_RESOLUTION_CACHE_V4,
       fl_action_type = FWP_ACTION_CALLOUT_TERMINATING, fl_callout_key = MM_CALLOUT_DNS_CACHE_V4, fl_id = MM_FILTER_DNS_CACHE_V4_ID\<rparr>,
     \<lparr>fl_filterKey = MM_FILTER_DNS_CACHE_V6, fl_providerKey = MM_WFP_PROVIDER, fl_weight = 1, fl_layerKey = NAME_RESOLUTION_CACHE_V6,
       fl_action_type = FWP_ACTION_CALLOUT_TERMINATING, fl_callout_key = MM_CALLOUT_DNS_CACHE_V6, fl_id = MM_FILTER_DNS_CACHE_V6_ID\<rparr>]"

section \<open>Registering\<close>

text \<open>The loop of \<open>registerCallouts\<close> over the first ten rows: a failed call steps the index back before
  the increment. The result is the index, a fault when a row outside the table is read, or \<open>None\<close>
  without fuel.\<close>

fun callouts_loop :: "system \<Rightarrow> nat \<Rightarrow> u32 \<Rightarrow> u32 res option sys" where
  "callouts_loop S 0 i = State_Monad.return None"
| "callouts_loop S (Suc fuel) i =
     (if \<not> i < 10 then State_Monad.return (Some (Inr i)) else
      case index callouts (unat i) of Inl e \<Rightarrow> State_Monad.return (Some (Inl e))
      | Inr (_, key) \<Rightarrow> do {
        status \<leftarrow> syscall S (FwpsCalloutRegister key);
        let i = (if status \<noteq> STATUS_SUCCESS then i - 1 else i);
        case index callouts (unat i) of Inl e \<Rightarrow> State_Monad.return (Some (Inl e))
        | Inr (layer, key) \<Rightarrow> do {
          status \<leftarrow> syscall S (FwpmCalloutAdd key layer);
          let i = (if \<not> NT_SUCCESS status then i - 1 else i);
          callouts_loop S fuel (i + 1) } })"

declare callouts_loop.simps [simp del]

definition registerCallouts :: "system \<Rightarrow> u32 res option sys" where
  "registerCallouts S = callouts_loop S 64 0"

text \<open>The status of \<open>setupFilters\<close> is the disjunction of the bits of all of them.\<close>

fun filters_loop :: "system \<Rightarrow> mm_filter list \<Rightarrow> NTSTATUS \<Rightarrow> NTSTATUS sys" where
  "filters_loop S [] status = State_Monad.return status"
| "filters_loop S (f # fs) status = do {
     s \<leftarrow> syscall S (FwpmFilterAdd (fl_filterKey f) (fl_layerKey f) (fl_callout_key f));
     filters_loop S fs (status OR s) }"

definition setupFilters :: "system \<Rightarrow> NTSTATUS sys" where
  "setupFilters S = filters_loop S (take 10 filters) STATUS_SUCCESS"

definition setupCalloutsAndFilters :: "system \<Rightarrow> NTSTATUS res option sys" where
  "setupCalloutsAndFilters S = do {
     status \<leftarrow> syscall S FwpmTransactionBegin;
     if \<not> NT_SUCCESS status then do {
       _ \<leftarrow> syscall S FwpmFreeMemory;
       State_Monad.return (Some (Inr status)) }
     else do {
       r \<leftarrow> registerCallouts S;
       case r of None \<Rightarrow> State_Monad.return None
       | Some (Inl e) \<Rightarrow> State_Monad.return (Some (Inl e))
       | Some (Inr n) \<Rightarrow>
         if n < 1 then State_Monad.return (Some (Inr STATUS_INTERNAL_ERROR))
         else do {
           status \<leftarrow> syscall S FwpmTransactionCommit;
           if \<not> NT_SUCCESS status then State_Monad.return (Some (Inr STATUS_INTERNAL_ERROR))
           else do {
             status \<leftarrow> syscall S FwpmTransactionBegin;
             if \<not> NT_SUCCESS status then State_Monad.return (Some (Inr status))
             else do {
               _ \<leftarrow> setupFilters S;
               status \<leftarrow> syscall S FwpmTransactionCommit;
               State_Monad.return (Some (Inr status)) } } } } }"

definition SetupWFP :: "system \<Rightarrow> NTSTATUS res option sys" where
  "SetupWFP S = do {
     status \<leftarrow> syscall S FwpmEngineOpen;
     if \<not> NT_SUCCESS status then do {
       _ \<leftarrow> syscall S FwpmEngineClose;
       State_Monad.return (Some (Inr status)) }
     else do {
       _ \<leftarrow> syscall S (FwpmProviderGetByKey MM_WFP_PROVIDER);
       status \<leftarrow> syscall S (FwpmProviderAdd MM_WFP_PROVIDER);
       r \<leftarrow> (if \<not> NT_SUCCESS status then State_Monad.return (Some (Inr status))
            else do {
              r \<leftarrow> setupCalloutsAndFilters S;
              State_Monad.return (map_option (\<lambda>r. andthen r (\<lambda>s. Inr (status OR s))) r) });
       case r of Some (Inr status) \<Rightarrow> do {
           _ \<leftarrow> syscall S FwpmEngineClose;
           State_Monad.return (Some (Inr status)) }
       | _ \<Rightarrow> State_Monad.return r } }"

section \<open>Unregistering\<close>

text \<open>The three functions open the engine, delete by key, and close it.\<close>

definition with_engine :: "system \<Rightarrow> unit sys \<Rightarrow> unit sys" where
  "with_engine S body = do {
     status \<leftarrow> syscall S FwpmEngineOpen;
     if \<not> NT_SUCCESS status then State_Monad.return ()
     else do { _ \<leftarrow> body; _ \<leftarrow> syscall S FwpmEngineClose; State_Monad.return () } }"

definition UnregisterCallouts :: "system \<Rightarrow> unit sys" where
  "UnregisterCallouts S = with_engine S (syscalls S (concat (map
     (\<lambda>key. [FwpmCalloutDeleteByKey key, FwpsCalloutUnregisterByKey key])
     [MM_CALLOUT_V4, MM_CALLOUT_V6, MM_CALLOUT_UDP_V4, MM_CALLOUT_UDP_V6, MM_CALLOUT_ACCEPT_V4,
      MM_CALLOUT_ACCEPT_V6, MM_CALLOUT_LISTEN_V4, MM_CALLOUT_LISTEN_V6,
      MM_CALLOUT_RESOURCE_ASSIGNMENT_V4, MM_CALLOUT_RESOURCE_ASSIGNMENT_V6, MM_CALLOUT_DNS_CACHE_V4,
      MM_CALLOUT_DNS_CACHE_V6])))"

definition UnregisterFilters :: "system \<Rightarrow> unit sys" where
  "UnregisterFilters S = with_engine S (syscalls S (map FwpmFilterDeleteByKey
     [MM_FILTER_V4, MM_FILTER_V6, MM_FILTER_UDP_V4, MM_FILTER_UDP_V6, MM_FILTER_ACCEPT_V4,
      MM_FILTER_ACCEPT_V6, MM_FILTER_LISTEN_V4, MM_FILTER_LISTEN_V6, MM_FILTER_RESOURCE_ASSIGNMENT_V4,
      MM_FILTER_RESOURCE_ASSIGNMENT_V6, MM_FILTER_DNS_CACHE_V4, MM_FILTER_DNS_CACHE_V6]))"

definition UnregisterProvider :: "system \<Rightarrow> unit sys" where
  "UnregisterProvider S = with_engine S (do {
     status \<leftarrow> syscall S (FwpmProviderDeleteByKey MM_WFP_PROVIDER);
     syscalls S (if \<not> NT_SUCCESS status then [] else [FwpmFreeMemory]) })"

definition UnregisterWFP :: "system \<Rightarrow> unit sys" where
  "UnregisterWFP S = do {
     _ \<leftarrow> UnregisterFilters S;
     _ \<leftarrow> UnregisterCallouts S;
     UnregisterProvider S }"

section \<open>The tables fit together\<close>

text \<open>The keys are pairwise different, and each filter runs a callout at the layer it is registered for.\<close>

lemma keys_distinct:
  "distinct (MM_WFP_PROVIDER # MM_INSPECTION_SUBLAYER # map snd callouts @ map fl_filterKey filters)"
  by code_simp

lemma filters_match_callouts:
  "map (\<lambda>f. (fl_layerKey f, fl_callout_key f)) filters = callouts"
  by (simp add: filters_def callouts_def)

lemma callouts_length [simp]: "length callouts = 12"
  by (simp add: callouts_def)

section \<open>A failed callout\<close>

text \<open>What the platform documents: a callout that is registered, or added to the engine, is not
  accepted a second time while it stands. Both calls answer success with \<open>STATUS_SUCCESS\<close>.\<close>

definition removes_callout :: "call \<Rightarrow> bool" where
  "removes_callout c = (case c of FwpsCalloutUnregisterByKey _ \<Rightarrow> True | FwpmCalloutDeleteByKey _ \<Rightarrow> True
     | FwpmEngineClose \<Rightarrow> True | _ \<Rightarrow> False)"

definition callout_call :: "bool \<Rightarrow> nat \<Rightarrow> call" where
  "callout_call reg i = (case callouts ! i of (layer, key) \<Rightarrow>
     if reg then FwpsCalloutRegister key else FwpmCalloutAdd key layer)"

lemma callout_call_no_removal [simp]: "\<not> removes_callout (callout_call reg i)"
  by (auto simp: callout_call_def removes_callout_def split: prod.split)

text \<open>A call stands when it has been accepted and nothing has been removed or aborted since: closing the
  engine ends a transaction that has not been committed.\<close>

definition stands :: "call \<Rightarrow> history \<Rightarrow> bool" where
  "stands c h \<longleftrightarrow> (c, STATUS_SUCCESS) \<in> set (takeWhile (\<lambda>(d, _). \<not> removes_callout d) (rev h))"

lemma stands_append [simp]:
  "stands c (h @ [(callout_call reg i, s)]) \<longleftrightarrow> c = callout_call reg i \<and> s = STATUS_SUCCESS \<or> stands c h"
  "stands c (h @ [(callout_call reg i, s), (callout_call reg' j, t)])
    \<longleftrightarrow> c = callout_call reg' j \<and> t = STATUS_SUCCESS \<or> c = callout_call reg i \<and> s = STATUS_SUCCESS \<or> stands c h"
  by (auto simp: stands_def)

definition engine_documented :: "system \<Rightarrow> bool" where
  "engine_documented S \<longleftrightarrow> (\<forall>h i reg. i < 12 \<longrightarrow>
     (stands (callout_call reg i) h \<longrightarrow> \<not> NT_SUCCESS (sys_status S h (callout_call reg i)))
     \<and> (NT_SUCCESS (sys_status S h (callout_call reg i)) \<longrightarrow>
          sys_status S h (callout_call reg i) = STATUS_SUCCESS))"

lemma NT_SUCCESS_0 [simp]: "NT_SUCCESS 0"
  by (simp add: NT_SUCCESS_def)

text \<open>One pass of the loop, by the results of its two calls.\<close>

lemma callouts_step:
  assumes "i < 10" "unat i < 12" "s = sys_status S h (callout_call True (unat i))"
    "h1 = h @ [(callout_call True (unat i), s)]" "j = (if s \<noteq> STATUS_SUCCESS then i - 1 else i)"
  shows "12 \<le> unat j \<Longrightarrow> run_state (callouts_loop S (Suc fuel) i) h = (Some (Inl OutOfBounds), h1)"
    and "unat j < 12 \<Longrightarrow> t = sys_status S h1 (callout_call False (unat j)) \<Longrightarrow>
      run_state (callouts_loop S (Suc fuel) i) h =
      run_state (callouts_loop S fuel (if NT_SUCCESS t then j + 1 else j)) (h1 @ [(callout_call False (unat j), t)])"
proof -
  obtain layer key where row: "callouts ! unat i = (layer, key)" by force
  have c: "callout_call True (unat i) = FwpsCalloutRegister key" by (simp add: callout_call_def row)
  have first: "run_state (callouts_loop S (Suc fuel) i) h =
    run_state (case index callouts (unat j) of Inl e \<Rightarrow> State_Monad.return (Some (Inl e))
        | Inr (layer, key) \<Rightarrow> do {
          status \<leftarrow> syscall S (FwpmCalloutAdd key layer);
          let i = (if \<not> NT_SUCCESS status then j - 1 else j);
          callouts_loop S fuel (i + 1) }) h1"
    using assms(1,2) row unfolding assms(4,5) assms(3) [unfolded c]
    by (simp add: callouts_loop.simps index_def c Let_def)
  show "run_state (callouts_loop S (Suc fuel) i) h = (Some (Inl OutOfBounds), h1)" if "12 \<le> unat j"
    using that by (simp add: first)
  show "run_state (callouts_loop S (Suc fuel) i) h =
      run_state (callouts_loop S fuel (if NT_SUCCESS t then j + 1 else j)) (h1 @ [(callout_call False (unat j), t)])"
    if "unat j < 12" "t = sys_status S h1 (callout_call False (unat j))"
  proof -
    obtain layer key where row: "callouts ! unat j = (layer, key)" by force
    then have "callout_call False (unat j) = FwpmCalloutAdd key layer" by (simp add: callout_call_def)
    then show ?thesis using that row unfolding first by (simp add: Let_def)
  qed
qed

lemma callouts_pass:
  assumes "i < 10"
  shows "run_state (callouts_loop S (Suc fuel) (of_nat i)) h =
    (let c = callout_call True i; s = sys_status S h c; h = h @ [(c, s)] in
     if s \<noteq> STATUS_SUCCESS \<and> i = 0 then (Some (Inl OutOfBounds), h) else
     let j = (if s \<noteq> STATUS_SUCCESS then i - 1 else i);
         c = callout_call False j; s = sys_status S h c; h = h @ [(c, s)] in
     run_state (callouts_loop S fuel (of_nat j + (if NT_SUCCESS s then 1 else 0))) h)"
proof -
  have u: "unat (of_nat n :: u32) = n" if "n < 12" for n
    using that by (simp add: unat_of_nat take_bit_nat_eq_self)
  define w :: u32 where "w = of_nat i"
  have w: "unat w = i" "w < 10" "unat w < 12"
    using u [of i] assms by (simp_all add: w_def word_less_nat_alt)
  let ?s = "sys_status S h (callout_call True i)"
  let ?h1 = "h @ [(callout_call True i, ?s)]"
  note step = callouts_step [OF w(2,3), unfolded w(1), OF refl refl]
  show ?thesis
  proof (cases "?s = STATUS_SUCCESS")
    case True
    then have "w = (if ?s \<noteq> STATUS_SUCCESS then w - 1 else w)" by simp
    from step(2) [OF this _ refl] show ?thesis
      using True w(1,3) by (simp add: Let_def flip: w_def)
  next
    case False
    then have j: "w - 1 = (if ?s \<noteq> STATUS_SUCCESS then w - 1 else w)" by simp
    show ?thesis
    proof (cases i)
      case 0
      have "unat (- 1 :: u32) = 4294967295"
        by (simp add: unsigned_minus_1_eq_mask mask_eq_exp_minus_1)
      moreover have "w = 0" using 0 by (simp add: w_def)
      ultimately have "12 \<le> unat (w - 1)" by simp
      from step(1) [OF j this, of fuel] False 0 show ?thesis
        unfolding w_def Let_def by simp
    next
      case (Suc k)
      then have k: "w - 1 = of_nat k" "unat (w - 1) = k" "k < 12" using assms u [of k] by (simp_all add: w_def)
      then have "unat (w - 1) < 12" by simp
      moreover have "1 + of_nat k = w" using Suc by (simp add: w_def)
      ultimately show ?thesis
        using step(2) [OF j _ refl, of fuel] False Suc k(1,2) by (simp add: Let_def flip: w_def)
    qed
  qed
qed

text \<open>From a row whose callout is registered already, with all rows before it done, the loop walks back
  over the start of the table.\<close>

lemma engine_again:
  assumes "engine_documented S" "i < 12" "stands (callout_call reg i) h"
  shows "\<not> NT_SUCCESS (sys_status S h (callout_call reg i))" "sys_status S h (callout_call reg i) \<noteq> STATUS_SUCCESS"
  using assms NT_SUCCESS_0 unfolding engine_documented_def by metis+

lemma callouts_walk_back:
  assumes "engine_documented S" "i < 10" "i < fuel"
    "stands (callout_call True i) h"
    "\<forall>j < i. stands (callout_call True j) h \<and> stands (callout_call False j) h"
  shows "\<exists>h'. run_state (callouts_loop S fuel (of_nat i)) h = (Some (Inl OutOfBounds), h')
    \<and> set h \<subseteq> set h' \<and> (\<exists>(c, s) \<in> set h'. s \<noteq> STATUS_SUCCESS)"
  using assms(2-)
proof (induction i arbitrary: fuel h)
  case (0 fuel h)
  then obtain f where f: "fuel = Suc f" by (cases fuel) auto
  have "sys_status S h (callout_call True 0) \<noteq> STATUS_SUCCESS"
    using engine_again [OF assms(1), of 0 True h] 0 by simp
  then show ?case using callouts_pass [of 0 S f h] f by (auto simp: Let_def)
next
  case (Suc i fuel h)
  then obtain f where f: "fuel = Suc f" by (cases fuel) auto
  let ?s = "sys_status S h (callout_call True (Suc i))"
  let ?h = "h @ [(callout_call True (Suc i), ?s)]"
  let ?t = "sys_status S ?h (callout_call False i)"
  let ?h2 = "?h @ [(callout_call False i, ?t)]"
  have s: "?s \<noteq> STATUS_SUCCESS"
    using engine_again [OF assms(1), of "Suc i" True h] Suc.prems by simp
  have t: "\<not> NT_SUCCESS ?t"
    using engine_again(1) [OF assms(1), of i False ?h] Suc.prems by simp
  have "run_state (callouts_loop S fuel (of_nat (Suc i))) h = run_state (callouts_loop S f (of_nat i)) ?h2"
    using callouts_pass [of "Suc i" S f h] Suc.prems(1) s t f by (simp add: Let_def)
  moreover obtain h' where "run_state (callouts_loop S f (of_nat i)) ?h2 = (Some (Inl OutOfBounds), h')"
    "set ?h2 \<subseteq> set h'" "\<exists>(c, s) \<in> set h'. s \<noteq> STATUS_SUCCESS"
    using Suc.IH [of f ?h2] Suc.prems f by auto
  ultimately show ?case by auto
qed

text \<open>From row \<open>i\<close>, with the rows before it done and none from it on: either all ten are done, or the walk
  back begins.\<close>

definition callout_row :: "nat \<Rightarrow> history" where
  "callout_row i = [(callout_call True i, STATUS_SUCCESS), (callout_call False i, STATUS_SUCCESS)]"

lemma callouts_from:
  assumes "engine_documented S" "i \<le> 10" "20 \<le> fuel + i"
    "\<forall>j < i. stands (callout_call True j) h \<and> stands (callout_call False j) h"
  shows "run_state (callouts_loop S fuel (of_nat i)) h
      = (Some (Inr 10), h @ concat (map callout_row [i..<10]))
    \<or> (\<exists>h'. run_state (callouts_loop S fuel (of_nat i)) h = (Some (Inl OutOfBounds), h')
        \<and> (\<exists>(c, s) \<in> set h'. s \<noteq> STATUS_SUCCESS))"
  using assms(2-)
proof (induction "10 - i" arbitrary: i fuel h)
  case 0
  then obtain f where "fuel = Suc f" by (cases fuel) auto
  with 0 show ?case by (simp add: callouts_loop.simps)
next
  case (Suc n)
  then obtain f where f: "fuel = Suc f" by (cases fuel) auto
  have i: "i < 10" using Suc.hyps(2) by simp
  let ?s = "sys_status S h (callout_call True i)"
  let ?h = "h @ [(callout_call True i, ?s)]"
  note pass = callouts_pass [OF i, of S f h]
  show ?case
  proof (cases "?s = STATUS_SUCCESS")
    case False
    show ?thesis
    proof (cases i)
      case 0
      then show ?thesis using pass False f by (auto simp: Let_def)
    next
      case (Suc k)
      let ?t = "sys_status S ?h (callout_call False k)"
      have "\<not> NT_SUCCESS ?t"
        using engine_again(1) [OF assms(1), of k False ?h] Suc.prems Suc i by simp
      then have "run_state (callouts_loop S fuel (of_nat i)) h
          = run_state (callouts_loop S f (of_nat k)) (?h @ [(callout_call False k, ?t)])"
        using pass False f Suc by (simp add: Let_def)
      moreover have "\<exists>h'. run_state (callouts_loop S f (of_nat k)) (?h @ [(callout_call False k, ?t)])
          = (Some (Inl OutOfBounds), h') \<and> set (?h @ [(callout_call False k, ?t)]) \<subseteq> set h'
          \<and> (\<exists>(c, s) \<in> set h'. s \<noteq> STATUS_SUCCESS)"
        using Suc.prems Suc i f by (intro callouts_walk_back [OF assms(1)]) auto
      ultimately show ?thesis by auto
    qed
  next
    case True
    let ?t = "sys_status S ?h (callout_call False i)"
    let ?h2 = "?h @ [(callout_call False i, ?t)]"
    show ?thesis
    proof (cases "NT_SUCCESS ?t")
      case True': True
      have t: "?t = STATUS_SUCCESS" using assms(1) True' i unfolding engine_documented_def by simp
      have step: "run_state (callouts_loop S fuel (of_nat i)) h
          = run_state (callouts_loop S f (of_nat (Suc i))) ?h2"
        using pass True True' f by (simp add: Let_def add.commute)
      have "n = 10 - Suc i" "Suc i \<le> 10" "20 \<le> f + Suc i"
        using Suc.hyps(2) Suc.prems f i by simp_all
      moreover have "\<forall>j < Suc i. stands (callout_call True j) ?h2
          \<and> stands (callout_call False j) ?h2"
        using Suc.prems(3) True t by (auto simp: less_Suc_eq)
      ultimately have "run_state (callouts_loop S f (of_nat (Suc i))) ?h2
          = (Some (Inr 10), ?h2 @ concat (map callout_row [Suc i..<10]))
        \<or> (\<exists>h'. run_state (callouts_loop S f (of_nat (Suc i))) ?h2 = (Some (Inl OutOfBounds), h')
            \<and> (\<exists>(c, s) \<in> set h'. s \<noteq> STATUS_SUCCESS))"
        by (rule Suc.hyps(1))
      moreover have "?h2 @ concat (map callout_row [Suc i..<10]) = h @ concat (map callout_row [i..<10])"
        using True t i by (simp add: callout_row_def upt_rec [of i])
      ultimately show ?thesis unfolding step by simp
    next
      case False
      have "run_state (callouts_loop S fuel (of_nat i)) h = run_state (callouts_loop S f (of_nat i)) ?h2"
        using pass True False f by (simp add: Let_def)
      moreover have "\<exists>h'. run_state (callouts_loop S f (of_nat i)) ?h2 = (Some (Inl OutOfBounds), h')
          \<and> set ?h2 \<subseteq> set h' \<and> (\<exists>(c, s) \<in> set h'. s \<noteq> STATUS_SUCCESS)"
        using Suc.prems i f True by (intro callouts_walk_back [OF assms(1)]) auto
      ultimately show ?thesis by auto
    qed
  qed
qed

lemma registerCallouts_cases:
  assumes "engine_documented S"
  obtains (all) "run_state (registerCallouts S) h = (Some (Inr 10), h @ concat (map callout_row [0..<10]))"
  | (fault) h' where "run_state (registerCallouts S) h = (Some (Inl OutOfBounds), h')"
      "\<exists>(c, s) \<in> set h'. s \<noteq> STATUS_SUCCESS"
  using callouts_from [OF assms, of 0 64 h] unfolding registerCallouts_def by auto

end
