(* ===== verification/MM_Process_Callbacks.thy ===== *)
theory MM_Process_Callbacks
  imports MM_Kernel MM_Thread_Rules MM_Module_Rules MM_Object_Rules
begin

text \<open>
  The callbacks of \<open>src/MoonMon/MoonMon.c\<close> for processes, threads, images and process handles, and the
  enumeration of the running processes at start-up. A callback is one step on the global context; its
  result has the context, what it gives back to the kernel, and the addresses it frees. \<open>R\<close> is the
  runtime and \<open>K\<close> the kernel during the call.
\<close>

section \<open>Creation of a process\<close>

text \<open>The information about the new process: the current process is its parent. System processes have
  no environment block to read.\<close>

definition created_info :: "rtl \<Rightarrow> kernel \<Rightarrow> u64 \<Rightarrow> create_info ptr \<Rightarrow> bool \<times> PROC_INFO" where
  "created_info R K hPid pInfo =
     (let (foundProc, PI) =
            (if 5 < HandleToULong (ci_ParentProcessId (deref pInfo)) \<and> 5 < HandleToULong hPid
             then processInfoInit R (process_peb K (IoGetCurrentProcess K)) (IoGetCurrentProcess K)
                    zero_pi pInfo True
             else (False, zero_pi)) in
      (foundProc, PI\<lparr>pi_tag := PHOEBE\<rparr>))"

text \<open>The user is looked up and the process is added to the cache, if it can still be referenced.\<close>

definition add_user :: "rtl \<Rightarrow> kernel \<Rightarrow> u64 \<Rightarrow> PROC_INFO \<Rightarrow> PROC_INFO res" where
  "add_user R K targp PI =
     andthen (SidLookup R K targp targp zero_ui) (\<lambda>UI.
       Inr (if ui_tag UI = MNEME \<and> sid_data UI \<noteq> Null then PI\<lparr>pi_UI := local UI\<rparr> else PI))"

definition cache_created ::
  "rtl \<Rightarrow> kernel \<Rightarrow> GC \<Rightarrow> u64 \<Rightarrow> PROC_INFO \<Rightarrow> (PROC_INFO \<times> GC \<times> u64 list) res" where
  "cache_created R K globals hPid PI =
     (case PsLookupProcessByProcessId K hPid of (status, targp) \<Rightarrow>
        if \<not> NT_SUCCESS status then Inr (PI, globals, []) else
        andthen (add_user R K targp PI) (\<lambda>PI.
        andthen (AddNewProcess R globals hPid (local PI)) (\<lambda>(G, freed). Inr (PI, G, freed))))"

definition creation_calls ::
  "u64 \<Rightarrow> create_info ptr \<Rightarrow> bool \<Rightarrow> PROC_INFO \<Rightarrow> inspection \<Rightarrow> log_call list" where
  "creation_calls hPid pInfo foundProc PI verdict =
     (let ci = deref pInfo in
      [log_u32 MATCH_ID (in_id verdict),
       log_u16 EVENT_TYPE PROCESS_CREATION,
       log_u64 PID hPid,
       log_u32 PFLAGS (ci_Flags ci),
       log_u64 PARENT_PID (ci_ParentProcessId ci),
       Some (16, CREATING_THREAD_ID, local (ci_CreatingThreadId ci))] @
      (if foundProc then PCacheLogEntries (local PI) False
       else [log_valid_str IMAGE_FILE_NAME (ImageFileName PI),
             log_valid_str COMMAND_LINE (CommandLine PI)]) @
      [log_u32 CREATION_STATUS (ci_CreationStatus ci),
       log_u16 EVENT_END PROCESS_CREATION])"

definition process_created ::
  "rtl \<Rightarrow> kernel \<Rightarrow> GC \<Rightarrow> u64 \<Rightarrow> create_info ptr \<Rightarrow> (create_info \<times> GC \<times> u64 list) res" where
  "process_created R K globals hPid pInfo =
     (let (rid, G) = mm_id globals; ts = KeQuerySystemTimePrecise K in
      if IoGetCurrentProcess K = 0 then Inr (deref pInfo, G, []) else
      let (foundProc, PI) = created_info R K hPid pInfo in
      andthen (cache_created R K G hPid PI) (\<lambda>(PI, G, freed).
      andthen (InspectProcessCreation R G PI) (\<lambda>verdict.
        let ci = (deref pInfo)\<lparr>ci_CreationStatus := in_status verdict\<rparr> in
        if \<not> in_skip verdict \<or> KEEP_EXCLUDES G then
          andthen (log_all R (MM_Genrand K) 0 rid ts
                     (creation_calls hPid (Ptr (addr pInfo) ci) foundProc PI verdict) G)
            (\<lambda>G. Inr (ci, G, freed))
        else Inr (ci, G, freed))))"

section \<open>Termination of a process\<close>

definition termination_calls ::
  "kernel \<Rightarrow> u64 \<Rightarrow> bool \<Rightarrow> PROC_INFO ptr \<Rightarrow> inspection \<Rightarrow> log_call list" where
  "termination_calls K hPid foundProc PI verdict =
     [log_u32 MATCH_ID (in_id verdict),
      log_u16 EVENT_TYPE PROCESS_TERMINATED,
      log_u64 PID hPid,
      log_u32 CREATION_STATUS (PsGetProcessExitStatus K (IoGetCurrentProcess K))] @
     (if foundProc then PCacheLogEntries PI False else []) @
     [log_u16 EVENT_END PROCESS_TERMINATED]"

text \<open>The body up to the cleanup. The early return without a current process still runs the cleanup,
  with no slot.\<close>

definition report_termination :: "rtl \<Rightarrow> kernel \<Rightarrow> GC \<Rightarrow> u64 \<Rightarrow> (nat option \<times> GC) res" where
  "report_termination R K globals hPid =
     (let G = (if hPid = clientpid globals then globals\<lparr>clientpid := - 1\<rparr> else globals);
          (rid, G) = mm_id G; ts = PsGetProcessExitTime K in
      if \<not> VALID_PAGE (Ptr (IoGetCurrentProcess K) ()) then Inr (None, G) else
      let (slot, foundProc, q, G) = find_process G hPid (local zero_pi);
          PI = Ptr (addr q) ((deref q)\<lparr>pi_tag := PHOEBE\<rparr>) in
      andthen (InspectProcessTermination R G (deref PI)) (\<lambda>verdict.
        if \<not> in_skip verdict \<or> KEEP_EXCLUDES G then
          andthen (log_all R (MM_Genrand K) 0 rid ts (termination_calls K hPid foundProc PI verdict) G)
            (\<lambda>G. Inr (slot, G))
        else Inr (slot, G)))"

definition process_terminated :: "rtl \<Rightarrow> kernel \<Rightarrow> GC \<Rightarrow> u64 \<Rightarrow> (GC \<times> u64 list) res" where
  "process_terminated R K globals hPid =
     andthen (report_termination R K globals hPid) (\<lambda>(slot, G).
       PurgeCachedProcess (release slot G) hPid)"

text \<open>The callback: a creation when there is a \<open>PS_CREATE_NOTIFY_INFO\<close>, which carries the verdict back.\<close>

definition ProcessNotifyCallbackRoutine ::
  "rtl \<Rightarrow> kernel \<Rightarrow> GC \<Rightarrow> u64 \<Rightarrow> create_info ptr \<Rightarrow> (create_info ptr \<times> GC \<times> u64 list) res" where
  "ProcessNotifyCallbackRoutine R K globals hPid pInfo =
     (case pInfo of
        Ptr a _ \<Rightarrow> andthen (process_created R K globals hPid pInfo) (\<lambda>(ci, G, freed). Inr (Ptr a ci, G, freed))
      | Null \<Rightarrow> andthen (process_terminated R K globals hPid) (\<lambda>(G, freed). Inr (Null, G, freed)))"

section \<open>Threads\<close>

text \<open>The tag the callback writes into the information of source and target: in the cache, when it came
  from there. Writing through NULL faults.\<close>

definition tag_info :: "nat option \<Rightarrow> PROC_INFO ptr \<Rightarrow> GC \<Rightarrow> (PROC_INFO ptr \<times> GC) res" where
  "tag_info slot PI G =
     (case PI of Null \<Rightarrow> Inl NullDeref
      | Ptr a v \<Rightarrow>
        let PI' = Ptr a (v\<lparr>pi_tag := PHOEBE\<rparr>) in
        Inr (PI', (case slot of None \<Rightarrow> G
                   | Some i \<Rightarrow> if pc_PI (NEW_PROCS G ! i) = PI
                     then set_slot i ((NEW_PROCS G ! i)\<lparr>pc_PI := PI'\<rparr>) G else G)))"

definition thread_calls ::
  "kernel \<Rightarrow> u64 \<Rightarrow> u64 \<Rightarrow> bool \<Rightarrow> bool \<Rightarrow> TC_INFO \<Rightarrow> inspection \<Rightarrow> log_call list" where
  "thread_calls K hProcess hThread foundProc foundTargetProc TI verdict =
     [log_u32 MATCH_ID (in_id verdict),
      log_u16 EVENT_TYPE CREATE_REMOTE_THREAD,
      log_u64 PID hProcess,
      log_u64 PARENT_PID (PsGetCurrentProcessId K),
      log_u32 CREATING_THREAD_ID (HandleToULong (PsGetCurrentThreadId K)),
      log_u32 THREAD_ID (HandleToULong hThread)] @
     (if foundProc then PCacheLogEntries (tc_PI TI) False else []) @
     (if foundTargetProc then PCacheLogEntries (tc_TPI TI) True else []) @
     [log_u16 EVENT_END CREATE_REMOTE_THREAD]"

definition remote_thread ::
  "rtl \<Rightarrow> kernel \<Rightarrow> GC \<Rightarrow> u64 \<Rightarrow> u64 \<Rightarrow> u64 \<Rightarrow> (GC \<times> u64 list) res" where
  "remote_thread R K G rid hProcess hThread =
     (let currentProcess = PsGetCurrentProcessId K; curp = IoGetCurrentProcess K;
          ts = KeQuerySystemTimePrecise K; (status, targp) = PsLookupProcessByProcessId K hProcess in
      if \<not> NT_SUCCESS status \<or> curp = 0 then Inr (G, []) else
      let (tslot, foundTargetProc, TPI, G) = find_target R K G hProcess targp;
          (slot, foundProc, PI, G) = find_or_probe R K G currentProcess curp in
      andthen (tag_info slot PI G) (\<lambda>(PI, G).
      andthen (tag_info tslot TPI G) (\<lambda>(TPI, G).
      let TI = \<lparr>tc_PI = PI, tc_TPI = TPI, tc_tag = IAPETUS\<rparr> in
      andthen (InspectThreadCreation R G TI) (\<lambda>verdict.
      andthen (if \<not> in_skip verdict \<or> KEEP_EXCLUDES G
               then log_all R (MM_Genrand K) 0 rid ts
                      (thread_calls K hProcess hThread foundProc foundTargetProc TI verdict) G
               else Inr G) (\<lambda>G.
      andthen (discard slot foundProc PI) (\<lambda>freed.
      andthen (discard tslot foundTargetProc TPI) (\<lambda>tfreed.
        Inr (release tslot (release slot G), freed @ tfreed))))))))"

definition ThreadNotifyCallbackRoutine ::
  "rtl \<Rightarrow> kernel \<Rightarrow> GC \<Rightarrow> u64 \<Rightarrow> u64 \<Rightarrow> bool \<Rightarrow> (GC \<times> u64 list) res" where
  "ThreadNotifyCallbackRoutine R K globals hProcess hThread bCreate =
     (if \<not> bCreate then Inr (globals, [])
      else if IsNewProcess globals hProcess then Inr (RemoveNewProcessStatus globals hProcess, [])
      else
        let (rid, G) = mm_id globals; curpid = PsGetCurrentProcessId K in
        if 5 < curpid \<and> HandleToULong hProcess \<noteq> HandleToULong curpid \<and> hProcess \<noteq> curpid
        then remote_thread R K G rid hProcess hThread
        else Inr (G, []))"

section \<open>Images\<close>

record image_event =
  ie_FullImageName :: "UNICODE_STRING ptr"
  ie_ExtendedInfoPresent :: bool
  ie_FileObject :: u64
  ie_Properties :: u32

text \<open>\<open>obInfo\<close> and \<open>MI->ImageLoaded\<close>, which starts as an empty string among the locals.\<close>

definition empty_ustr :: UNICODE_STRING where
  "empty_ustr = \<lparr>Length = 0, MaximumLength = 0, Buffer = Null\<rparr>"

definition image_name ::
  "rtl \<Rightarrow> kernel \<Rightarrow> image_event \<Rightarrow> UNICODE_STRING ptr \<times> UNICODE_STRING ptr" where
  "image_name R K ev =
     (let copy = (\<lambda>s. AllocateAndCopyUnicodeString R s (local empty_ustr)) in
      if ie_ExtendedInfoPresent ev then
        (case FltGetFileNameInformationUnsafe K (ie_FileObject ev) of (status, nameInfo) \<Rightarrow>
           if NT_SUCCESS status then
             (case IoQueryFileDosDeviceName K (ie_FileObject ev) of (status, obInfo) \<Rightarrow>
                if NT_SUCCESS status then (obInfo, obInfo) else (obInfo, copy nameInfo))
           else (Null, local empty_ustr))
      else if ie_FullImageName ev \<noteq> Null then (Null, copy (ie_FullImageName ev))
      else (Null, local empty_ustr))"

definition image_calls :: "u64 \<Rightarrow> bool \<Rightarrow> MODULE_INFO \<Rightarrow> inspection \<Rightarrow> log_call list" where
  "image_calls pid foundProc MI verdict =
     (let img = ImageLoaded MI in
      [log_u32 MATCH_ID (in_id verdict),
       log_u16 EVENT_TYPE IMAGE_LOADED,
       log_u64 PID pid,
       log_when (img \<noteq> Null \<and> Buffer (deref img) \<noteq> Null) (log_str LOADED_MODULE img),
       log_u32 MODULE_PROPERTIES (ImageProperties MI)] @
      (if foundProc then PCacheLogEntries (mi_PI MI) False else []) @
      [log_u16 EVENT_END IMAGE_LOADED])"

definition ImageLoadCallbackRoutine ::
  "rtl \<Rightarrow> kernel \<Rightarrow> GC \<Rightarrow> u64 \<Rightarrow> image_event \<Rightarrow> (GC \<times> u64 list) res" where
  "ImageLoadCallbackRoutine R K globals hProcess ev =
     (let pid = (if hProcess = 0 then 4 else hProcess);
          ts = KeQuerySystemTimePrecise K; (rid, G) = mm_id globals;
          (obInfo, img) = image_name R K ev;
          (status, targp) = PsLookupProcessByProcessId K hProcess;
          (slot, foundProc, PI, G) =
            (if 5 < pid \<and> NT_SUCCESS status then find_or_probe R K G hProcess targp
             else (None, False, local zero_pi, G));
          MI = \<lparr>ImageLoaded = img, ImageProperties = ie_Properties ev, mi_PI = PI, mi_tag = MAKEMAKE\<rparr> in
      andthen (InspectImageloadEvent R G MI) (\<lambda>verdict.
      let calls = (if \<not> in_skip verdict \<or> KEEP_EXCLUDES G then image_calls pid foundProc MI verdict else []) in
      andthen (log_all R (MM_Genrand K) 0 rid ts (calls @ [log_u16 EVENT_END IMAGE_LOADED]) G) (\<lambda>G.
      let freed = (case obInfo of Ptr a _ \<Rightarrow> [a] | Null \<Rightarrow> snd (DeallocateAndDestroyUnicodeString img)) in
      andthen (discard slot foundProc PI) (\<lambda>pfreed. Inr (release slot G, freed @ pfreed)))))"

section \<open>Handles to processes\<close>

text \<open>The parameters of the two operations are a union: both begin with the two access masks. The flag
  word has \<open>KernelHandle\<close> as its lowest bit.\<close>

abbreviation (input) OB_OPERATION_HANDLE_CREATE :: u32 where "OB_OPERATION_HANDLE_CREATE \<equiv> 1"
abbreviation (input) OB_OPERATION_HANDLE_DUPLICATE :: u32 where "OB_OPERATION_HANDLE_DUPLICATE \<equiv> 2"

record ob_pre_info =
  obi_IsProcess :: bool
  obi_Object :: u64
  obi_Operation :: u32
  obi_Flags :: u32
  obi_DesiredAccess :: u32
  obi_OriginalDesiredAccess :: u32

definition KernelHandle :: "ob_pre_info \<Rightarrow> bool" where
  "KernelHandle ob = (obi_Flags ob AND 1 \<noteq> 0)"

definition mask_access :: "u32 \<Rightarrow> ob_pre_info \<Rightarrow> ob_pre_info" where
  "mask_access m ob = ob\<lparr>obi_DesiredAccess := obi_DesiredAccess ob AND m,
     obi_OriginalDesiredAccess := obi_OriginalDesiredAccess ob AND m\<rparr>"

text \<open>The protection of the client: the masks after it, the processes it has terminated, and \<open>None\<close> when
  the callback naps for good.\<close>

definition protect_client :: "kernel \<Rightarrow> GC \<Rightarrow> ob_pre_info \<Rightarrow> u64 \<Rightarrow> (ob_pre_info \<times> u64 list) option" where
  "protect_client K G ob tpid =
     (let assassin = KernelHandle ob \<and> tpid = clientpid G; curp = IoGetCurrentProcess K;
          (ob, killed) = (if assassin \<and> curp \<noteq> 0
            then ((mask_access 0 ob)\<lparr>obi_Flags := 0\<rparr>, snd (TerminateProcess K curp)) else (ob, []));
          ob' = (if RESIST_TAMPERING G \<and> 0 < tpid \<and> tpid = clientpid G then mask_access 0 ob else ob) in
      if assassin \<and> RESIST_TAMPERING G then map_option (\<lambda>_. (ob', killed)) (NapTime 0)
      else Some (ob', killed))"

text \<open>The masks the event carries: those of the operation that is asked for.\<close>

definition ob_event :: "ob_pre_info \<Rightarrow> OBPROC \<Rightarrow> OBPROC" where
  "ob_event ob OB =
     (if obi_Operation ob = OB_OPERATION_HANDLE_CREATE \<or> obi_Operation ob = OB_OPERATION_HANDLE_DUPLICATE
      then OB\<lparr>DesiredAccess := obi_DesiredAccess ob, OriginalDesiredAccess := obi_OriginalDesiredAccess ob\<rparr>
      else OB)"

text \<open>What a verdict other than 0 does to the masks.\<close>

definition apply_verdict :: "u32 \<Rightarrow> ob_pre_info \<Rightarrow> ob_pre_info" where
  "apply_verdict verdict ob =
     (if verdict = 0 then ob else if verdict = - 1 then mask_access 0 ob else mask_access verdict ob)"

definition object_calls ::
  "u64 \<Rightarrow> u64 \<Rightarrow> bool \<Rightarrow> bool \<Rightarrow> OBPROC \<Rightarrow> inspection \<Rightarrow> log_call list" where
  "object_calls pid tpid foundProc foundTargetProc OB verdict =
     [log_u32 MATCH_ID (in_id verdict),
      log_u16 EVENT_TYPE PROCESS_ACCESS,
      log_u64 PID pid,
      log_u64 TARGET_PID tpid,
      log_u32 PHOPERATION (ob_Operation OB),
      log_u32 PHDESIRED_ACCESS (DesiredAccess OB),
      log_u32 PHORIGINAL_DESIRED_ACCESS (OriginalDesiredAccess OB)] @
     (if foundProc then PCacheLogEntries (ob_PI OB) False else []) @
     (if foundTargetProc then PCacheLogEntries (ob_TPI OB) True else []) @
     [log_u16 EVENT_END PROCESS_ACCESS]"

definition zero_ob :: OBPROC where
  "zero_ob = \<lparr>ob_Operation = 0, ob_Flags = 0, DesiredAccess = 0, OriginalDesiredAccess = 0,
     ob_PI = local zero_pi, ob_TPI = local zero_pi, ob_tag = ''''\<rparr>"

text \<open>The inspection and its report, once the target has been looked at.\<close>

definition inspect_access ::
  "rtl \<Rightarrow> kernel \<Rightarrow> GC \<Rightarrow> u64 \<Rightarrow> u64 \<Rightarrow> ob_pre_info \<Rightarrow> OBPROC \<Rightarrow> nat option \<Rightarrow> bool
   \<Rightarrow> (ob_pre_info \<times> GC \<times> u64 list) res" where
  "inspect_access R K G rid tpid ob OB tslot foundTargetProc =
     (let currentProcess = PsGetCurrentProcessId K; curp = IoGetCurrentProcess K;
          pid = (if currentProcess = 0 then 4 else currentProcess);
          (slot, foundProc, PI, G) =
            (if curp \<noteq> 0 then find_or_probe R K G currentProcess curp else (None, False, ob_PI OB, G));
          OB = OB\<lparr>ob_PI := PI, ob_tag := OBERON\<rparr> in
      andthen (InspectObjectAccessEvent R G OB) (\<lambda>verdict.
      let ob = apply_verdict (in_status verdict) ob;
          OB = (if in_status verdict \<noteq> 0 then ob_event ob OB else OB) in
      andthen (if \<not> in_skip verdict \<or> KEEP_EXCLUDES G
               then log_all R (MM_Genrand K) 0 rid (KeQuerySystemTimePrecise K)
                      (object_calls pid tpid foundProc foundTargetProc OB verdict) G
               else Inr G) (\<lambda>G.
      andthen (discard slot foundProc (ob_PI OB)) (\<lambda>freed.
      andthen (discard tslot foundTargetProc (ob_TPI OB)) (\<lambda>tfreed.
        Inr (ob, release tslot (release slot G), freed @ tfreed))))))"

text \<open>The whole callback: the masks, the context, what is freed and who is terminated; \<open>None\<close> when it
  never returns.\<close>

definition ProcessObjectCallbackPre ::
  "rtl \<Rightarrow> kernel \<Rightarrow> GC \<Rightarrow> ob_pre_info \<Rightarrow> (ob_pre_info \<times> GC \<times> u64 list \<times> u64 list) res option" where
  "ProcessObjectCallbackPre R K globals obInfo =
     (if \<not> obi_IsProcess obInfo then Some (Inr (obInfo, globals, [], [])) else
      let currentProcess = PsGetCurrentProcessId K; (rid, G) = mm_id globals;
          targp = obi_Object obInfo in
      if targp = 0 then
        Some (andthen (inspect_access R K G rid 0 obInfo zero_ob None False)
          (\<lambda>(ob, G, freed). Inr (ob, G, freed, [])))
      else
        let tpid = PsGetProcessId K targp in
        case protect_client K G obInfo tpid of None \<Rightarrow> None
        | Some (ob, killed) \<Rightarrow>
          if tpid = currentProcess then Some (Inr (ob, G, [], killed)) else
          let OB = ob_event ob zero_ob;
              (tslot, foundTargetProc, TPI, G) =
                (case GetCachedProcess G tpid of
                   Some i \<Rightarrow> (Some i, True, pc_PI (NEW_PROCS G ! i), set_in_use i True G)
                 | None \<Rightarrow>
                   (case PsLookupProcessByProcessId K tpid of (status, targp) \<Rightarrow>
                      if NT_SUCCESS status
                      then (case probe R K targp of (found, TPI) \<Rightarrow> (None, found, TPI, G))
                      else (None, False, ob_TPI OB, G))) in
          Some (andthen (inspect_access R K G rid tpid ob (OB\<lparr>ob_TPI := TPI\<rparr>) tslot foundTargetProc)
            (\<lambda>(ob, G, freed). Inr (ob, G, freed, killed))))"

section \<open>The processes that run at start-up\<close>

text \<open>The snapshot: the buffer starts at \<open>0x10 * 0x1024\<close> bytes and is doubled as long as it is too small.
  The kernel answers with the handles of the processes in their order; a buffer it has not filled is
  zeroed memory, which reads as one process with handle 0. The result is \<open>None\<close> without fuel, and
  \<open>Some None\<close> when the pool has no memory left.\<close>

type_synonym query = "u64 \<Rightarrow> NTSTATUS \<times> u64 list"

fun query_loop :: "rtl \<Rightarrow> query \<Rightarrow> nat \<Rightarrow> u64 \<Rightarrow> u64 list option option" where
  "query_loop R Q 0 qmemsize = None"
| "query_loop R Q (Suc fuel) qmemsize =
     (if ExAllocatePool2 R qmemsize (unat qmemsize) = 0 then Some None else
      case Q qmemsize of (durum, pids) \<Rightarrow>
        if durum = STATUS_INFO_LENGTH_MISMATCH then query_loop R Q fuel (qmemsize * 2)
        else Some (Some (if NT_SUCCESS durum then pids else [0])))"

text \<open>The walk over the snapshot. Its \<open>break\<close> after a kill leaves the walk.\<close>

fun kill_loop :: "rtl \<Rightarrow> kernel \<Rightarrow> GC \<Rightarrow> u64 list \<Rightarrow> (GC \<times> u64 list \<times> u64 list) res" where
  "kill_loop R K G [] = Inr (G, [], [])"
| "kill_loop R K G (pid # pids) =
     (if \<not> 5 <s pid then kill_loop R K G pids else
      case PsLookupProcessByProcessId K pid of (status, targp) \<Rightarrow>
        if status \<noteq> STATUS_SUCCESS then kill_loop R K G pids else
        let a = ExAllocatePool2 R (pid + 2) 64 in
        if a = 0 then Inr (G, [], []) else
        case processInfoInit R (process_peb K targp) targp zero_pi Null False of (found, PI) \<Rightarrow>
          if \<not> found then
            andthen (kill_loop R K G pids) (\<lambda>(G, killed, freed). Inr (G, killed, a # freed))
          else
            let PI = PI\<lparr>pi_tag := PHOEBE\<rparr> in
            andthen (AddNewProcess R G pid (Ptr a PI)) (\<lambda>(G, old).
            andthen (ProcessListMatch R G PI PROCESS_BLOCK_LIST (gc_COUNT G PBL)) (\<lambda>r.
              if lr_matched r then Inr (G, snd (TerminateProcess K targp), old @ [a])
              else andthen (kill_loop R K G pids) (\<lambda>(G, killed, freed).
                Inr (G, killed, old @ a # freed)))))"

definition startupKillBlockedProcesses ::
  "rtl \<Rightarrow> kernel \<Rightarrow> query \<Rightarrow> nat \<Rightarrow> GC \<Rightarrow> (GC \<times> u64 list \<times> u64 list) res option" where
  "startupKillBlockedProcesses R K Q fuel globals =
     map_option (\<lambda>snapshot. case snapshot of None \<Rightarrow> Inr (globals, [], [])
       | Some pids \<Rightarrow> kill_loop R K globals pids) (query_loop R Q fuel (0x10 * 0x1024))"

end
