(* ===== verification/MM_Driver.thy ===== *)
theory MM_Driver
  imports MM_WFP_Setup MM_Process_Callbacks MM_Config_Load
begin

text \<open>
  The life of the driver: \<open>DriverEntry\<close> and \<open>UnloadMoonMon\<close> of \<open>src/MoonMon/Driver.c\<close>, with \<open>InitMoonMon\<close>,
  the registration of the callbacks, \<open>UnregisterMoonMon\<close> and the dispatch routines for opening and
  closing the device of \<open>src/MoonMon/MoonMon.c\<close>, and \<open>UnloadConfig\<close> of \<open>src/MoonMon/Config.c\<close>.
\<close>

section \<open>Registering the callbacks\<close>

definition FsFilterRegistrySetup :: "system \<Rightarrow> NTSTATUS sys" where
  "FsFilterRegistrySetup S = do {
     status \<leftarrow> syscall S ZwOpenKey;
     if \<not> NT_SUCCESS status then State_Monad.return status
     else do {
       status \<leftarrow> syscalls_until (\<lambda>s. \<not> NT_SUCCESS s) S
         [ZwCreateKey ''Instances'', ZwSetValueKey ''DefaultInstance'',
          ZwCreateKey ''MoonMonFsFilterInstance'', ZwSetValueKey ''Altitude'', ZwSetValueKey ''Flags''] status;
       _ \<leftarrow> syscall S ZwClose;
       State_Monad.return status } }"

text \<open>The blocks of \<open>registerCallbacks\<close>. The three notification routines stop at the first status that
  is not \<open>STATUS_SUCCESS\<close>; each of the others gives its status and the context with its handle.\<close>

definition notify_calls :: "GC \<Rightarrow> call list" where
  "notify_calls G =
     (if PROCESS_CALLBACK G then [PsSetCreateProcessNotifyRoutineEx2 False] else [])
     @ (if THREAD_CALLBACK G then [PsSetCreateThreadNotifyRoutine] else [])
     @ (if MODULE_CALLBACK G then [PsSetLoadImageNotifyRoutine] else [])"

definition register_object :: "system \<Rightarrow> GC \<Rightarrow> (NTSTATUS \<times> GC) sys" where
  "register_object S G =
     (if \<not> OBJECT_CALLBACK G then State_Monad.return (STATUS_SUCCESS, G)
      else do {
        (status, handle) \<leftarrow> syshandle S ObRegisterCallbacks;
        State_Monad.return (status, if status = STATUS_SUCCESS then G\<lparr>ObRegHandle := handle\<rparr> else G) })"

definition register_registry :: "system \<Rightarrow> GC \<Rightarrow> (NTSTATUS \<times> GC) sys" where
  "register_registry S G =
     (if \<not> REGISTRY_CALLBACK G then State_Monad.return (STATUS_SUCCESS, G)
      else do {
        (status, cookie) \<leftarrow> syshandle S CmRegisterCallbackEx;
        State_Monad.return (status, if status = STATUS_SUCCESS then G\<lparr>gc_Cookie := cookie\<rparr> else G) })"

text \<open>The block of the minifilter: the status, and whether the function goes on. When the registry keys
  cannot be set up it returns the status it came with.\<close>

definition register_files :: "system \<Rightarrow> GC \<Rightarrow> NTSTATUS \<Rightarrow> (NTSTATUS \<times> bool) sys" where
  "register_files S G status =
     (if \<not> FILE_CALLBACK G then State_Monad.return (status, True)
      else do {
        keys \<leftarrow> FsFilterRegistrySetup S;
        if \<not> NT_SUCCESS keys then State_Monad.return (status, False)
        else do {
          status \<leftarrow> syscall S FltRegisterFilter;
          if status \<noteq> STATUS_SUCCESS then State_Monad.return (status, False)
          else do {
            status \<leftarrow> syscall S FltStartFiltering;
            if status \<noteq> STATUS_SUCCESS then do {
              _ \<leftarrow> syscall S FltUnregisterFilter;
              State_Monad.return (status, False) }
            else State_Monad.return (status, True) } } })"

abbreviation (input) FWPM_SERVICE_RUNNING :: u32 where "FWPM_SERVICE_RUNNING \<equiv> 3"

text \<open>Failures of the filtering platform do not count.\<close>

definition register_network :: "system \<Rightarrow> GC \<Rightarrow> NTSTATUS \<Rightarrow> (NTSTATUS \<times> GC) res option sys" where
  "register_network S G status =
     (if \<not> WFP_CALLBACK G then State_Monad.return (Some (Inr (status, G)))
      else do {
        (subscribed, handle) \<leftarrow> syshandle S FwpmBfeStateSubscribeChanges;
        if \<not> NT_SUCCESS subscribed then State_Monad.return (Some (Inr (status, G)))
        else do {
          let G = G\<lparr>BFENotifyHandle := handle\<rparr>;
          bfe \<leftarrow> syscall S FwpmBfeStateGet;
          if bfe \<noteq> FWPM_SERVICE_RUNNING then State_Monad.return (Some (Inr (status, G)))
          else do {
            r \<leftarrow> SetupWFP S;
            State_Monad.return (map_option (\<lambda>r. andthen r (\<lambda>_. Inr (status, G))) r) } } })"

definition registerCallbacks :: "system \<Rightarrow> GC \<Rightarrow> (NTSTATUS \<times> GC) res option sys" where
  "registerCallbacks S globals =
     (if gc_tag globals \<noteq> GANYMEDE
      then State_Monad.return (Some (Inr (STORE_DATA_STRUCTURE_CORRUPTION S, globals)))
      else do {
        status \<leftarrow> syscalls_until (\<lambda>s. s \<noteq> STATUS_SUCCESS) S (notify_calls globals) STATUS_SUCCESS;
        if status \<noteq> STATUS_SUCCESS then State_Monad.return (Some (Inr (status, globals)))
        else do {
          (status, G) \<leftarrow> register_object S globals;
          if status \<noteq> STATUS_SUCCESS then State_Monad.return (Some (Inr (status, G)))
          else do {
            (status, G) \<leftarrow> register_registry S G;
            if status \<noteq> STATUS_SUCCESS then State_Monad.return (Some (Inr (status, G)))
            else do {
              (status, goes_on) \<leftarrow> register_files S G status;
              if \<not> goes_on then State_Monad.return (Some (Inr (status, G)))
              else register_network S G status } } } })"

text \<open>The callback for changes of the filtering engine. Nothing ever sets \<open>WFP_Registered\<close>.\<close>

definition BFECallback :: "system \<Rightarrow> GC \<Rightarrow> u32 \<Rightarrow> unit res option sys" where
  "BFECallback S globals newState =
     (if WFP_CALLBACK globals \<and> \<not> WFP_Registered globals \<and> newState = FWPM_SERVICE_RUNNING
      then do { r \<leftarrow> SetupWFP S; State_Monad.return (map_option (\<lambda>r. andthen r (\<lambda>_. Inr ())) r) }
      else State_Monad.return (Some (Inr ())))"

section \<open>Starting\<close>

text \<open>What \<open>InitMoonMon\<close> stores before it loads the configuration. The first id is a random number.\<close>

definition init_globals :: "kernel \<Rightarrow> GC \<Rightarrow> GC" where
  "init_globals K G = G\<lparr>REG_DATA_MAX_SIZE := 32000, clientpid := - 1, clientppid := - 1, L_SIZE := 0,
     L_SIZE_BYTES := 0, gc_COUNT := (gc_COUNT G)(PBL := 0, PINC := 0, PEXC := 0), gc_L := [],
     BFENotifyHandle := 0,
     PROCESS_CALLBACK := True, THREAD_CALLBACK := True, MODULE_CALLBACK := True, OBJECT_CALLBACK := True,
     REGISTRY_CALLBACK := True, FILE_CALLBACK := True, WFP_CALLBACK := True, KEEP_EXCLUDES := False,
     gc_id := ucast (MM_Genrand K 0), gc_tag := GANYMEDE\<rparr>"

text \<open>The steps up to the registration: the status, the context, and the processes terminated.\<close>

definition init_context ::
  "rtl \<Rightarrow> registry \<Rightarrow> kernel \<Rightarrow> query \<Rightarrow> nat \<Rightarrow> (NTSTATUS \<times> GC \<times> u64 list) res option" where
  "init_context R Z K Q fuel =
     (case initConfigLists R zeroed_gc of (status, G) \<Rightarrow>
      if \<not> NT_SUCCESS status then Some (Inr (status, G, [])) else
      case LoadConfig R Z fuel (init_globals K G) of
        None \<Rightarrow> None
      | Some (Inl e) \<Rightarrow> Some (Inl e)
      | Some (Inr (status, G)) \<Rightarrow>
        if \<not> NT_SUCCESS status then Some (Inr (STATUS_INVALID_PARAMETER, G, []))
        else if \<not> PROCESS_CALLBACK G then Some (Inr (STATUS_SUCCESS, G, []))
        else map_option (\<lambda>r. andthen r (\<lambda>(G, killed, _). Inr (STATUS_SUCCESS, G, killed)))
               (startupKillBlockedProcesses R K Q fuel G))"

definition InitMoonMon ::
  "rtl \<Rightarrow> registry \<Rightarrow> kernel \<Rightarrow> query \<Rightarrow> nat \<Rightarrow> system \<Rightarrow> (NTSTATUS \<times> GC ptr) res option sys" where
  "InitMoonMon R Z K Q fuel S =
     (let a = ExAllocatePool2 R 0 (sizeof_GC S) in
      if a = 0 then State_Monad.return (Some (Inr (STATUS_NO_MEMORY, Null))) else
      case init_context R Z K Q fuel of
        None \<Rightarrow> State_Monad.return None
      | Some (Inl e) \<Rightarrow> State_Monad.return (Some (Inl e))
      | Some (Inr (status, G, _)) \<Rightarrow>
        if \<not> NT_SUCCESS status then State_Monad.return (Some (Inr (status, Ptr a G)))
        else do {
          r \<leftarrow> registerCallbacks S G;
          State_Monad.return (map_option (\<lambda>r. andthen r (\<lambda>(status, G).
            Inr (status, Ptr a (if NT_SUCCESS status then G\<lparr>gc_State := INITIALIZED\<rparr> else G)))) r) })"

definition DriverEntry ::
  "rtl \<Rightarrow> registry \<Rightarrow> kernel \<Rightarrow> query \<Rightarrow> nat \<Rightarrow> system \<Rightarrow> (NTSTATUS \<times> GC ptr) res option sys" where
  "DriverEntry R Z K Q fuel S = do {
     status \<leftarrow> syscall S IoCreateDevice;
     if \<not> NT_SUCCESS status then State_Monad.return (Some (Inr (status, Null)))
     else do {
       status \<leftarrow> syscall S IoCreateSymbolicLink;
       if \<not> NT_SUCCESS status then do {
         _ \<leftarrow> syscall S IoDeleteDevice;
         State_Monad.return (Some (Inr (status, Null))) }
       else do {
         r \<leftarrow> InitMoonMon R Z K Q fuel S;
         State_Monad.return (map_option (\<lambda>r. andthen r (\<lambda>(s, q). Inr (status OR s, q))) r) } } }"

section \<open>Stopping\<close>

definition unload_order :: "u16 list" where
  "unload_order = [PROCESS_BLOCK_LIST, PROCESS_INCLUDE_LIST, PROCESS_EXCLUDE_LIST,
     PROCESS_TERMINATED_INCLUDE_LIST, PROCESS_TERMINATED_EXCLUDE_LIST,
     THREAD_BLOCK_LIST, THREAD_INCLUDE_LIST, THREAD_EXCLUDE_LIST,
     MODULE_BLOCK_LIST, MODULE_INCLUDE_LIST, MODULE_EXCLUDE_LIST,
     OBJECT_BLOCK_LIST, OBJECT_INCLUDE_LIST, OBJECT_EXCLUDE_LIST,
     REGISTRY_BLOCK_LIST, REGISTRY_INCLUDE_LIST, REGISTRY_EXCLUDE_LIST,
     FILE_CREATE_BLOCK_LIST, FILE_CREATE_INCLUDE_LIST, FILE_CREATE_EXCLUDE_LIST,
     FILE_SET_INFO_BLOCK_LIST, FILE_SET_INFO_INCLUDE_LIST, FILE_SET_INFO_EXCLUDE_LIST,
     WFP_BLOCK_LIST, WFP_INCLUDE_LIST, WFP_EXCLUDE_LIST]"

fun purge_lists :: "GC \<Rightarrow> u16 list \<Rightarrow> (GC \<times> u64 list) res" where
  "purge_lists G [] = Inr (G, [])"
| "purge_lists G (t # ts) =
     andthen (purgeConfigList G t) (\<lambda>(_, G, freed).
     andthen (purge_lists G ts) (\<lambda>(G, rest). Inr (G, freed @ rest)))"

text \<open>The result is what is freed: last of all the context itself.\<close>

definition UnloadConfig :: "u64 \<Rightarrow> GC \<Rightarrow> u64 list res" where
  "UnloadConfig a G = andthen (purge_lists G unload_order) (\<lambda>(_, freed). Inr (freed @ [a]))"

definition unnotify_calls :: "GC \<Rightarrow> call list" where
  "unnotify_calls G =
     (if PROCESS_CALLBACK G then [PsSetCreateProcessNotifyRoutineEx2 True] else [])
     @ (if THREAD_CALLBACK G then [PsRemoveCreateThreadNotifyRoutine] else [])
     @ (if MODULE_CALLBACK G then [PsRemoveLoadImageNotifyRoutine] else [])"

text \<open>The removals after the three notification routines, but for the last status, which counts.\<close>

definition unregister_network :: "system \<Rightarrow> GC \<Rightarrow> unit sys" where
  "unregister_network S G =
     (if \<not> WFP_CALLBACK G then State_Monad.return ()
      else do {
        _ \<leftarrow> UnregisterWFP S;
        syscalls S (if BFENotifyHandle G \<noteq> 0 then [FwpmBfeStateUnsubscribeChanges] else []) })"

text \<open>The result: the status, the context unless it has been freed, and what is freed.\<close>

definition UnregisterMoonMon ::
  "kernel \<Rightarrow> system \<Rightarrow> GC ptr \<Rightarrow> (NTSTATUS \<times> GC ptr \<times> u64 list) res sys" where
  "UnregisterMoonMon K S globals =
     (if \<not> MM_TYPE_CHECK gc_tag globals GANYMEDE
      then State_Monad.return (Inr (STORE_DATA_STRUCTURE_CORRUPTION S, globals, []))
      else case find_process (deref globals) (PsGetCurrentProcessId K) Null of (_, _, _, G) \<Rightarrow> do {
        status \<leftarrow> syscalls_until (\<lambda>s. s \<noteq> STATUS_SUCCESS) S (unnotify_calls G) STATUS_SUCCESS;
        if status \<noteq> STATUS_SUCCESS then State_Monad.return (Inr (status, Ptr (addr globals) G, []))
        else do {
          _ \<leftarrow> syscalls S (if OBJECT_CALLBACK G \<and> ObRegHandle G \<noteq> 0 then [ObUnRegisterCallbacks] else []);
          status \<leftarrow> syscalls_until (\<lambda>s. s \<noteq> STATUS_SUCCESS) S
            (if REGISTRY_CALLBACK G \<and> gc_Cookie G \<noteq> 0 then [CmUnRegisterCallback] else []) STATUS_SUCCESS;
          if status \<noteq> STATUS_SUCCESS then State_Monad.return (Inr (status, Ptr (addr globals) G, []))
          else do {
            _ \<leftarrow> syscalls S (if FILE_CALLBACK G then [FltUnregisterFilter] else []);
            _ \<leftarrow> unregister_network S G;
            State_Monad.return (andthen (UnloadConfig (addr globals) G)
              (\<lambda>freed. Inr (STATUS_SUCCESS, Null, freed))) } } })"

text \<open>\<open>device\<close>: whether the driver object has a device.\<close>

definition UnloadMoonMon :: "kernel \<Rightarrow> system \<Rightarrow> bool \<Rightarrow> GC ptr \<Rightarrow> (GC ptr \<times> u64 list) res sys" where
  "UnloadMoonMon K S device globals = do {
     r \<leftarrow> UnregisterMoonMon K S globals;
     case r of Inl e \<Rightarrow> State_Monad.return (Inl e)
     | Inr (_, q, freed) \<Rightarrow> do {
         _ \<leftarrow> syscalls S (IoDeleteSymbolicLink # (if device then [IoDeleteDevice] else []));
         State_Monad.return (Inr (q, freed)) } }"

section \<open>Clients\<close>

text \<open>The status the request is completed with, what the routine returns, and the context. The client's
  slot of the process cache stays marked.\<close>

definition MoonMonDispatchCreate :: "kernel \<Rightarrow> GC ptr \<Rightarrow> (NTSTATUS \<times> NTSTATUS \<times> GC ptr) res" where
  "MoonMonDispatchCreate K globals =
     andthen (load globals) (\<lambda>G.
       if 0 <s clientpid G then Inr (STATUS_RESOURCE_IN_USE, STATUS_SUCCESS, globals)
       else
         let curp = PsGetCurrentProcessId K in
         case find_process (G\<lparr>clientpid := curp\<rparr>) curp Null of (_, _, _, G) \<Rightarrow>
           Inr (STATUS_SUCCESS, STATUS_SUCCESS, Ptr (addr globals) G))"

definition MoonMonDispatchClose :: "kernel \<Rightarrow> GC ptr \<Rightarrow> (NTSTATUS \<times> NTSTATUS \<times> GC ptr) res" where
  "MoonMonDispatchClose K globals =
     andthen (load globals) (\<lambda>G.
       case find_process (G\<lparr>clientpid := - 1\<rparr>) (PsGetCurrentProcessId K) Null of (_, _, _, G) \<Rightarrow>
         Inr (STATUS_SUCCESS, STATUS_SUCCESS, Ptr (addr globals) G))"

end
