(* ===== verification/MM_Event_Records.thy ===== *)
theory MM_Event_Records
  imports MM_Kernel
begin

text \<open>
  What the log shows of an event: the records of the process it is about, as a function of the
  process information, and the well-formedness of what the kernel hands to the callbacks, under which
  \<open>PCacheLogEntries\<close> logs exactly these records.
\<close>

section \<open>Well-formed strings and processes\<close>

definition wf_str :: "UNICODE_STRING ptr \<Rightarrow> bool" where
  "wf_str s = (case s of Null \<Rightarrow> True | Ptr _ u \<Rightarrow> wf_ustr u)"

definition wf_user :: "USER_INFO \<Rightarrow> bool" where
  "wf_user u \<longleftrightarrow> sid_data u \<noteq> Null \<and> unat (sid_data_length u) \<le> length (deref (sid_data u))
     \<and> wf_str (ui_name u) \<and> wf_str (ui_domain u)"

definition wf_proc :: "PROC_INFO \<Rightarrow> bool" where
  "wf_proc PI \<longleftrightarrow> wf_str (ImageFileName PI) \<and> wf_str (CommandLine PI) \<and> wf_str (ParentImageFileName PI)
     \<and> wf_str (ParentCommandLine PI) \<and> wf_str (WindowTitle PI) \<and> wf_str (CWD PI)
     \<and> (MM_TYPE_CHECK ui_tag (pi_UI PI) MNEME \<longrightarrow> wf_user (deref (pi_UI PI)))"

definition wf_peb :: "peb_view \<Rightarrow> bool" where
  "wf_peb v = (case v of Peb pp \<Rightarrow> wf_str (pp_ImageFileName pp) \<and> wf_str (pp_CommandLine pp)
     \<and> wf_str (pp_WindowTitle pp) \<and> wf_str (pp_CWD pp) | _ \<Rightarrow> True)"

text \<open>A SID has at most 15 subauthorities.\<close>

definition wf_token :: "token_sid \<Rightarrow> bool" where
  "wf_token v = (case v of Sid _ count auth sub \<Rightarrow> count \<le> 15 \<and> length auth = 6 \<and> length sub = 4 * unat count
     | _ \<Rightarrow> True)"

definition wf_kernel :: "kernel \<Rightarrow> bool" where
  "wf_kernel K \<longleftrightarrow> (\<forall>p. wf_peb (process_peb K p) \<and> wf_token (process_sid K p))"

lemma wf_str_Null [simp]: "wf_str Null"
  by (simp add: wf_str_def)

lemma wf_copy [mm_intros]:
  "wf_str s \<Longrightarrow> wf_str d \<Longrightarrow> wf_str (AllocateAndCopyUnicodeString R s d)"
  by (auto simp: wf_str_def AllocateAndCopyUnicodeString_def Let_def wf_ustr_def ustr_bytes_def
      split: ptr.splits)

lemma wf_proc_zero [simp]: "wf_proc zero_pi"
  by (simp add: wf_proc_def zero_pi_def)

text \<open>The tag and the user aside, \<open>processInfoInit\<close> gives well-formed information with no user.\<close>

lemma processInfoInit_wf:
  assumes "wf_peb peb" "pInfo \<noteq> Null \<Longrightarrow> wf_str (ci_ImageFileName (deref pInfo)) \<and> wf_str (ci_CommandLine (deref pInfo))"
  shows "wf_proc (snd (processInfoInit R peb p zero_pi pInfo parent))
    \<and> pi_UI (snd (processInfoInit R peb p zero_pi pInfo parent)) = Null"
proof (cases "p = 0")
  case True
  then show ?thesis by (simp add: processInfoInit_def zero_pi_def wf_proc_def)
next
  case False
  have "VALID_PAGE pInfo \<Longrightarrow> pInfo \<noteq> Null" by auto
  with False show ?thesis
    using assms
    by (cases peb)
       (auto simp: processInfoInit_def wf_proc_def zero_pi_def wf_peb_def Let_def intro!: mm_intros)
qed

text \<open>The user information of a well-formed token is the SID in its binary form: revision, count,
  authority and subauthorities.\<close>

lemma SidLookup_wf:
  assumes "wf_token (process_sid K p)"
  obtains UI where "SidLookup R K k p zero_ui = Inr UI" "ui_tag UI = MNEME \<longrightarrow> sid_data UI \<noteq> Null \<longrightarrow> wf_user UI"
proof (cases "process_sid K p")
  case (Sid r count auth sub)
  have "unat count \<le> 15" using assms Sid by (simp add: wf_token_def word_le_nat_alt)
  then have len: "unat (8 + 4 * count) = 8 + 4 * unat count" by (simp add: unat_word_ariths)
  show thesis
    by (rule that [of "case SidLookup R K k p zero_ui of Inr UI \<Rightarrow> UI | Inl _ \<Rightarrow> zero_ui"])
       (use assms Sid len in \<open>auto simp: SidLookup_def Let_def wf_token_def wf_user_def zero_ui_def\<close>)
qed (use that in \<open>auto simp: SidLookup_def zero_ui_def\<close>)

section \<open>The records of a process\<close>

definition str_record :: "u16 \<Rightarrow> UNICODE_STRING ptr \<Rightarrow> (u16 \<times> u8 list) list" where
  "str_record type s =
     (if VALID_PAGE s \<and> VALID_PAGE (Buffer (deref s)) \<and> Length (deref s) \<noteq> 0
      then [(type, ustr_bytes (deref s))] else [])"

definition user_records :: "PROC_INFO \<Rightarrow> (u16 \<times> u8 list) list" where
  "user_records PI =
     (if MM_TYPE_CHECK ui_tag (pi_UI PI) MNEME then
        let U = deref (pi_UI PI) in
        (if VALID_PAGE (sid_data U) \<and> 0 < sid_data_length U
         then [(SID_DATA, take (unat (sid_data_length U)) (deref (sid_data U)))] else []) @
        str_record ACCOUNT_DOMAIN (ui_domain U) @ str_record ACCOUNT_NAME (ui_name U)
      else [])"

definition source_records :: "PROC_INFO \<Rightarrow> (u16 \<times> u8 list) list" where
  "source_records PI =
     str_record IMAGE_FILE_NAME (ImageFileName PI) @ str_record COMMAND_LINE (CommandLine PI)
     @ str_record PARENT_IMAGE_FILE_NAME (ParentImageFileName PI)
     @ str_record PARENT_COMMAND_LINE (ParentCommandLine PI)
     @ str_record PWINDOW_TITLE (WindowTitle PI) @ str_record PCWD (CWD PI) @ user_records PI"

definition target_records :: "PROC_INFO \<Rightarrow> (u16 \<times> u8 list) list" where
  "target_records PI =
     str_record TARGET_IMAGE_FILE_NAME (ImageFileName PI) @ str_record TARGET_COMMAND_LINE (CommandLine PI)
     @ str_record TARGET_PARENT_IMAGE_FILE_NAME (ParentImageFileName PI)
     @ str_record TARGET_PARENT_COMMAND_LINE (ParentCommandLine PI)
     @ str_record TARGET_PWINDOW_TITLE (WindowTitle PI) @ str_record TARGET_PCWD (CWD PI) @ user_records PI"

text \<open>They show what the cache keeps.\<close>

lemma records_view [simp]:
  "source_records (pi_view PI) = source_records PI" "target_records (pi_view PI) = target_records PI"
  by (cases "pi_UI PI"; simp add: source_records_def target_records_def user_records_def pi_view_def)+

lemma logged_Cons: "logged (c # cs) = logged [c] @ logged cs"
  by (metis append_Cons append_Nil logged_append)

lemma logged_valid_str: "logged [log_valid_str type s] = str_record type s"
proof (cases "VALID_PAGE s \<and> VALID_PAGE (Buffer (deref s))")
  case True
  have z: "ucast (w :: u16) = (0 :: u32) \<longleftrightarrow> w = 0" for w
    by (simp add: word_unat_eq_iff unat_ucast_16_32)
  show ?thesis
    using True
    by (auto simp: log_valid_str_def log_when_def log_str_def str_record_def z unat_ucast_16_32 ustr_bytes_def
        elim!: VALID_PAGE_E)
qed (auto simp: log_valid_str_def log_when_def str_record_def)

lemma logged_PCache:
  "logged (PCacheLogEntries (Ptr a PI) target) =
     (if pi_tag PI = PHOEBE then if target then target_records PI else source_records PI else [])"
proof -
  have u: "ucast (w :: u8) = (0 :: u32) \<longleftrightarrow> w = 0" "unat (ucast w :: u32) = unat w" for w
    using unat_bounds(1) [of w] by (simp_all add: word_unat_eq_iff unsigned_ucast_eq take_bit_nat_eq_self)
  have user: "logged [log_when (VALID_PAGE s \<and> 0 < n) (Some (ucast n, SID_DATA, s))]
      = (if VALID_PAGE s \<and> 0 < n then [(SID_DATA, take (unat n) (deref s))] else [])" for s and n :: u8
    using u [of n] by (simp add: log_when_def word_gt_0)
  show ?thesis
    by (simp add: PCacheLogEntries_def Let_def source_records_def target_records_def user_records_def
        logged_valid_str user logged_Cons [of _ "_ # _"])
qed

section \<open>They are logged within their buffers\<close>

definition small_call :: "log_call \<Rightarrow> bool" where
  "small_call c = (case c of None \<Rightarrow> True | Some (sz, _) \<Rightarrow> sz < 65536)"

lemma small_call_simps [simp]:
  "small_call None" "small_call (log_u8 ty a)" "small_call (log_u16 ty b)" "small_call (log_u32 ty c)"
  "small_call (log_u64 ty d)" "small_call (log_str ty s)" "small_call (log_valid_str ty s)"
  using unat_bounds(2) [of "Length (deref s)"]
  by (simp_all add: small_call_def log_u8_def log_u16_def log_u32_def log_u64_def log_str_def
      log_valid_str_def log_when_def word_less_nat_alt unat_ucast_16_32)

lemma small_call_when [simp]: "small_call c \<Longrightarrow> small_call (log_when b c)"
  by (simp add: log_when_def)

lemma call_ok_valid_str [mm_intros]: "wf_str s \<Longrightarrow> call_ok (log_valid_str ty s)"
  by (auto simp: log_valid_str_def wf_str_def intro!: mm_intros elim!: VALID_PAGE_E)

lemma small_calls_bytes:
  "list_all call_ok cs \<Longrightarrow> list_all small_call cs \<Longrightarrow> calls_bytes cs \<le> 65565 * length cs"
proof (induction cs rule: logged.induct)
  case (3 sz type Data cs)
  then have "unat sz < 65536" by (simp add: small_call_def word_less_nat_alt)
  then have "min (length (deref Data)) (unat sz) \<le> 65536" by linarith
  with 3 show ?case by (simp add: calls_bytes_def)
qed (simp_all add: calls_bytes_def)

lemma PCache_ok:
  assumes "wf_proc PI"
  shows "list_all call_ok (PCacheLogEntries (Ptr a PI) target)
    \<and> list_all small_call (PCacheLogEntries (Ptr a PI) target)
    \<and> length (PCacheLogEntries (Ptr a PI) target) \<le> 9"
proof -
  have u: "unat (ucast (w :: u8) :: u32) = unat w" for w
    using unat_bounds(1) [of w] by (simp add: unsigned_ucast_eq take_bit_nat_eq_self)
  have "unat (n :: u8) < 65536" "unat n \<le> 1000000000" for n using unat_bounds(1) [of n] by simp_all
  then have sid: "small_call (Some (ucast (n :: u8), SID_DATA, s))"
    "unat n \<le> length (deref s) \<Longrightarrow> call_ok (Some (ucast n, SID_DATA, s))" for n s
    by (simp_all add: small_call_def call_ok_def word_less_nat_alt word_le_nat_alt u)
  show ?thesis
    using assms by (auto simp: PCacheLogEntries_def wf_proc_def wf_user_def Let_def sid intro!: mm_intros)
qed

end
