(* ===== verification/MM_Registry_Callback.thy ===== *)
theory MM_Registry_Callback
  imports MM_Kernel MM_Registry_Rules
begin

text \<open>
  \<open>RegistryCallbackRoutine\<close> of \<open>src/MoonMon/MoonMon.c\<close>. The structure behind its second argument depends
  on the class of the operation; \<open>reg_args\<close> has the members of all of them that the callback reads.
\<close>

section \<open>Classes of operations\<close>

text \<open>\<open>REG_NOTIFY_CLASS\<close>, with the values of the Windows headers.\<close>

abbreviation (input) RegNtPreDeleteKey :: u32 where "RegNtPreDeleteKey \<equiv> 0"
abbreviation (input) RegNtPreSetValueKey :: u32 where "RegNtPreSetValueKey \<equiv> 1"
abbreviation (input) RegNtPreDeleteValueKey :: u32 where "RegNtPreDeleteValueKey \<equiv> 2"
abbreviation (input) RegNtPreRenameKey :: u32 where "RegNtPreRenameKey \<equiv> 4"
abbreviation (input) RegNtPreCreateKey :: u32 where "RegNtPreCreateKey \<equiv> 10"
abbreviation (input) RegNtPostCreateKey :: u32 where "RegNtPostCreateKey \<equiv> 11"
abbreviation (input) RegNtPostOpenKey :: u32 where "RegNtPostOpenKey \<equiv> 13"
abbreviation (input) RegNtPostDeleteKey :: u32 where "RegNtPostDeleteKey \<equiv> 15"
abbreviation (input) RegNtPostSetValueKey :: u32 where "RegNtPostSetValueKey \<equiv> 16"
abbreviation (input) RegNtPostDeleteValueKey :: u32 where "RegNtPostDeleteValueKey \<equiv> 17"
abbreviation (input) RegNtPostRenameKey :: u32 where "RegNtPostRenameKey \<equiv> 19"
abbreviation (input) RegNtPreCreateKeyEx :: u32 where "RegNtPreCreateKeyEx \<equiv> 26"
abbreviation (input) RegNtPreFlushKey :: u32 where "RegNtPreFlushKey \<equiv> 30"
abbreviation (input) RegNtPostFlushKey :: u32 where "RegNtPostFlushKey \<equiv> 31"
abbreviation (input) RegNtPostQueryKeySecurity :: u32 where "RegNtPostQueryKeySecurity \<equiv> 37"
abbreviation (input) RegNtPostSetKeySecurity :: u32 where "RegNtPostSetKeySecurity \<equiv> 39"
abbreviation (input) RegNtPreRestoreKey :: u32 where "RegNtPreRestoreKey \<equiv> 41"
abbreviation (input) RegNtPostRestoreKey :: u32 where "RegNtPostRestoreKey \<equiv> 42"
abbreviation (input) RegNtPreReplaceKey :: u32 where "RegNtPreReplaceKey \<equiv> 45"
abbreviation (input) RegNtPostReplaceKey :: u32 where "RegNtPostReplaceKey \<equiv> 46"

text \<open>The classes the callback looks at.\<close>

definition reg_classes :: "u32 list" where
  "reg_classes = [RegNtPreCreateKeyEx, RegNtPreCreateKey, RegNtPreDeleteKey, RegNtPreSetValueKey,
     RegNtPreDeleteValueKey, RegNtPreRenameKey, RegNtPreReplaceKey, RegNtPreRestoreKey, RegNtPreFlushKey,
     RegNtPostSetValueKey, RegNtPostCreateKey, RegNtPostDeleteKey, RegNtPostDeleteValueKey,
     RegNtPostFlushKey, RegNtPostQueryKeySecurity, RegNtPostRenameKey, RegNtPostReplaceKey,
     RegNtPostRestoreKey, RegNtPostSetKeySecurity]"

text \<open>Those whose key is asked of the configuration manager. \<open>RegNtPostOpenKey\<close> never gets here.\<close>

definition reg_post_classes :: "u32 list" where
  "reg_post_classes = [RegNtPostSetValueKey, RegNtPostCreateKey, RegNtPostDeleteKey, RegNtPostFlushKey,
     RegNtPostOpenKey, RegNtPostQueryKeySecurity, RegNtPostSetKeySecurity]"

record reg_args =
  ra_Object :: u64
  ra_CompleteName :: "UNICODE_STRING ptr"
  ra_ValueName :: "UNICODE_STRING ptr"
  ra_Data :: "u8 list ptr"
  ra_DataSize :: u32
  ra_Type :: u32
  ra_NewName :: "UNICODE_STRING ptr"
  ra_NewFileName :: "UNICODE_STRING ptr"
  ra_OldFileName :: "UNICODE_STRING ptr"
  ra_FileHandle :: u64

section \<open>The name of a key\<close>

text \<open>The statements that query the name of an object, which are the same in seven branches: a buffer of
  2048 bytes, once more with the size the kernel asked for, and the buffer dropped when the name is
  empty. The result is what has been freed and, unless memory ran out, \<open>regObInfo\<close> and whether it
  holds a name. A buffer that is refused but not NULL is freed by the cleanup.\<close>

definition usable :: "u64 \<Rightarrow> bool" where
  "usable a = VALID_PAGE (Ptr a ())"

definition free_all :: "u64 list \<Rightarrow> u64 list" where
  "free_all xs = filter (\<lambda>a. a \<noteq> 0) xs"

definition name_found :: "u64 \<Rightarrow> NTSTATUS \<times> UNICODE_STRING \<times> u32 \<Rightarrow> u64 list \<times> UNICODE_STRING ptr \<times> bool" where
  "name_found a r = (case r of (obstatus, name, resultLength) \<Rightarrow>
     if NT_SUCCESS obstatus then
       if resultLength < 1 then ([a], Null, False) else ([], Ptr a name, True)
     else ([], Ptr a name, False))"

definition query_name ::
  "rtl \<Rightarrow> kernel \<Rightarrow> u64 \<Rightarrow> u64 \<Rightarrow> u64 list \<times> (UNICODE_STRING ptr \<times> bool) option" where
  "query_name R K obj a =
     (case ObQueryNameString K obj 2048 of (obstatus, name, resultLength) \<Rightarrow>
        if obstatus = STATUS_INFO_LENGTH_MISMATCH then
          let b = ExAllocatePool2 R (obj + 1) (unat resultLength) in
          if \<not> usable b then (a # free_all [b], None)
          else case name_found b (ObQueryNameString K obj resultLength) of (freed, q) \<Rightarrow> (a # freed, Some q)
        else case name_found a (obstatus, name, resultLength) of (freed, q) \<Rightarrow> (freed, Some q))"

definition name_buffer :: "rtl \<Rightarrow> u64 \<Rightarrow> u64" where
  "name_buffer R obj = ExAllocatePool2 R obj 2048"

section \<open>Gathering the event\<close>

record reg_gathered =
  rg_RI :: REG_INFO
  rg_value :: bool
  rg_keyid :: bool
  rg_freed :: "u64 list"

text \<open>What a pre-operation branch does with the name it has found, in terms of its arguments.\<close>

definition pre_fields :: "u32 \<Rightarrow> reg_args \<Rightarrow> UNICODE_STRING ptr \<Rightarrow> REG_INFO \<Rightarrow> REG_INFO \<times> bool" where
  "pre_fields cls arg name RI =
     (let RI = RI\<lparr>RegistryKey := name\<rparr> in
      switch cls
        [(RegNtPreSetValueKey,
            if ra_Data arg \<noteq> Null \<and> 0 < ra_DataSize arg
               \<and> ra_ValueName arg \<noteq> Null \<and> 0 < Length (deref (ra_ValueName arg))
            then (RI\<lparr>ri_Data := ra_Data arg, ri_DataSize := ra_DataSize arg, ri_DataType := ra_Type arg,
                     RegistryValueName := ra_ValueName arg\<rparr>, True)
            else (RI, False)),
         (RegNtPreDeleteValueKey,
            let RI = RI\<lparr>ri_Data := Null, ri_DataSize := 0\<rparr> in
            if ra_ValueName arg \<noteq> Null then (RI\<lparr>RegistryValueName := ra_ValueName arg\<rparr>, True)
            else (RI, False)),
         (RegNtPreRenameKey,
            (if ra_NewName arg \<noteq> Null then RI\<lparr>RegistryKeyNew := ra_NewName arg\<rparr> else RI, False)),
         (RegNtPreReplaceKey,
            (if ra_NewFileName arg \<noteq> Null
             then RI\<lparr>NewFileName := ra_NewFileName arg, OldFilename := ra_OldFileName arg\<rparr>
             else RI, False))]
        (RI, False))"

definition reg_pre_classes :: "u32 list" where
  "reg_pre_classes = [RegNtPreDeleteKey, RegNtPreSetValueKey, RegNtPreDeleteValueKey, RegNtPreRenameKey,
     RegNtPreReplaceKey, RegNtPreFlushKey]"

definition gather_post :: "kernel \<Rightarrow> GC \<Rightarrow> u32 \<Rightarrow> reg_args \<Rightarrow> REG_INFO \<Rightarrow> reg_gathered" where
  "gather_post K G cls arg RI =
     (case CmCallbackGetKeyObjectIDEx K (ra_Object arg) of (status, key) \<Rightarrow>
        let RI = RI\<lparr>RegistryKey := key\<rparr> in
        if NT_SUCCESS status \<and> cls = RegNtPostSetValueKey
        then \<lparr>rg_RI = RI\<lparr>RegistryValueName := ra_ValueName arg, ri_Data := ra_Data arg,
                ri_DataSize := (if ra_DataSize arg < REG_DATA_MAX_SIZE G then ra_DataSize arg
                                else REG_DATA_MAX_SIZE G),
                ri_DataType := ra_Type arg\<rparr>, rg_value = True, rg_keyid = True, rg_freed = []\<rparr>
        else \<lparr>rg_RI = RI, rg_value = False, rg_keyid = NT_SUCCESS status, rg_freed = []\<rparr>)"

text \<open>Restoring a key from a file also asks for the name of the file, which is counted in 16 bits.\<close>

definition restore_fields ::
  "kernel \<Rightarrow> reg_args \<Rightarrow> u64 \<Rightarrow> UNICODE_STRING ptr \<Rightarrow> REG_INFO \<Rightarrow> REG_INFO" where
  "restore_fields K arg f name RI =
     (case FileNameOfHandle K (ra_FileHandle arg) of (status, bs, n) \<Rightarrow>
        if NT_SUCCESS status then
          let RI = RI\<lparr>RegistryKey := name\<rparr> in
          if ra_FileHandle arg \<noteq> 0
          then RI\<lparr>NewFileName := local \<lparr>Length = ucast n, MaximumLength = ucast n, Buffer = Ptr (f + 4) bs\<rparr>\<rparr>
          else RI
        else RI)"

text \<open>\<open>Inl\<close>: the early return for want of memory, with what the cleanup frees.\<close>

definition gather_restore :: "rtl \<Rightarrow> kernel \<Rightarrow> reg_args \<Rightarrow> REG_INFO \<Rightarrow> u64 list + reg_gathered" where
  "gather_restore R K arg RI =
     (let obj = ra_Object arg; a = name_buffer R obj in
      if \<not> usable a then Inl (free_all [a]) else
      let f = ExAllocatePool2 R (obj + 2) 65534 in
      if \<not> usable f then Inl (a # free_all [f]) else
      case query_name R K obj a of
        (freed, None) \<Rightarrow> Inl (freed @ [f])
      | (freed, Some (q, named)) \<Rightarrow>
          Inr \<lparr>rg_RI = (if named then restore_fields K arg f q RI else RI), rg_value = False,
            rg_keyid = False, rg_freed = freed @ (if q = Null then [] else [addr q]) @ [f]\<rparr>)"

definition gather_pre :: "rtl \<Rightarrow> kernel \<Rightarrow> u32 \<Rightarrow> reg_args \<Rightarrow> REG_INFO \<Rightarrow> u64 list + reg_gathered" where
  "gather_pre R K cls arg RI =
     (let obj = ra_Object arg; a = name_buffer R obj in
      if \<not> usable a then Inl (free_all [a]) else
      case query_name R K obj a of
        (freed, None) \<Rightarrow> Inl freed
      | (freed, Some (q, named)) \<Rightarrow>
          (case (if named then pre_fields cls arg q RI else (RI, False)) of (RI, val) \<Rightarrow>
             Inr \<lparr>rg_RI = RI, rg_value = val, rg_keyid = False,
               rg_freed = freed @ (if q = Null then [] else [addr q])\<rparr>))"

definition reg_gather ::
  "rtl \<Rightarrow> kernel \<Rightarrow> GC \<Rightarrow> u32 \<Rightarrow> reg_args \<Rightarrow> REG_INFO \<Rightarrow> u64 list + reg_gathered" where
  "reg_gather R K G cls arg RI =
     (if cls \<in> set reg_post_classes then Inr (gather_post K G cls arg RI)
      else if cls = RegNtPreCreateKeyEx \<or> cls = RegNtPreCreateKey
      then Inr \<lparr>rg_RI = RI\<lparr>RegistryKey := ra_CompleteName arg\<rparr>, rg_value = False, rg_keyid = False,
             rg_freed = []\<rparr>
      else if cls \<in> set reg_pre_classes then gather_pre R K cls arg RI
      else if cls = RegNtPreRestoreKey then gather_restore R K arg RI
      else Inr \<lparr>rg_RI = RI, rg_value = False, rg_keyid = False, rg_freed = []\<rparr>)"

section \<open>The callback\<close>

definition log_full_str :: "u16 \<Rightarrow> UNICODE_STRING ptr \<Rightarrow> log_call" where
  "log_full_str type s = log_when (s \<noteq> Null \<and> Buffer (deref s) \<noteq> Null \<and> 0 < Length (deref s)) (log_str type s)"

definition registry_calls ::
  "u64 \<Rightarrow> bool \<Rightarrow> bool \<Rightarrow> REG_INFO \<Rightarrow> inspection \<Rightarrow> log_call list" where
  "registry_calls pid foundProc queryValueInfo RI verdict =
     [log_u32 MATCH_ID (in_id verdict),
      log_u16 EVENT_TYPE REGISTRY_EVENT,
      log_u64 PID pid,
      log_u32 REG_OP (notifyClass RI),
      log_u32 CREATION_STATUS (in_status verdict)] @
     (if foundProc then PCacheLogEntries (ri_PI RI) False else []) @
     (if queryValueInfo \<and> RegistryValueName RI \<noteq> Null then
        [log_str REG_VALUE_NAME (RegistryValueName RI),
         log_when (ri_Data RI \<noteq> Null \<and> 0 < ri_DataSize RI) (Some (ri_DataSize RI, REG_DATA, ri_Data RI)),
         log_when (0 < ri_DataType RI) (log_u32 REG_DATA_TYPE (ri_DataType RI))]
      else []) @
     [log_full_str REG_KEY (RegistryKey RI),
      log_full_str REG_KEY_NEW (RegistryKeyNew RI),
      log_full_str REG_OLD_FILE_NAME (OldFilename RI),
      log_full_str REG_NEW_FILE_NAME (NewFileName RI),
      log_u16 EVENT_END REGISTRY_EVENT]"

definition zero_ri :: REG_INFO where
  "zero_ri = \<lparr>notifyClass = 0, RegistryKey = Null, RegistryKeyNew = Null, RegistryValueName = Null,
     NewFileName = Null, OldFilename = Null, ri_Data = Null, ri_DataSize = 0, ri_DataType = 0,
     ri_PI = Null, ri_tag = ''''\<rparr>"

text \<open>The status the operation gets, the context, and what is given back: pool blocks and, last, the name
  the configuration manager had handed out.\<close>

definition RegistryCallbackRoutine ::
  "rtl \<Rightarrow> kernel \<Rightarrow> GC \<Rightarrow> u32 \<Rightarrow> reg_args \<Rightarrow> (NTSTATUS \<times> GC \<times> u64 list) res" where
  "RegistryCallbackRoutine R K globals cls arg =
     (if cls \<notin> set reg_classes then Inr (STATUS_SUCCESS, globals, []) else
      let pid = (if PsGetCurrentProcessId K = 0 then 4 else PsGetCurrentProcessId K);
          ts = KeQuerySystemTimePrecise K; (rid, G) = mm_id globals;
          (slot, foundProc, PI, G) = find_process G pid Null in
      case reg_gather R K G cls arg (zero_ri\<lparr>ri_PI := PI\<rparr>) of
        Inl freed \<Rightarrow> Inr (STATUS_NO_MEMORY, release slot G, freed)
      | Inr g \<Rightarrow>
        let RI = (rg_RI g)\<lparr>notifyClass := cls, ri_tag := UMBRIEL\<rparr> in
        andthen (InspectRegistryEvent R G RI) (\<lambda>verdict.
        andthen (if \<not> in_skip verdict \<or> KEEP_EXCLUDES G
                 then log_all R (MM_Genrand K) 0 rid ts
                        (registry_calls pid foundProc (rg_value g) RI verdict) G
                 else Inr G) (\<lambda>G.
          Inr (in_status verdict, release slot G,
               rg_freed g @ (if RegistryKey RI \<noteq> Null \<and> rg_keyid g then [addr (RegistryKey RI)] else [])))))"

end
