(* ===== verification/MM_File_Callbacks.thy ===== *)
theory MM_File_Callbacks
  imports MM_Kernel MM_File_Rules
begin

text \<open>
  The two callbacks of the file system minifilter in \<open>src/MoonMon/MoonMon.c\<close>: before a file is created or
  opened, and before its information is set. \<open>flt_data\<close> is what a request gives: the members of
  \<open>FLT_CALLBACK_DATA\<close> the callbacks use, and the answers of the filter manager about its name. The
  callbacks read the parsed names after they have released them: the strings here are what is read then.
\<close>

section \<open>Requests\<close>

datatype FLT_PREOP_CALLBACK_STATUS = FLT_PREOP_SUCCESS_NO_CALLBACK | FLT_PREOP_COMPLETE

record flt_names =
  nm_Name :: "UNICODE_STRING ptr"
  nm_Volume :: "UNICODE_STRING ptr"
  nm_Share :: "UNICODE_STRING ptr"
  nm_Extension :: "UNICODE_STRING ptr"
  nm_Stream :: "UNICODE_STRING ptr"
  nm_FinalComponent :: "UNICODE_STRING ptr"
  nm_ParentDir :: "UNICODE_STRING ptr"

text \<open>\<open>InfoBuffer\<close> points to a structure that depends on the information class; \<open>set_buffer\<close> has the
  members of all of them that are read.\<close>

record set_buffer =
  sb_ChangeTime :: u64
  sb_CreationTime :: u64
  sb_AccessFlags :: u32
  sb_FileName :: "u8 list ptr"
  sb_FileNameLength :: u32
  sb_DeleteFile :: u8
  sb_NamedPipeType :: u32
  sb_NamedPipeConfiguration :: u32
  sb_NamedPipeState :: u32
  sb_NamedPipeEnd :: u32
  sb_Protocol :: u32
  sb_ProtocolMajorVersion :: u16
  sb_ProtocolMinorVersion :: u16

record flt_data =
  fd_CreateOptions :: u32
  fd_FileInformationClass :: u32
  fd_InfoBuffer :: set_buffer
  fd_TargetFileName :: "UNICODE_STRING ptr"
  fd_NameStatus :: NTSTATUS
  fd_ParseStatus :: NTSTATUS
  fd_Names :: flt_names
  fd_Status :: NTSTATUS
  fd_Information :: u64

text \<open>Both callbacks take the parsed name of the file, or else the name in the file object.\<close>

definition request_names :: "flt_data \<Rightarrow> flt_names" where
  "request_names Data =
     (if NT_SUCCESS (fd_NameStatus Data) \<and> NT_SUCCESS (fd_ParseStatus Data) then fd_Names Data
      else \<lparr>nm_Name = fd_TargetFileName Data, nm_Volume = Null, nm_Share = Null, nm_Extension = Null,
             nm_Stream = Null, nm_FinalComponent = Null, nm_ParentDir = Null\<rparr>)"

definition log_nonempty :: "u16 \<Rightarrow> UNICODE_STRING ptr \<Rightarrow> log_call" where
  "log_nonempty type s = log_when (s \<noteq> Null \<and> Length (deref s) \<noteq> 0) (log_str type s)"

definition name_calls :: "flt_names \<Rightarrow> log_call list" where
  "name_calls n =
     [log_nonempty MM_FILE_NAME (nm_Name n),
      log_nonempty MM_FILE_VOLUME (nm_Volume n),
      log_nonempty MM_FILE_SHARE (nm_Share n),
      log_nonempty MM_FILE_EXTENSION (nm_Extension n),
      log_nonempty MM_FILE_STREAM (nm_Stream n),
      log_nonempty MM_FILE_FINAL_COMPONENT (nm_FinalComponent n),
      log_nonempty MM_FILE_PARENT_DIR (nm_ParentDir n)]"

section \<open>Creating and opening\<close>

definition create_calls ::
  "u64 \<Rightarrow> bool \<Rightarrow> flt_data \<Rightarrow> flt_names \<Rightarrow> PROC_INFO ptr \<Rightarrow> inspection \<Rightarrow> log_call list" where
  "create_calls pid foundProc Data n PI verdict =
     [log_u32 MATCH_ID (in_id verdict),
      log_u16 EVENT_TYPE MM_FILE_CREATED,
      log_u64 PID pid,
      log_u32 CREATION_STATUS (fd_Status Data),
      log_when (0 < fd_CreateOptions Data) (log_u32 MM_FILE_FLAGS (fd_CreateOptions Data))] @
     (if foundProc then PCacheLogEntries PI False else []) @
     name_calls n @
     [log_u16 EVENT_END MM_FILE_CREATED]"

definition FsPreCreateCallback ::
  "rtl \<Rightarrow> kernel \<Rightarrow> GC \<Rightarrow> flt_data \<Rightarrow> (FLT_PREOP_CALLBACK_STATUS \<times> flt_data \<times> GC) res" where
  "FsPreCreateCallback R K globals Data =
     (let currentProcess = PsGetCurrentProcessId K;
          pid = (if currentProcess = 0 then 4 else currentProcess);
          ts = KeQuerySystemTimePrecise K; (rid, G) = mm_id globals;
          n = request_names Data;
          (slot, foundProc, PI, G) = find_process G currentProcess Null;
          FI = \<lparr>CreateOptions = fd_CreateOptions Data, fi_Name = nm_Name n, fi_Volume = nm_Volume n,
                fi_Share = nm_Share n, fi_Extension = nm_Extension n, fi_Stream = nm_Stream n,
                fi_FinalComponent = nm_FinalComponent n, fi_ParentDir = nm_ParentDir n,
                fi_PI = PI, fi_tag = DEIMOS\<rparr> in
      andthen (InspectFsCreateEvent R G FI) (\<lambda>verdict.
      let (status, Data) =
            (if \<not> NT_SUCCESS (in_status verdict)
             then (FLT_PREOP_COMPLETE, Data\<lparr>fd_Status := in_status verdict, fd_Information := 0\<rparr>)
             else (FLT_PREOP_SUCCESS_NO_CALLBACK, Data)) in
      andthen (if \<not> in_skip verdict \<or> KEEP_EXCLUDES G
               then log_all R (MM_Genrand K) 0 rid ts (create_calls pid foundProc Data n PI verdict) G
               else Inr G) (\<lambda>G.
        Inr (status, Data, release slot G))))"

section \<open>Setting information\<close>

text \<open>\<open>FILE_INFORMATION_CLASS\<close>, with the values of the Windows headers.\<close>

abbreviation (input) FileBasicInformation :: u32 where "FileBasicInformation \<equiv> 4"
abbreviation (input) FileAccessInformation :: u32 where "FileAccessInformation \<equiv> 8"
abbreviation (input) FileNameInformation :: u32 where "FileNameInformation \<equiv> 9"
abbreviation (input) FileRenameInformation :: u32 where "FileRenameInformation \<equiv> 10"
abbreviation (input) FileLinkInformation :: u32 where "FileLinkInformation \<equiv> 11"
abbreviation (input) FileDispositionInformation :: u32 where "FileDispositionInformation \<equiv> 13"
abbreviation (input) FilePipeLocalInformation :: u32 where "FilePipeLocalInformation \<equiv> 24"
abbreviation (input) FileNetworkOpenInformation :: u32 where "FileNetworkOpenInformation \<equiv> 34"
abbreviation (input) FileRemoteProtocolInformation :: u32 where "FileRemoteProtocolInformation \<equiv> 55"
abbreviation (input) FileRenameInformationBypassAccessCheck :: u32 where
  "FileRenameInformationBypassAccessCheck \<equiv> 56"

definition zero_fs :: FILE_SET_INFO where
  "zero_fs = \<lparr>fs_Operation = 0, fs_Name = Null, fs_Volume = Null, fs_Share = Null, fs_Extension = Null,
     fs_Stream = Null, fs_FinalComponent = Null, fs_ParentDir = Null, fs_PI = Null, CreationTime = 0,
     ChangeTime = 0, AccessFlags = 0, NewName = Null, Protocol = 0, ProtocolMajorVersion = 0,
     ProtocolMinorVersion = 0, NamedPipeType = 0, NamedPipeConfiguration = 0, NamedPipeState = 0,
     NamedPipeEnd = 0, DeleteFile = 0, fs_tag = ''''\<rparr>"

text \<open>The dispatch on the class: \<open>None\<close> where the callback leaves the request alone. The classes whose
  branch does nothing but that (directory, names, EA, stream, pipe, remote pipe and hard link
  information, links that bypass the access check) fall under the default with the classes the code
  does not name.\<close>

definition set_times :: "set_buffer \<Rightarrow> FILE_SET_INFO \<Rightarrow> FILE_SET_INFO option" where
  "set_times b FI =
     (if sb_ChangeTime b <s 1 \<or> sb_CreationTime b <s 1 then None
      else Some (FI\<lparr>ChangeTime := sb_ChangeTime b, CreationTime := sb_CreationTime b\<rparr>))"

definition set_new_name :: "set_buffer \<Rightarrow> FILE_SET_INFO \<Rightarrow> FILE_SET_INFO" where
  "set_new_name b FI = FI\<lparr>NewName := local \<lparr>Length = ucast (sb_FileNameLength b),
     MaximumLength = ucast (sb_FileNameLength b), Buffer = sb_FileName b\<rparr>\<rparr>"

definition set_gather :: "flt_data \<Rightarrow> FILE_SET_INFO option" where
  "set_gather Data =
     (let b = fd_InfoBuffer Data; FI = zero_fs\<lparr>fs_Operation := fd_FileInformationClass Data\<rparr> in
      switch (fd_FileInformationClass Data)
        [(FileBasicInformation, set_times b FI),
         (FileAccessInformation, Some (FI\<lparr>AccessFlags := sb_AccessFlags b\<rparr>)),
         (FileNameInformation, Some (set_new_name b FI)),
         (FileRenameInformation, Some (set_new_name b FI)),
         (FileLinkInformation, Some (set_new_name b FI)),
         (FileDispositionInformation,
            if sb_DeleteFile b = 0 then None else Some (FI\<lparr>DeleteFile := sb_DeleteFile b\<rparr>)),
         (FilePipeLocalInformation,
            Some (FI\<lparr>NamedPipeType := sb_NamedPipeType b, NamedPipeConfiguration := sb_NamedPipeConfiguration b,
                     NamedPipeState := sb_NamedPipeState b, NamedPipeEnd := sb_NamedPipeEnd b\<rparr>)),
         (FileNetworkOpenInformation, set_times b FI),
         (FileRemoteProtocolInformation,
            Some (FI\<lparr>Protocol := sb_Protocol b, ProtocolMajorVersion := sb_ProtocolMajorVersion b,
                     ProtocolMinorVersion := sb_ProtocolMinorVersion b\<rparr>)),
         (FileRenameInformationBypassAccessCheck, Some (set_new_name b FI))]
        None)"

text \<open>The three flags of the callback: \<open>newname\<close>, \<open>rprotocol\<close> and \<open>npipe\<close>.\<close>

definition set_newname :: "u32 \<Rightarrow> bool" where
  "set_newname cls \<longleftrightarrow> cls \<in> set [FileNameInformation, FileRenameInformation, FileLinkInformation,
     FileRenameInformationBypassAccessCheck]"

definition set_calls ::
  "u64 \<Rightarrow> bool \<Rightarrow> flt_data \<Rightarrow> flt_names \<Rightarrow> FILE_SET_INFO \<Rightarrow> inspection \<Rightarrow> log_call list" where
  "set_calls pid foundProc Data n FI verdict =
     (let newname = set_newname (fs_Operation FI);
          rprotocol = (fs_Operation FI = FileRemoteProtocolInformation);
          npipe = (fs_Operation FI = FilePipeLocalInformation) in
      [log_u32 MATCH_ID (in_id verdict),
       log_u16 EVENT_TYPE MM_FILE_SET_INFO,
       log_u64 PID pid,
       log_u32 MM_FILE_OPERATION (fs_Operation FI),
       log_u32 CREATION_STATUS (fd_Status Data)] @
      (if foundProc then PCacheLogEntries (fs_PI FI) False else []) @
      name_calls n @
      [log_when (0 <s CreationTime FI) (log_u64 MM_FILE_CREATION_TIME (CreationTime FI)),
       log_when (0 <s ChangeTime FI) (log_u64 MM_FILE_CHANGE_TIME (ChangeTime FI)),
       log_when (0 < AccessFlags FI) (log_u32 MM_FILE_ACCESS_FLAGS (AccessFlags FI)),
       log_when (newname \<and> NewName FI \<noteq> Null) (log_str MM_FILE_NEW_NAME (NewName FI)),
       log_when (rprotocol \<and> 0 < Protocol FI) (log_u32 MM_FILE_NETWORK_PROTOCOL (Protocol FI)),
       log_when (rprotocol \<and> 0 < ProtocolMajorVersion FI)
         (log_u16 MM_FILE_NETWORK_PROTOCOL_VERSION_MAJOR (ProtocolMajorVersion FI)),
       log_when (rprotocol \<and> ProtocolMinorVersion FI \<noteq> 0)
         (log_u16 MM_FILE_NETWORK_PROTOCOL_VERSION_MINOR (ProtocolMinorVersion FI)),
       log_when (npipe \<and> 0 < NamedPipeType FI) (log_u32 MM_NAMED_PIPE_TYPE (NamedPipeType FI)),
       log_when (npipe \<and> 0 < NamedPipeConfiguration FI)
         (log_u32 MM_NAMED_PIPE_CONFIG (NamedPipeConfiguration FI)),
       log_when (npipe \<and> 0 < NamedPipeState FI) (log_u32 MM_NAMED_PIPE_STATE (NamedPipeState FI)),
       log_when (npipe \<and> 0 < NamedPipeEnd FI) (log_u32 MM_NAMED_PIPE_END (NamedPipeEnd FI)),
       log_when (DeleteFile FI = 1) (log_u8 MM_FILE_DELETION (DeleteFile FI)),
       log_u16 EVENT_END MM_FILE_SET_INFO])"

definition FsPreSetInformationCallback ::
  "rtl \<Rightarrow> kernel \<Rightarrow> GC \<Rightarrow> flt_data \<Rightarrow> (FLT_PREOP_CALLBACK_STATUS \<times> flt_data \<times> GC) res" where
  "FsPreSetInformationCallback R K globals Data =
     (case set_gather Data of None \<Rightarrow> Inr (FLT_PREOP_SUCCESS_NO_CALLBACK, Data, globals)
      | Some FI \<Rightarrow>
        let currentProcess = PsGetCurrentProcessId K;
            pid = (if currentProcess = 0 then 4 else currentProcess);
            ts = KeQuerySystemTimePrecise K; (rid, G) = mm_id globals;
            n = request_names Data;
            (slot, foundProc, PI, G) = find_process G currentProcess Null;
            FI = FI\<lparr>fs_Name := nm_Name n, fs_Volume := nm_Volume n, fs_Share := nm_Share n,
                    fs_Extension := nm_Extension n, fs_Stream := nm_Stream n,
                    fs_FinalComponent := nm_FinalComponent n, fs_ParentDir := nm_ParentDir n,
                    fs_PI := PI, fs_tag := DIONE\<rparr> in
        andthen (InspectFsSetEvent R G FI) (\<lambda>verdict.
        let (status, Data) =
              (if \<not> NT_SUCCESS (in_status verdict)
               then (FLT_PREOP_COMPLETE, Data\<lparr>fd_Status := in_status verdict\<rparr>)
               else (FLT_PREOP_SUCCESS_NO_CALLBACK, Data)) in
        andthen (if \<not> in_skip verdict \<or> KEEP_EXCLUDES G
                 then log_all R (MM_Genrand K) 0 rid ts (set_calls pid foundProc Data n FI verdict) G
                 else Inr G) (\<lambda>G.
          Inr (status, Data, release slot G))))"

section \<open>The other callbacks of the minifilter\<close>

definition FsFilterUnload :: NTSTATUS where "FsFilterUnload = STATUS_SUCCESS"
definition FsInstanceSetup :: NTSTATUS where "FsInstanceSetup = STATUS_SUCCESS"
definition FsInstanceQueryTeardown :: NTSTATUS where "FsInstanceQueryTeardown = STATUS_SUCCESS"

end
