(* ===== verification/MM_Soundness.thy ===== *)
theory MM_Soundness
  imports MM_Driver MM_Event_Records MM_Registry_Callback MM_File_Callbacks
begin

text \<open>
  What a sound state of the driver is, and what the callbacks keep of it: the rule lists as the loader
  builds them, the table of processes, and the log. A callback may change the log, the table and
  the counter of ids; \<open>follows\<close> says that it has changed nothing else and that the state is still
  sound.
\<close>

section \<open>The configuration\<close>

text \<open>All slots behind the groups of a list are empty, so that a search with too large a counter ends
  at the first of them.\<close>

definition sound_list :: "CONFIG_GROUP ptr list \<Rightarrow> nat \<Rightarrow> bool" where
  "sound_list L n \<longleftrightarrow> length L = 65535 \<and> n \<le> 65535 \<and> list_all built_group (take n L)
     \<and> list_all (\<lambda>q. q = Null) (drop n L)"

definition config_ok :: "GC \<Rightarrow> bool" where
  "config_ok G \<longleftrightarrow> (\<forall>l. VALID_PAGE (gc_list G l) \<and> sound_list (deref (gc_list G l)) (unat (gc_COUNT G l)))"

lemma sound_list_wf:
  assumes "sound_list L n" "m \<le> 65535"
  shows "wf_list L m"
proof -
  have "wf_group (deref q)" if "q \<in> set (takeWhile (\<lambda>q. MM_TYPE_CHECK cg_tag q CALIBAN) (take m L))" for q
  proof -
    have "q \<in> set L" "MM_TYPE_CHECK cg_tag q CALIBAN"
      using that by (auto dest: set_takeWhileD in_set_takeD)
    moreover from this have "q \<in> set (take n L) \<or> q \<in> set (drop n L)"
      by (metis append_take_drop_id set_append UnE)
    ultimately show ?thesis
      using assms(1) by (auto simp: sound_list_def list_all_iff built_group_def)
  qed
  then show ?thesis using assms by (auto simp: wf_list_def live_groups_def sound_list_def)
qed

lemma config_ok_rules [mm_intros]: "config_ok G \<Longrightarrow> wf_rules G l"
  using sound_list_wf [of "deref (gc_list G l)" "unat (gc_COUNT G l)" "unat (gc_COUNT G l)"]
  by (simp add: config_ok_def wf_rules_def sound_list_def)

lemma config_ok_count: "config_ok G \<Longrightarrow> unat (gc_COUNT G l) \<le> 65535"
  by (simp add: config_ok_def sound_list_def)

text \<open>A search of any list with any of the counters ends.\<close>

context counting_check
begin

lemma match_total:
  assumes "config_ok G" "ok v" "unat n \<le> 65535" "\<And>e. fit e"
  shows "\<exists>r. list_match G (Some l) n (check v) = Inr r"
proof -
  have "wf_list (drop 0 (deref (gc_list G l))) (unat n)"
    using assms(1,3) sound_list_wf [of "deref (gc_list G l)" "unat (gc_COUNT G l)"] by (simp add: config_ok_def)
  moreover have "fit_list fit (drop 0 (deref (gc_list G l))) (unat n)"
    using assms(4) by (simp add: fit_list_def list_all_iff)
  ultimately show ?thesis
    using groups_loop_total [OF assms(2)] by (auto simp: list_match_def Let_def)
qed

end

text \<open>So every inspection reaches a verdict. Those of threads and of changes of files search with the
  wrong counters and with checks that look at the counter of matches.\<close>

lemma andthen_total: "\<exists>x. r = Inr x \<Longrightarrow> (\<And>x. r = Inr x \<Longrightarrow> \<exists>y. f x = Inr y) \<Longrightarrow> \<exists>y. andthen r f = Inr y"
  by auto

lemma InspectThreadCreation_total:
  assumes "config_ok G"
  shows "\<exists>v. InspectThreadCreation R G TI = Inr v"
proof -
  have "\<exists>r. ThreadCreationListMatch R G TI t (gc_COUNT G l) = Inr r" if "thread_list t = Some l'" for t l l'
    unfolding ThreadCreationListMatch_def that
    by (rule thread_rules.match_total [OF assms _ config_ok_count [OF assms]]) simp_all
  then show ?thesis
    unfolding InspectThreadCreation_def by (intro andthen_total) (auto split: if_splits intro!: andthen_total)
qed

lemma InspectFsSetEvent_total:
  assumes "config_ok G"
  shows "\<exists>v. InspectFsSetEvent R G FI = Inr v"
proof -
  have m: "\<exists>r. FileSetEventListMatch R G FI t (gc_COUNT G l) = Inr r" if "file_set_list t = Some l'" for t l l'
    unfolding FileSetEventListMatch_def that
    by (rule file_set_counts.match_total [OF assms _ config_ok_count [OF assms]]) simp_all
  obtain blk inc exc where "FileSetEventListMatch R G FI FILE_SET_INFO_BLOCK_LIST (gc_COUNT G FSBL) = Inr blk"
    "FileSetEventListMatch R G FI FILE_SET_INFO_INCLUDE_LIST (gc_COUNT G FSINC) = Inr inc"
    "FileSetEventListMatch R G FI FILE_SET_INFO_EXCLUDE_LIST (gc_COUNT G FSEXC) = Inr exc"
    using m [OF file_set_list_simps(1)] m [OF file_set_list_simps(2)] m [OF file_set_list_simps(3)] by blast
  then show ?thesis by (simp add: InspectFsSetEvent_def)
qed

lemmas inspections_decide = creation_decides termination_decides imageload_decides object_decides
  registry_decides file_create_decides network_decides

section \<open>What a callback may change\<close>

definition event_frame :: "GC \<Rightarrow> GC \<Rightarrow> bool" where
  "event_frame G G' \<longleftrightarrow> (\<exists>L b P i. G' = G\<lparr>gc_L := L, L_SIZE_BYTES := b, NEW_PROCS := P, gc_id := i\<rparr>)"

lemma event_frameI: "G' = G\<lparr>gc_L := L, L_SIZE_BYTES := b, NEW_PROCS := P, gc_id := i\<rparr>
    \<Longrightarrow> event_frame G G'"
  unfolding event_frame_def by blast

lemma event_frame_trans: "event_frame G G' \<Longrightarrow> event_frame G' G'' \<Longrightarrow> event_frame G G''"
  unfolding event_frame_def by (elim exE) (intro exI, simp)

lemma event_frame_refl: "event_frame G G"
  by (rule event_frameI [where L = "gc_L G" and b = "L_SIZE_BYTES G" and P = "NEW_PROCS G"
        and i = "gc_id G"]) simp

lemma event_frame_steps:
  "log_frame G G' \<Longrightarrow> event_frame G G'" "event_frame G (snd (mm_id G))" "event_frame G (set_slot k s G)"
proof -
  show "event_frame G G'" if "log_frame G G'"
    using that unfolding log_frame_def
    by (elim exE, intro event_frameI [where P = "NEW_PROCS G" and i = "gc_id G"]) simp
  show "event_frame G (snd (mm_id G))"
    by (rule event_frameI [where L = "gc_L G" and b = "L_SIZE_BYTES G" and P = "NEW_PROCS G"
        and i = "gc_id (snd (mm_id G))"]) (simp add: mm_id_def Let_def)
  show "event_frame G (set_slot k s G)"
    by (rule event_frameI [where L = "gc_L G" and b = "L_SIZE_BYTES G" and P = "NEW_PROCS (set_slot k s G)"
        and i = "gc_id G"]) (simp add: set_slot_def)
qed

lemma event_frame_fields:
  assumes "event_frame G G'"
  shows "gc_list G' = gc_list G" "gc_COUNT G' = gc_COUNT G" "flags G' = flags G" "gc_tag G' = gc_tag G"
    "gc_State G' = gc_State G" "clientpid G' = clientpid G" "KEEP_EXCLUDES G' = KEEP_EXCLUDES G"
    "RESIST_TAMPERING G' = RESIST_TAMPERING G" "REG_DATA_MAX_SIZE G' = REG_DATA_MAX_SIZE G"
    "NEW_PROCS_INDEX G' = NEW_PROCS_INDEX G"
  using assms by (auto simp: event_frame_def flags_def)

section \<open>Sound states\<close>

lemma cache_ok_length: "cache_ok G \<Longrightarrow> length (NEW_PROCS G) = 32000"
  by (simp add: cache_ok_def)

text \<open>What the table holds is well formed and has its tag, so that it can be logged.\<close>

definition wf_cached :: "PROC_INFO \<Rightarrow> bool" where
  "wf_cached PI \<longleftrightarrow> wf_proc PI \<and> pi_tag PI = PHOEBE"

definition procs_ok :: "GC \<Rightarrow> bool" where
  "procs_ok G \<longleftrightarrow> (\<forall>s \<in> set (NEW_PROCS G). pc_PI s \<noteq> Null \<longrightarrow> wf_cached (deref (pc_PI s)))"

definition driver_ok :: "GC \<Rightarrow> bool" where
  "driver_ok G \<longleftrightarrow> config_ok G \<and> cache_ok G \<and> procs_ok G \<and> log_inv G \<and> gc_tag G = GANYMEDE"

lemma driver_okD:
  assumes "driver_ok G"
  shows "config_ok G" "cache_ok G" "procs_ok G" "log_inv G" "gc_tag G = GANYMEDE" "length (NEW_PROCS G) = 32000"
  using assms unfolding driver_ok_def by (auto dest: cache_ok_length)

text \<open>\<open>follows G G'\<close>: a step of a callback from \<open>G\<close> has led to \<open>G'\<close>.\<close>

definition follows :: "GC \<Rightarrow> GC \<Rightarrow> bool" where
  "follows G G' \<longleftrightarrow> driver_ok G' \<and> event_frame G G'"

lemma follows_trans [trans]: "follows G G' \<Longrightarrow> follows G' G'' \<Longrightarrow> follows G G''"
  using event_frame_trans by (auto simp: follows_def)

lemma follows_refl: "driver_ok G \<Longrightarrow> follows G G"
  by (simp add: follows_def event_frame_refl)

lemma driver_ok_step:
  assumes "driver_ok G" "event_frame G G'" "cache_ok G'" "procs_ok G'" "log_inv G'"
  shows "follows G G'"
  using assms event_frame_fields [OF assms(2)] by (simp add: follows_def driver_ok_def config_ok_def)

lemma driver_ok_slots:
  assumes "driver_ok G" "event_frame G G'" "NEW_PROCS G' = NEW_PROCS G" "log_inv G'"
  shows "follows G G'"
proof -
  have "cache_ok G' = cache_ok G" "procs_ok G' = procs_ok G"
    using cache_same [OF assms(3)] assms(3) by (simp_all add: procs_ok_def)
  then show ?thesis using assms by (intro driver_ok_step) (simp_all add: driver_ok_def)
qed

text \<open>Only the creation of a process moves the index of the table on; whatever it is, the state is as sound.\<close>

definition at_index :: "u32 \<Rightarrow> GC \<Rightarrow> GC" where
  "at_index n G = G\<lparr>NEW_PROCS_INDEX := n\<rparr>"

lemma at_index_simps [simp]:
  "driver_ok (at_index n G) = driver_ok G" "NEW_PROCS_INDEX (at_index n G) = n"
  "at_index (NEW_PROCS_INDEX G) G = G" "at_index m (at_index n G) = at_index m G"
  by (simp_all add: at_index_def driver_ok_def config_ok_def cache_ok_def procs_ok_def log_inv_def)

lemma event_frame_index: "event_frame G G' \<Longrightarrow> event_frame (at_index n G) (at_index n G')"
  unfolding event_frame_def at_index_def by (elim exE) (intro exI, cases G, simp)

lemma follows_index: "follows G G' \<Longrightarrow> follows (at_index n G) (at_index n G')"
  by (simp add: follows_def event_frame_index)

text \<open>The steps that callbacks are made of: a new id, a change of a slot, and logging.\<close>

lemma follows_id: "driver_ok G \<Longrightarrow> follows G (snd (mm_id G))"
  by (rule driver_ok_slots [OF _ event_frame_steps(2)])
     (auto simp: driver_ok_def log_inv_def mm_id_def Let_def)

lemma follows_slot:
  assumes "driver_ok G" "cache_ok (set_slot k s G)" "pc_PI s \<noteq> Null \<Longrightarrow> wf_cached (deref (pc_PI s))"
  shows "follows G (set_slot k s G)"
proof (rule driver_ok_step [OF assms(1) event_frame_steps(3) assms(2)])
  show "procs_ok (set_slot k s G)"
    using assms(1,3) set_update_subset_insert [of "NEW_PROCS G" k s]
    by (auto simp: procs_ok_def driver_ok_def set_slot_def)
  show "log_inv (set_slot k s G)" using assms(1) by (simp add: driver_ok_def log_inv_def)
qed

definition slot_ok :: "nat option \<Rightarrow> bool" where
  "slot_ok slot = (case slot of None \<Rightarrow> True | Some i \<Rightarrow> i < 32000)"

lemma slot_ok_simps [simp]: "slot_ok None" "slot_ok (Some i) \<longleftrightarrow> i < 32000"
  by (simp_all add: slot_ok_def)

lemma cached_slot:
  assumes "driver_ok G" "GetCachedProcess G p = Some i"
  shows "i < 32000" "pc_PI (NEW_PROCS G ! i) \<noteq> Null" "wf_cached (deref (pc_PI (NEW_PROCS G ! i)))"
    "pc_p (NEW_PROCS G ! i) = p"
proof -
  have ok: "cache_ok G" "procs_ok G" using assms(1) by (simp_all add: driver_ok_def)
  then show i: "i < 32000" "pc_p (NEW_PROCS G ! i) = p" using slot_get [OF ok(1)] assms(2) by auto
  have mem: "NEW_PROCS G ! i \<in> set (NEW_PROCS G)" using i ok(1) by (simp add: cache_ok_def)
  then have "wf_slot (NEW_PROCS G ! i)" using ok(1) by (simp add: cache_ok_def)
  moreover have "pc_tag (NEW_PROCS G ! i) = CHARON" using slot_get [OF ok(1)] assms(2) by auto
  ultimately show "pc_PI (NEW_PROCS G ! i) \<noteq> Null" by (simp add: wf_slot_def)
  then show "wf_cached (deref (pc_PI (NEW_PROCS G ! i)))" using ok(2) mem by (simp add: procs_ok_def)
qed

lemma follows_mark:
  assumes "driver_ok G" "i < 32000"
  shows "follows G (set_in_use i b G)"
proof -
  have ok: "cache_ok G" "procs_ok G" using assms(1) by (simp_all add: driver_ok_def)
  then have "NEW_PROCS G ! i \<in> set (NEW_PROCS G)" using assms(2) by (simp add: cache_ok_def)
  then show ?thesis
    using set_in_use_ok [OF ok(1) assms(2), of b] ok(2) unfolding set_in_use_def
    by (intro follows_slot [OF assms(1)]) (simp_all add: procs_ok_def)
qed

lemma follows_release: "driver_ok G \<Longrightarrow> slot_ok slot \<Longrightarrow> follows G (release slot G)"
  by (cases slot) (simp_all add: release_def follows_refl follows_mark)

text \<open>Marks change no answer of the table.\<close>

lemma release_same:
  assumes "driver_ok G" "slot_ok slot"
  shows "cached (release slot G) p = cached G p" "GetCachedProcess (release slot G) p = GetCachedProcess G p"
    "gc_L (release slot G) = gc_L G"
  using assms driver_okD(2) [OF assms(1)]
  by (cases slot; simp add: release_def set_in_use_cached set_in_use_get; simp add: set_in_use_def)+

lemma find_same:
  assumes "driver_ok G" "find_process G p dflt = (slot, found, q, G')"
  shows "cached G' r = cached G r" "GetCachedProcess G' r = GetCachedProcess G r"
  using assms driver_okD(2) [OF assms(1)] cached_slot(1) [OF assms(1)]
  by (auto simp: find_process_def Let_def set_in_use_cached set_in_use_get split: option.splits if_splits)

section \<open>Looking processes up\<close>

text \<open>The information a lookup gives can be logged and, where it was probed, destroyed.\<close>

definition found_ok :: "nat option \<Rightarrow> bool \<Rightarrow> PROC_INFO ptr \<Rightarrow> bool" where
  "found_ok slot found q \<longleftrightarrow> slot_ok slot \<and> (found \<longrightarrow> q \<noteq> Null \<and> wf_proc (deref q))
     \<and> (slot = None \<and> found \<longrightarrow> pi_UI (deref q) = Null)"

lemma found_ok_slot: "found_ok slot found q \<Longrightarrow> slot_ok slot"
  by (simp add: found_ok_def)

lemma find_process_spec:
  assumes "driver_ok G" "find_process G p dflt = (slot, found, q, G')"
  shows "follows G G' \<and> gc_L G' = gc_L G \<and> found_ok slot found q \<and> slot = GetCachedProcess G p
    \<and> (case cached G p of None \<Rightarrow> slot = None \<and> \<not> found \<and> q = dflt \<and> G' = G
       | Some w \<Rightarrow> slot \<noteq> None \<and> found \<and> pi_view (deref q) = w \<and> pi_tag (deref q) = PHOEBE)"
proof (cases "GetCachedProcess G p")
  case None
  then show ?thesis using assms by (auto simp: find_process_def cached_def follows_refl found_ok_def)
next
  case (Some i)
  note c = cached_slot [OF assms(1) Some]
  obtain a PI where q: "pc_PI (NEW_PROCS G ! i) = Ptr a PI" "wf_cached PI" using c(2,3) by (cases "pc_PI (NEW_PROCS G ! i)") auto
  then have "slot = Some i \<and> G' = set_in_use i True G \<and> found \<and> q = Ptr a PI"
    using assms(2) Some by (simp add: find_process_def Let_def wf_cached_def)
  moreover have "cached G p = Some (pi_view PI)" using Some q by (simp add: cached_def)
  ultimately show ?thesis
    using q Some c(1) follows_mark [OF assms(1) c(1), of True] by (simp add: found_ok_def set_in_use_def wf_cached_def)
qed

lemma probe_spec:
  assumes "wf_kernel K" "probe R K proc = (found, q)"
  shows "q \<noteq> Null \<and> wf_proc (deref q) \<and> pi_UI (deref q) = Null"
  using assms processInfoInit_wf [of "process_peb K proc" "Null :: create_info ptr" R proc False]
  by (auto simp: probe_def wf_kernel_def split: prod.splits)

lemma find_or_probe_spec:
  assumes "driver_ok G" "wf_kernel K" "find_or_probe R K G p proc = (slot, found, q, G')"
  shows "follows G G' \<and> gc_L G' = gc_L G \<and> found_ok slot found q \<and> q \<noteq> Null \<and> wf_proc (deref q)"
proof -
  obtain s f q' G1 where find: "find_process G p (local zero_pi) = (s, f, q', G1)"
    using prod_cases4 by blast
  note spec = find_process_spec [OF assms(1) find]
  show ?thesis
  proof (cases s)
    case None
    obtain f q where pr: "probe R K proc = (f, q)" by force
    then show ?thesis
      using assms find None probe_spec [OF assms(2) pr] by (auto simp: find_or_probe_def follows_refl found_ok_def)
  next
    case (Some i)
    then have "(slot, found, q, G') = (s, f, q', G1)" using assms(3) find by (simp add: find_or_probe_def)
    then show ?thesis using spec Some by (auto simp: found_ok_def split: option.splits)
  qed
qed

lemma find_target_spec:
  assumes "driver_ok G" "wf_kernel K" "find_target R K G p proc = (slot, found, q, G')"
  shows "follows G G' \<and> gc_L G' = gc_L G \<and> found_ok slot found q \<and> q \<noteq> Null \<and> wf_proc (deref q)"
proof (cases "GetCachedProcess G p")
  case None
  obtain f q where pr: "probe R K proc = (f, q)" by force
  then show ?thesis
    using assms None probe_spec [OF assms(2) pr] by (auto simp: find_target_def follows_refl found_ok_def)
next
  case (Some i)
  note c = cached_slot [OF assms(1) Some]
  have "slot = Some i \<and> G' = set_in_use i True G \<and> (found \<longrightarrow> q = pc_PI (NEW_PROCS G ! i)) \<and> found"
    using assms(3) Some by (simp add: find_target_def Let_def split: if_splits)
  then show ?thesis
    using c(1-3) follows_mark [OF assms(1) c(1), of True] by (auto simp: found_ok_def set_in_use_def wf_cached_def)
qed

lemma discard_total: "found_ok slot found q \<Longrightarrow> \<exists>freed. discard slot found q = Inr freed"
  using processInfoDelete_total [of q] by (auto simp: discard_def found_ok_def wf_pi_def)

lemma follows_discard:
  assumes "found_ok slot found q"
  obtains freed where "discard slot found q = Inr freed"
  using discard_total [OF assms] by blast

section \<open>Reporting an event\<close>

text \<open>\<open>logs\<close>: while the log is not full, a callback appends the records of its calls, if it reports
  the event at all.\<close>

definition logs :: "GC \<Rightarrow> bool \<Rightarrow> u64 \<Rightarrow> u64 \<Rightarrow> log_call list \<Rightarrow> GC \<Rightarrow> bool" where
  "logs G b rid ts cs G' \<longleftrightarrow> (log_bytes (gc_L G) + calls_bytes cs < 200000000 \<longrightarrow>
     log_contents G' = log_contents G @ (if b then fields_of rid ts cs else []))"

lemma logs_cong:
  assumes "gc_L G = gc_L H" "gc_L G' = gc_L H'"
  shows "logs G b rid ts cs G' = logs H b rid ts cs H'"
  using assms by (simp add: logs_def log_contents_def)

lemma log_all_total:
  assumes "log_inv G" "pool_ample R" "list_all call_ok cs"
  shows "\<exists>G'. log_all R rnd k rid ts cs G = Inr G' \<and> log_inv G'"
  using assms(1,3)
proof (induction cs arbitrary: k G)
  case (Cons c cs)
  show ?case
  proof (cases c)
    case None
    then show ?thesis using Cons by simp
  next
    case (Some d)
    obtain sz type Data where d: "d = (sz, type, Data)" by (cases d)
    have "\<exists>G1. AddLogEntry R (rnd k) k G rid ts sz type Data = Inr G1 \<and> log_inv G1"
    proof (cases "VALID_PAGE Data \<and> sz \<noteq> 0")
      case True
      then have "unat sz \<le> length (deref Data)" "0 < sz" "sz \<le> 1000000000"
        using Cons.prems Some d by (simp_all add: call_ok_def word_gt_0)
      then show ?thesis
        using AddLogEntry_spec [OF Cons.prems(1) assms(2)] True by blast
    next
      case False
      then show ?thesis using AddLogEntry_nothing [of Data sz R k] Cons.prems by auto
    qed
    then show ?thesis using Cons Some d by auto
  qed
qed simp

lemma report_spec:
  assumes "driver_ok G" "pool_ample R" "b \<Longrightarrow> list_all call_ok cs"
  obtains G' where "(if b then log_all R rnd k rid ts cs G else Inr G) = Inr G'" "follows G G'"
    "NEW_PROCS G' = NEW_PROCS G" "logs G b rid ts cs G'"
proof (cases b)
  case False
  then show thesis using that [of G] by (simp add: follows_refl assms(1) logs_def)
next
  case True
  have inv: "log_inv G" using assms(1) by (simp add: driver_ok_def)
  obtain G' where G': "log_all R rnd k rid ts cs G = Inr G'" "log_inv G'"
    using log_all_total [OF inv assms(2) assms(3) [OF True]] by blast
  note frame = log_all_frame [OF G'(1)]
  have slots: "NEW_PROCS G' = NEW_PROCS G" by (rule log_frame_fields [OF frame])
  have "log_bytes (gc_L G) + calls_bytes cs < 200000000 \<Longrightarrow> log_contents G' = log_contents G @ fields_of rid ts cs"
    using log_all_spec [OF inv assms(2) assms(3) [OF True], of rnd k rid ts] G'(1) by auto
  moreover have "follows G G'"
    by (rule driver_ok_slots [OF assms(1) event_frame_steps(1) [OF frame] slots G'(2)])
  ultimately show thesis using that [of G'] G'(1) True slots by (simp add: logs_def)
qed

end
