(* ===== verification/MM_Process_Soundness.thy ===== *)
theory MM_Process_Soundness
  imports MM_Soundness
begin

text \<open>
  The callbacks for processes and threads of \<open>src/MoonMon/MoonMon.c\<close> on a sound state: each returns,
  follows the state it started from, and logs the records of its event as the inspection decides.
\<close>

section \<open>The cache\<close>

lemma wf_proc_view [simp]: "wf_proc (pi_view PI) = wf_proc PI"
  by (cases "pi_UI PI") (simp_all add: wf_proc_def pi_view_def)

lemma wf_proc_pi: "wf_proc PI \<Longrightarrow> wf_pi PI"
  by (auto simp: wf_proc_def wf_pi_def wf_user_def)

lemma follows_add:
  assumes "driver_ok G" "p \<noteq> 0" "next_slot G < 32000" "pool_ample R" "pi_tag PI = PHOEBE" "wf_proc PI"
  obtains G' freed n where "AddNewProcess R G p (Ptr b PI) = Inr (G', freed)"
    "follows (at_index n G) G'" "unat n \<le> Suc (unat (NEW_PROCS_INDEX G))" "gc_L G' = gc_L G"
    "cached G' p = (case cached G p of None \<Rightarrow> Some (pi_view PI) | Some w \<Rightarrow> Some w)"
    "cached G p = None \<longrightarrow> IsNewProcess G' p"
proof (cases "first_slot (\<lambda>s. pc_p s = p) (NEW_PROCS G) = None")
  case False
  have "cache_ok G" using assms(1) by (simp add: driver_ok_def)
  then have "cached G p \<noteq> None" by (rule slot_nonzero_cached [OF _ assms(2) False])
  then show thesis
    using that [of G "[]" "NEW_PROCS_INDEX G"] False assms(1,5)
    by (auto simp: AddNewProcess_def anp_pick_def follows_refl)
next
  case True
  have ok: "cache_ok G" using assms(1) by (simp add: driver_ok_def)
  have len: "length (NEW_PROCS G) = 32000" using ok by (simp add: cache_ok_def)
  obtain s freed a PI' n where add: "AddNewProcess R G p (Ptr b PI)
      = Inr (set_slot (next_slot G) s (G\<lparr>NEW_PROCS_INDEX := n\<rparr>), freed)"
    "pc_p s = p" "pc_tag s = CHARON" "pc_New s" "pc_PI s = Ptr a PI'" "pi_view PI' = pi_view PI" "wf_pi PI'"
    "unat n = next_slot G"
    using add_miss [OF ok True assms(3-5) wf_proc_pi [OF assms(6)]] by blast
  let ?G = "at_index n G" let ?G' = "set_slot (next_slot G) s ?G"
  have none: "pc_p (NEW_PROCS G ! j) \<noteq> p" if "j < 32000" for j
    using True that len by (auto simp: first_slot_None)
  have ok': "cache_ok ?G'"
    using ok add assms(2,3) none
    by (intro set_slot_ok) (auto simp: wf_slot_def at_index_def cache_ok_def)
  have tag: "pi_tag (pi_view P) = pi_tag P" for P by (simp add: pi_view_def)
  have "wf_cached PI'" using assms(5,6) add(6) wf_proc_view tag unfolding wf_cached_def by metis
  then have "follows ?G ?G'"
    using assms(1) add(5) ok' by (intro follows_slot) simp_all
  moreover have "unat n \<le> Suc (unat (NEW_PROCS_INDEX G))" using add(8) by (simp add: next_slot_def)
  moreover have "cached G p = None" using cached_None [OF ok] none by blast
  moreover have "cached ?G' p = Some (pi_view PI)"
    using cached_Some [OF ok', of p] add(2-6) assms(3) len by (auto simp: set_slot_def at_index_def intro!: exI [of _ "next_slot G"])
  moreover have "s \<in> set (NEW_PROCS ?G')"
    using assms(3) len by (simp add: set_slot_def set_update_memI at_index_def)
  then have "IsNewProcess ?G' p"
    using add assms(2) by (auto simp: IsNewProcess_def first_slot_None)
  ultimately show thesis using that [OF add(1) [folded at_index_def]] by (simp add: at_index_def set_slot_def)
qed

text \<open>Purging forgets the process and no other, unless some callback is using its slot.\<close>

lemma follows_purge:
  assumes "driver_ok G"
  obtains G' freed where "PurgeCachedProcess G p = Inr (G', freed)" "follows G G'" "gc_L G' = gc_L G"
    "\<And>q. q \<noteq> p \<Longrightarrow> cached G' q = cached G q"
    "\<And>i. GetCachedProcess G p = Some i \<Longrightarrow> \<not> pc_InUse (NEW_PROCS G ! i) \<Longrightarrow> cached G' p = None"
    "cached G p = None \<Longrightarrow> cached G' p = None"
proof (cases "first_slot (\<lambda>s. pc_tag s = CHARON \<and> pc_p s = p \<and> \<not> pc_InUse s) (NEW_PROCS G)")
  case None
  have "length (NEW_PROCS G) = 32000" "cache_ok G" by (rule driver_okD [OF assms])+
  then have "pc_InUse (NEW_PROCS G ! i)" if "GetCachedProcess G p = Some i" for i
    using None that slot_get [of G p i] by (auto simp: first_slot_None)
  then show thesis
    using that [of G "[]"] None assms by (auto simp: PurgeCachedProcess_def follows_refl)
next
  case (Some i)
  have ok: "cache_ok G" "procs_ok G" using assms by (simp_all add: driver_ok_def)
  have len: "length (NEW_PROCS G) = 32000" using ok by (simp add: cache_ok_def)
  have i: "i < 32000" "pc_tag (NEW_PROCS G ! i) = CHARON" "pc_p (NEW_PROCS G ! i) = p" "\<not> pc_InUse (NEW_PROCS G ! i)"
    using Some len by (auto simp: first_slot_Some)
  have get: "GetCachedProcess G p = Some i" using i slot_get [OF ok(1)] by blast
  note c = cached_slot [OF assms get]
  let ?s = "(NEW_PROCS G ! i)\<lparr>pc_New := False, pc_PI := Null, pc_p := 0, pc_tag := ''''\<rparr>"
  obtain r where "processInfoDelete (pc_PI (NEW_PROCS G ! i)) = Inr r"
    using processInfoDelete_total [OF wf_proc_pi] c(3) unfolding wf_cached_def by blast
  then have purge: "PurgeCachedProcess G p = Inr (set_slot i ?s G, snd r @ [addr (pc_PI (NEW_PROCS G ! i))])"
    using Some c(2) by (cases r) (simp add: PurgeCachedProcess_def Let_def)
  have ok': "cache_ok (set_slot i ?s G)"
    by (rule set_slot_ok [OF ok(1) i(1)]) (simp_all add: wf_slot_def)
  have nth: "NEW_PROCS (set_slot i ?s G) ! j = (if j = i then ?s else NEW_PROCS G ! j)" for j
    by (rule nth_set_slot) (simp add: i(1) len)
  have "j = i" if "j < 32000" "pc_tag (NEW_PROCS G ! j) = CHARON" "pc_p (NEW_PROCS G ! j) = p" for j
    using slot_get [OF ok(1), of p j] get that by simp
  then have gone: "cached (set_slot i ?s G) p = None"
    unfolding cached_None [OF ok'] nth by auto
  have other: "cached (set_slot i ?s G) q = cached G q" if "q \<noteq> p" for q
  proof -
    have "cached (set_slot i ?s G) q = Some w \<longleftrightarrow> cached G q = Some w" for w
      unfolding cached_Some [OF ok'] cached_Some [OF ok(1)] nth by (intro ex_cong1) (use i(3) that in auto)
    then show ?thesis by (metis not_None_eq)
  qed
  show thesis
    by (rule that [OF purge]) (use follows_slot [OF assms ok'] gone other in simp_all)
qed

section \<open>Creation\<close>

text \<open>What a creation gives the callback: well-formed strings and a client id of 16 bytes.\<close>

definition wf_create :: "create_info ptr \<Rightarrow> bool" where
  "wf_create q \<longleftrightarrow> wf_str (ci_ImageFileName (deref q)) \<and> wf_str (ci_CommandLine (deref q))
     \<and> length (ci_CreatingThreadId (deref q)) = 16"

lemma created_info_wf:
  assumes "wf_kernel K" "wf_create pInfo" "created_info R K hPid pInfo = (found, PI)"
  shows "wf_proc PI" "pi_UI PI = Null" "pi_tag PI = PHOEBE"
proof -
  let ?init = "processInfoInit R (process_peb K (IoGetCurrentProcess K)) (IoGetCurrentProcess K) zero_pi pInfo True"
  have "wf_proc (snd ?init) \<and> pi_UI (snd ?init) = Null"
    using assms(1,2) by (intro processInfoInit_wf) (simp_all add: wf_kernel_def wf_create_def)
  moreover have "wf_proc (PI0\<lparr>pi_tag := t\<rparr>) = wf_proc PI0" for PI0 t by (simp add: wf_proc_def)
  ultimately show "wf_proc PI" "pi_UI PI = Null" "pi_tag PI = PHOEBE"
    using assms(3) by (auto simp: created_info_def Let_def zero_pi_def split: if_splits prod.splits)
       (auto simp: wf_proc_def)
qed

text \<open>The user adds the SID to the information, and nothing else.\<close>

lemma add_user_wf:
  assumes "wf_kernel K" "wf_proc PI"
  obtains PI' where "add_user R K targp PI = Inr PI'" "wf_proc PI'" "pi_tag PI' = pi_tag PI"
    "PI'\<lparr>pi_UI := pi_UI PI\<rparr> = PI"
proof -
  have "wf_token (process_sid K targp)" using assms(1) by (simp add: wf_kernel_def)
  then obtain UI where UI: "SidLookup R K targp targp zero_ui = Inr UI"
    "ui_tag UI = MNEME \<longrightarrow> sid_data UI \<noteq> Null \<longrightarrow> wf_user UI"
    by (rule SidLookup_wf)
  let ?PI = "if ui_tag UI = MNEME \<and> sid_data UI \<noteq> Null then PI\<lparr>pi_UI := local UI\<rparr> else PI"
  show thesis
    by (rule that [of ?PI]) (use UI assms(2) in \<open>simp_all add: add_user_def wf_proc_def\<close>)
qed

lemma creation_calls_ok:
  assumes "wf_create (Ptr a ci)" "wf_proc PI"
  shows "list_all call_ok (creation_calls hPid (Ptr a ci) found PI v)"
    "calls_bytes (creation_calls hPid (Ptr a ci) found PI v) \<le> 1200000"
proof -
  have pc: "list_all call_ok (PCacheLogEntries (local PI) False)"
    "list_all small_call (PCacheLogEntries (local PI) False)"
    "length (PCacheLogEntries (local PI) False) \<le> 9"
    using PCache_ok [OF assms(2), of stack False] by auto
  have tid: "call_ok (Some (16, CREATING_THREAD_ID, local (ci_CreatingThreadId ci)))"
    "small_call (Some (16, CREATING_THREAD_ID, local (ci_CreatingThreadId ci)))"
    using assms(1) by (simp_all add: call_ok_def small_call_def wf_create_def)
  show ok: "list_all call_ok (creation_calls hPid (Ptr a ci) found PI v)"
    using pc(1) tid assms(2) by (auto simp: creation_calls_def Let_def wf_proc_def intro!: mm_intros)
  have "list_all small_call (creation_calls hPid (Ptr a ci) found PI v)"
    "length (creation_calls hPid (Ptr a ci) found PI v) \<le> 17"
    using pc(2,3) tid(2) by (simp_all add: creation_calls_def Let_def)
  then show "calls_bytes (creation_calls hPid (Ptr a ci) found PI v) \<le> 1200000"
    using small_calls_bytes [OF ok] by simp
qed

text \<open>The verdict on a new process.\<close>

definition creation_verdict :: "rtl \<Rightarrow> GC \<Rightarrow> PROC_INFO \<Rightarrow> inspection" where
  "creation_verdict R G PI = decide_process (rules_hit (process_holds R PI) G PBL)
     (rules_hit (process_holds R PI) G PINC) (rules_hit (process_holds R PI) G PEXC)"

lemma rules_hit_frame: "event_frame G G' \<Longrightarrow> rules_hit h G' l = rules_hit h G l"
  by (simp add: rules_hit_def event_frame_fields)

lemma process_created_spec:
  assumes ok: "driver_ok G" and env: "pool_ample R" "wf_kernel K" "wf_create (Ptr a ci)"
    and "hPid \<noteq> 0" "next_slot G < 32000" "IoGetCurrentProcess K \<noteq> 0"
    and lookup: "NT_SUCCESS (fst (PsLookupProcessByProcessId K hPid))"
  obtains PI G' freed n where
    "PI\<lparr>pi_UI := Null\<rparr> = snd (created_info R K hPid (Ptr a ci))"
    "add_user R K (snd (PsLookupProcessByProcessId K hPid)) (snd (created_info R K hPid (Ptr a ci))) = Inr PI"
    "wf_proc PI" "pi_tag PI = PHOEBE"
    "process_created R K G hPid (Ptr a ci)
      = Inr (ci\<lparr>ci_CreationStatus := in_status (creation_verdict R G PI)\<rparr>, G', freed)"
    "follows (at_index n G) G'" "unat n \<le> Suc (unat (NEW_PROCS_INDEX G))"
    "cached G' hPid = (case cached G hPid of None \<Rightarrow> Some (pi_view PI) | Some w \<Rightarrow> Some w)"
    "cached G hPid = None \<Longrightarrow> IsNewProcess G' hPid"
    "logs G (\<not> in_skip (creation_verdict R G PI) \<or> KEEP_EXCLUDES G) (fst (mm_id G)) (KeQuerySystemTimePrecise K)
       (creation_calls hPid (Ptr a (ci\<lparr>ci_CreationStatus := in_status (creation_verdict R G PI)\<rparr>))
          (fst (created_info R K hPid (Ptr a ci))) PI (creation_verdict R G PI)) G'"
proof -
  obtain rid G1 where mm: "mm_id G = (rid, G1)" by force
  have f1: "follows G G1" "gc_L G1 = gc_L G" "NEW_PROCS_INDEX G1 = NEW_PROCS_INDEX G" "NEW_PROCS G1 = NEW_PROCS G"
    using follows_id [OF ok] mm by (auto simp: mm_id_def Let_def split: if_splits)
  obtain found PI0 where ci: "created_info R K hPid (Ptr a ci) = (found, PI0)" by force
  note w0 = created_info_wf [OF env(2,3) ci]
  obtain status targp where lk: "PsLookupProcessByProcessId K hPid = (status, targp)" by force
  obtain PI where PI: "add_user R K targp PI0 = Inr PI" "wf_proc PI" "pi_tag PI = PHOEBE" "PI\<lparr>pi_UI := Null\<rparr> = PI0"
    using add_user_wf [OF env(2) w0(1), of R targp] w0(2,3) by metis
  have ok1: "driver_ok G1" using f1 by (simp add: follows_def)
  have "next_slot G1 < 32000" using assms(6) by (simp only: next_slot_def f1(3))
  then obtain G2 freed n where add: "AddNewProcess R G1 hPid (local PI) = Inr (G2, freed)"
    "follows (at_index n G1) G2" "unat n \<le> Suc (unat (NEW_PROCS_INDEX G1))" "gc_L G2 = gc_L G1"
    "cached G2 hPid = (case cached G1 hPid of None \<Rightarrow> Some (pi_view PI) | Some w \<Rightarrow> Some w)"
    "cached G1 hPid = None \<longrightarrow> IsNewProcess G2 hPid"
    by (rule follows_add [OF ok1 assms(5) _ env(1) PI(3,2), where b = stack])
  have f2: "follows (at_index n G) G2" by (rule follows_trans [OF follows_index [OF f1(1)] add(2)])
  have hits: "rules_hit h (at_index n G) l = rules_hit h G l" "KEEP_EXCLUDES (at_index n G) = KEEP_EXCLUDES G" for h l
    by (simp_all add: rules_hit_def at_index_def)
  let ?v = "creation_verdict R G PI"
  have verdict: "InspectProcessCreation R G2 PI = Inr ?v"
    using f2 creation_decides [of G2 R PI] rules_hit_frame [of "at_index n G" G2] hits
    by (simp add: follows_def creation_verdict_def config_ok_rules driver_okD)
  let ?ci = "ci\<lparr>ci_CreationStatus := in_status ?v\<rparr>"
  let ?cs = "creation_calls hPid (Ptr a ?ci) found PI ?v"
  have "wf_create (Ptr a ?ci)" using env(3) by (simp add: wf_create_def)
  note calls = creation_calls_ok(1) [OF this PI(2), of hPid found ?v]
  have keep: "KEEP_EXCLUDES G2 = KEEP_EXCLUDES G"
    using f2 hits by (simp add: follows_def event_frame_fields [of "at_index n G" G2])
  let ?b = "\<not> in_skip ?v \<or> KEEP_EXCLUDES G"
  obtain G' where rep: "(if ?b then log_all R (MM_Genrand K) 0 rid (KeQuerySystemTimePrecise K) ?cs G2 else Inr G2) = Inr G'"
    "follows G2 G'" "NEW_PROCS G' = NEW_PROCS G2" "logs G2 ?b rid (KeQuerySystemTimePrecise K) ?cs G'"
    using report_spec [of G2 R ?b ?cs "MM_Genrand K" 0 rid "KeQuerySystemTimePrecise K"] f2 env(1) calls
    by (auto simp: follows_def)
  have "process_created R K G hPid (Ptr a ci) =
      andthen (if ?b then log_all R (MM_Genrand K) 0 rid (KeQuerySystemTimePrecise K) ?cs G2 else Inr G2)
        (\<lambda>G. Inr (?ci, G, freed))"
    using assms(7) lookup
    by (simp add: process_created_def mm ci cache_created_def lk PI(1) add(1) verdict keep Let_def)
  then have "process_created R K G hPid (Ptr a ci) = Inr (?ci, G', freed)" unfolding rep(1) by simp
  moreover have "cached G1 hPid = cached G hPid" by (rule cache_same [OF f1(4)])
  moreover have "cached G' hPid = cached G2 hPid" "IsNewProcess G' hPid = IsNewProcess G2 hPid"
    by (rule cache_same [OF rep(3)])+
  moreover have "logs G ?b rid (KeQuerySystemTimePrecise K) ?cs G'"
    using rep(4) logs_cong [of G G2 G' G'] f1(2) add(4) by simp
  ultimately show thesis
    using that [of PI G' freed n] PI w0 add(3,5,6) f1(3) follows_trans [OF f2 rep(2)] by (simp add: ci lk mm)
qed

section \<open>Termination\<close>

definition termination_verdict :: "rtl \<Rightarrow> GC \<Rightarrow> PROC_INFO \<Rightarrow> inspection" where
  "termination_verdict R G PI = decide_log (rules_hit (process_holds R PI) G PTINC)
     (rules_hit (process_holds R PI) G PTEXC)"

text \<open>What a process is to the rules, and what it shows in the log, is its view in the cache.\<close>

lemma view_verdicts [simp]:
  "termination_verdict R G (pi_view PI) = termination_verdict R G PI"
  "creation_verdict R G (pi_view PI) = creation_verdict R G PI"
proof -
  have "process_holds R (pi_view PI) = process_holds R PI"
    by (rule ext) (simp add: process_holds_def pi_view_def)
  then show "termination_verdict R G (pi_view PI) = termination_verdict R G PI"
    "creation_verdict R G (pi_view PI) = creation_verdict R G PI"
    by (simp_all add: termination_verdict_def creation_verdict_def)
qed

lemma termination_calls_ok:
  assumes "found \<Longrightarrow> wf_proc (deref q)"
  shows "list_all call_ok (termination_calls K hPid found (Ptr a (deref q)) v)"
    "calls_bytes (termination_calls K hPid found (Ptr a (deref q)) v) \<le> 1000000"
proof -
  have pc: "list_all call_ok (if found then PCacheLogEntries (Ptr a (deref q)) False else [])"
    "list_all small_call (if found then PCacheLogEntries (Ptr a (deref q)) False else [])"
    "length (if found then PCacheLogEntries (Ptr a (deref q)) False else []) \<le> 9"
    using PCache_ok [of "deref q" a False] assms by auto
  show ok: "list_all call_ok (termination_calls K hPid found (Ptr a (deref q)) v)"
    using pc(1) by (simp add: termination_calls_def)
  have "list_all small_call (termination_calls K hPid found (Ptr a (deref q)) v)"
    "length (termination_calls K hPid found (Ptr a (deref q)) v) \<le> 14"
    using pc(2,3) by (simp_all add: termination_calls_def)
  then show "calls_bytes (termination_calls K hPid found (Ptr a (deref q)) v) \<le> 1000000"
    using small_calls_bytes [OF ok] by simp
qed

text \<open>A client that ends gives its place up.\<close>

definition client_gone :: "u64 \<Rightarrow> GC \<Rightarrow> GC" where
  "client_gone hPid G = (if hPid = clientpid G then G\<lparr>clientpid := - 1\<rparr> else G)"

lemma driver_ok_client [simp]: "driver_ok (G\<lparr>clientpid := c\<rparr>) = driver_ok G"
  by (simp add: driver_ok_def config_ok_def cache_ok_def procs_ok_def log_inv_def)

lemma client_gone_simps [simp]:
  "driver_ok (client_gone hPid G) = driver_ok G" "gc_L (client_gone hPid G) = gc_L G"
  "NEW_PROCS (client_gone hPid G) = NEW_PROCS G" "KEEP_EXCLUDES (client_gone hPid G) = KEEP_EXCLUDES G"
  "rules_hit h (client_gone hPid G) l = rules_hit h G l" "fst (mm_id (client_gone hPid G)) = fst (mm_id G)"
  "clientpid (client_gone hPid G) = (if hPid = clientpid G then - 1 else clientpid G)"
  by (simp_all add: client_gone_def rules_hit_def mm_id_def Let_def)

text \<open>The verdict on what the exit callback sees, which it has tagged; and the end of the callback: the slot
  it holds is unmarked, and the process is purged.\<close>

lemma exit_verdict:
  assumes "PI = (case cached G p of None \<Rightarrow> zero_pi | Some w \<Rightarrow> w)"
    and "case cached G p of None \<Rightarrow> u = zero_pi\<lparr>pi_tag := PHOEBE\<rparr> | Some w \<Rightarrow> pi_view u = w"
  shows "termination_verdict R G u = termination_verdict R G PI"
proof (cases "cached G p")
  case None
  have "process_holds R (zero_pi\<lparr>pi_tag := PHOEBE\<rparr>) = process_holds R zero_pi"
    by (rule ext) (simp add: process_holds_def)
  then show ?thesis using None assms by (simp add: termination_verdict_def)
next
  case (Some w)
  then show ?thesis using assms view_verdicts(1) [of R G u] by simp
qed

lemma release_purge:
  assumes "driver_ok G" "slot_ok slot" "slot = GetCachedProcess G p"
  obtains G' freed where "PurgeCachedProcess (release slot G) p = Inr (G', freed)" "follows G G'" "gc_L G' = gc_L G"
    "cached G' p = None" "\<And>r. r \<noteq> p \<Longrightarrow> cached G' r = cached G r"
proof -
  let ?G = "release slot G"
  note rel = follows_release [OF assms(1,2)]
  then have ok: "driver_ok ?G" by (simp add: follows_def)
  note same = release_same [OF assms(1,2)]
  obtain G' freed where purge: "PurgeCachedProcess ?G p = Inr (G', freed)" "follows ?G G'" "gc_L G' = gc_L ?G"
    "\<And>r. r \<noteq> p \<Longrightarrow> cached G' r = cached ?G r"
    "\<And>i. GetCachedProcess ?G p = Some i \<Longrightarrow> \<not> pc_InUse (NEW_PROCS ?G ! i) \<Longrightarrow> cached G' p = None"
    "cached ?G p = None \<Longrightarrow> cached G' p = None"
    using follows_purge [OF ok] by blast
  have "cached G' p = None"
  proof (cases slot)
    case None
    then have "cached G p = None" using assms(3) by (simp add: cached_def)
    then show ?thesis using purge(6) same(1) by simp
  next
    case (Some i)
    then have "GetCachedProcess ?G p = Some i" using same(2) assms(3) by simp
    moreover have "\<not> pc_InUse (NEW_PROCS ?G ! i)"
      using Some assms(2) driver_okD(6) [OF assms(1)] by (simp add: release_def set_in_use_def nth_set_slot)
    ultimately show ?thesis by (rule purge(5))
  qed
  then show thesis
    using that purge(1,3,4) follows_trans [OF rel purge(2)] same(1,3) by simp
qed

lemma process_terminated_spec:
  assumes ok: "driver_ok G" and pool: "pool_ample R"
    and curp: "VALID_PAGE (Ptr (IoGetCurrentProcess K) ())"
    and PI: "PI = (case cached G hPid of None \<Rightarrow> zero_pi | Some w \<Rightarrow> w)"
  obtains q G' freed where
    "process_terminated R K G hPid = Inr (G', freed)" "follows (client_gone hPid G) G'"
    "cached G' hPid = None" "\<And>r. r \<noteq> hPid \<Longrightarrow> cached G' r = cached G r"
    "cached G hPid \<noteq> None \<Longrightarrow> q \<noteq> Null \<and> pi_tag (deref q) = PHOEBE \<and> source_records (deref q) = source_records PI \<and> wf_proc (deref q)"
    "logs G (\<not> in_skip (termination_verdict R G PI) \<or> KEEP_EXCLUDES G) (fst (mm_id G)) (PsGetProcessExitTime K)
       (termination_calls K hPid (cached G hPid \<noteq> None) q (termination_verdict R G PI)) G'"
proof -
  let ?G = "client_gone hPid G"
  obtain rid G1 where mm: "mm_id ?G = (rid, G1)" by force
  have rid: "fst (mm_id G) = rid" using mm client_gone_simps(6) [of hPid G] by simp
  have f1: "follows ?G G1" "gc_L G1 = gc_L G" "NEW_PROCS G1 = NEW_PROCS G"
    using follows_id [of ?G] ok mm by (auto simp: mm_id_def Let_def client_gone_def split: if_splits)
  have ok1: "driver_ok G1" using f1 by (simp add: follows_def)
  have same: "cached G1 r = cached G r" "GetCachedProcess G1 r = GetCachedProcess G r" for r by (rule cache_same [OF f1(3)])+
  obtain slot found q0 G2 where find: "find_process G1 hPid (local zero_pi) = (slot, found, q0, G2)"
    using prod_cases4 by blast
  note spec = find_process_spec [OF ok1 find]
  have f2: "follows ?G G2" using spec follows_trans [OF f1(1)] by blast
  let ?q = "Ptr (addr q0) ((deref q0)\<lparr>pi_tag := PHOEBE\<rparr>)"
  have ptr: "q0 = Ptr (addr q0) (deref q0)" using spec by (cases q0) (auto simp: found_ok_def split: option.splits)
  have hit: "found = (cached G hPid \<noteq> None)" "slot = None \<longleftrightarrow> cached G hPid = None"
    using spec same(1) by (auto split: option.splits)
  have view: "case cached G hPid of None \<Rightarrow> deref ?q = zero_pi\<lparr>pi_tag := PHOEBE\<rparr> | Some w \<Rightarrow> pi_view (deref ?q) = w"
    using spec same(1) by (auto simp: pi_view_def split: option.splits)
  note verdict = exit_verdict [OF PI view, of R]
  let ?v = "termination_verdict R G PI"
  have frame: "event_frame ?G G2" using f2 by (simp add: follows_def)
  have insp: "InspectProcessTermination R G2 (deref ?q) = Inr ?v"
    using f2 termination_decides [of G2 R "deref ?q"] rules_hit_frame [OF frame] verdict
    by (simp add: follows_def termination_verdict_def config_ok_rules driver_okD)
  have keep: "KEEP_EXCLUDES G2 = KEEP_EXCLUDES G" using event_frame_fields [OF frame] by simp
  have wf: "wf_proc (deref ?q)" if found
    using spec that by (auto simp: found_ok_def wf_proc_def)
  let ?cs = "termination_calls K hPid found ?q ?v"
  let ?b = "\<not> in_skip ?v \<or> KEEP_EXCLUDES G"
  obtain G3 where rep: "(if ?b then log_all R (MM_Genrand K) 0 rid (PsGetProcessExitTime K) ?cs G2 else Inr G2) = Inr G3"
    "follows G2 G3" "NEW_PROCS G3 = NEW_PROCS G2" "logs G2 ?b rid (PsGetProcessExitTime K) ?cs G3"
    using report_spec [of G2 R ?b ?cs "MM_Genrand K" 0 rid "PsGetProcessExitTime K"]
      termination_calls_ok(1) [of found "?q" K hPid "addr q0" ?v] f2 pool wf by (auto simp: follows_def)
  have "report_termination R K G hPid =
      andthen (if ?b then log_all R (MM_Genrand K) 0 rid (PsGetProcessExitTime K) ?cs G2 else Inr G2) (\<lambda>G. Inr (slot, G))"
    using curp unfolding report_termination_def Let_def client_gone_def [symmetric] mm
    by (simp add: find insp [unfolded ptr.sel] keep)
  then have run: "process_terminated R K G hPid = PurgeCachedProcess (release slot G3) hPid"
    unfolding rep(1) by (simp add: process_terminated_def)
  have ok3: "driver_ok G3" using rep(2) by (simp add: follows_def)
  have cache: "cached G3 r = cached G r" "GetCachedProcess G3 r = GetCachedProcess G r" for r
    using cache_same(2,3) [OF rep(3), of r] find_same [OF ok1 find, of r] same [of r] by simp_all
  have slot: "slot_ok slot" using spec found_ok_slot by blast
  have held: "slot = GetCachedProcess G3 hPid" using spec same(2) cache(2) by simp
  obtain G' freed where purge: "PurgeCachedProcess (release slot G3) hPid = Inr (G', freed)" "follows G3 G'" "gc_L G' = gc_L G3"
    "cached G' hPid = None" "\<And>r. r \<noteq> hPid \<Longrightarrow> cached G' r = cached G3 r"
    by (rule release_purge [OF ok3 slot held]) (rule that)
  have "cached G hPid \<noteq> None \<Longrightarrow> pi_view (deref ?q) = PI" using view by (auto simp: PI)
  then have rec: "cached G hPid \<noteq> None \<Longrightarrow> ?q \<noteq> Null \<and> pi_tag (deref ?q) = PHOEBE \<and> source_records (deref ?q) = source_records PI
      \<and> wf_proc (deref ?q)"
    using records_view(1) [of "deref ?q"] wf hit(1) by simp
  have logs: "logs G ?b rid (PsGetProcessExitTime K) ?cs G'"
    using rep(4) logs_cong [of G G2 G' G3] f1(2) spec purge(3) by simp
  have "follows ?G G'" by (rule follows_trans [OF f2 follows_trans [OF rep(2) purge(2)]])
  from that [of G' freed ?q, OF _ this purge(4) _ rec] show thesis
    using run purge(1,5) cache(1) logs hit(1) rid by simp
qed

section \<open>Threads\<close>

text \<open>The tag is written into the slot that holds the information, if there is one.\<close>

lemma tag_info_spec:
  assumes "driver_ok G" "slot_ok slot" "q \<noteq> Null" "wf_proc (deref q)"
  obtains G' where "tag_info slot q G = Inr (Ptr (addr q) ((deref q)\<lparr>pi_tag := PHOEBE\<rparr>), G')" "follows G G'"
    "gc_L G' = gc_L G"
proof -
  let ?q = "Ptr (addr q) ((deref q)\<lparr>pi_tag := PHOEBE\<rparr>)"
  have wf: "wf_cached (deref ?q)" using assms(4) by (simp add: wf_cached_def wf_proc_def)
  show thesis
  proof (cases slot)
    case None
    then show ?thesis using that [of G] assms by (cases q) (simp_all add: tag_info_def follows_refl)
  next
    case (Some i)
    let ?s = "(NEW_PROCS G ! i)\<lparr>pc_PI := ?q\<rparr>"
    have i: "i < 32000" using assms(2) Some by simp
    note ok = driver_okD(2,6) [OF assms(1)]
    have "wf_pi (deref ?q)" using wf by (simp add: wf_cached_def wf_proc_pi)
    moreover have "wf_slot (NEW_PROCS G ! i)" using ok i by (simp add: cache_ok_def)
    ultimately have "wf_slot ?s" by (simp add: wf_slot_def)
    moreover have "\<forall>j < 32000. j \<noteq> i \<longrightarrow> pc_p (NEW_PROCS G ! j) \<noteq> pc_p ?s" if "pc_p ?s \<noteq> 0"
      using ok(1) i that by (auto simp: cache_ok_def)
    ultimately have "cache_ok (set_slot i ?s G)" by (rule set_slot_ok [OF ok(1) i])
    then have "follows G (set_slot i ?s G)" using wf by (intro follows_slot [OF assms(1)]) simp_all
    then show ?thesis
      using that [of "set_slot i ?s G"] that [of G] Some assms(1,3)
      by (cases q; cases "pc_PI (NEW_PROCS G ! i) = q") (simp_all add: tag_info_def follows_refl Let_def)
  qed
qed

lemma found_ok_tag: "found_ok slot found q \<Longrightarrow> q \<noteq> Null \<Longrightarrow> found_ok slot found (Ptr (addr q) ((deref q)\<lparr>pi_tag := t\<rparr>))"
  by (cases q) (auto simp: found_ok_def wf_proc_def)

lemma PCache_found_ok:
  assumes "found_ok slot found q"
  shows "list_all call_ok (if found then PCacheLogEntries q target else [])"
  using assms PCache_ok [of "deref q" "addr q" target] by (cases q) (auto simp: found_ok_def)

lemma remote_thread_sound:
  assumes ok: "driver_ok G" and env: "pool_ample R" "wf_kernel K"
  obtains G' freed where "remote_thread R K G rid hProcess hThread = Inr (G', freed)" "follows G G'"
proof -
  obtain status targp where lk: "PsLookupProcessByProcessId K hProcess = (status, targp)" by force
  show thesis
  proof (cases "\<not> NT_SUCCESS status \<or> IoGetCurrentProcess K = 0")
    case True
    then show ?thesis using that [of G "[]"] ok by (simp add: remote_thread_def lk follows_refl)
  next
    case False
    obtain tslot tf tq G1 where t: "find_target R K G hProcess targp = (tslot, tf, tq, G1)" using prod_cases4 by blast
    note ts = find_target_spec [OF ok env(2) t]
    then have ok1: "driver_ok G1" by (simp add: follows_def)
    obtain slot f q G2 where s: "find_or_probe R K G1 (PsGetCurrentProcessId K) (IoGetCurrentProcess K) = (slot, f, q, G2)"
      using prod_cases4 by blast
    note ss = find_or_probe_spec [OF ok1 env(2) s]
    then have ok2: "driver_ok G2" by (simp add: follows_def)
    have slots: "slot_ok slot" "slot_ok tslot" using ss ts by (simp_all add: found_ok_def)
    let ?q = "Ptr (addr q) ((deref q)\<lparr>pi_tag := PHOEBE\<rparr>)" let ?tq = "Ptr (addr tq) ((deref tq)\<lparr>pi_tag := PHOEBE\<rparr>)"
    obtain G3 where g3: "tag_info slot q G2 = Inr (?q, G3)" "follows G2 G3"
      using tag_info_spec [OF ok2 slots(1)] ss by blast
    then have ok3: "driver_ok G3" by (simp add: follows_def)
    obtain G4 where g4: "tag_info tslot tq G3 = Inr (?tq, G4)" "follows G3 G4"
      using tag_info_spec [OF ok3 slots(2)] ts by blast
    then have ok4: "driver_ok G4" by (simp add: follows_def)
    let ?TI = "\<lparr>tc_PI = ?q, tc_TPI = ?tq, tc_tag = IAPETUS\<rparr>"
    obtain v where v: "InspectThreadCreation R G4 ?TI = Inr v"
      using InspectThreadCreation_total driver_okD(1) [OF ok4] by blast
    have fq: "found_ok slot f ?q" "found_ok tslot tf ?tq" using ss ts found_ok_tag by simp_all
    let ?cs = "thread_calls K hProcess hThread f tf ?TI v"
    have "list_all call_ok ?cs"
      using PCache_found_ok [OF fq(1), of False] PCache_found_ok [OF fq(2), of True]
      by (cases f; cases tf) (simp_all add: thread_calls_def)
    then obtain G5 where g5: "(if \<not> in_skip v \<or> KEEP_EXCLUDES G4
        then log_all R (MM_Genrand K) 0 rid (KeQuerySystemTimePrecise K) ?cs G4 else Inr G4) = Inr G5" "follows G4 G5"
      by (rule report_spec [OF ok4 env(1)])
    obtain fr tfr where d: "discard slot f ?q = Inr fr" "discard tslot tf ?tq = Inr tfr"
      using discard_total [OF fq(1)] discard_total [OF fq(2)] by blast
    have ok5: "driver_ok G5" using g5 by (simp add: follows_def)
    note r1 = follows_release [OF ok5 slots(1)]
    then have r2: "follows (release slot G5) (release tslot (release slot G5))"
      by (intro follows_release slots) (simp add: follows_def)
    have f: "follows G G1" "follows G1 G2" using ts ss by simp_all
    note f(1) also note f(2) also note g3(2) also note g4(2) also note g5(2) also note r1 also note r2
    finally have "follows G (release tslot (release slot G5))" .
    then show ?thesis
      using that False by (simp add: remote_thread_def lk t s g3(1) g4(1) v g5(1) d Let_def del: disj_not1)
  qed
qed

lemma thread_notify_sound:
  assumes ok: "driver_ok G" and env: "pool_ample R" "wf_kernel K"
  obtains G' freed where "ThreadNotifyCallbackRoutine R K G hProcess hThread bCreate = Inr (G', freed)" "follows G G'"
proof (cases "bCreate \<and> IsNewProcess G hProcess")
  case True
  let ?G = "RemoveNewProcessStatus G hProcess"
  have "follows G ?G"
  proof (cases "GetCachedProcess G hProcess")
    case None
    then show ?thesis using ok by (simp add: RemoveNewProcessStatus_def GetCachedProcess_def follows_refl)
  next
    case (Some i)
    let ?s = "(NEW_PROCS G ! i)\<lparr>pc_New := False\<rparr>"
    note c = cached_slot [OF ok Some] and cok = driver_okD(2) [OF ok]
    have "wf_slot (NEW_PROCS G ! i)" using c(1) cok by (simp add: cache_ok_def)
    then have "wf_slot ?s" by (simp add: wf_slot_def)
    moreover have "\<forall>j < 32000. j \<noteq> i \<longrightarrow> pc_p (NEW_PROCS G ! j) \<noteq> pc_p ?s" if "pc_p ?s \<noteq> 0"
      using cok c(1) that by (auto simp: cache_ok_def)
    ultimately have "cache_ok (set_slot i ?s G)" by (rule set_slot_ok [OF cok c(1)])
    then have "follows G (set_slot i ?s G)" using c by (intro follows_slot [OF ok]) simp_all
    moreover have "?G = set_slot i ?s G" using Some by (simp add: RemoveNewProcessStatus_def GetCachedProcess_def)
    ultimately show ?thesis by simp
  qed
  then show thesis using that [of ?G "[]"] True by (simp add: ThreadNotifyCallbackRoutine_def)
next
  case False
  obtain rid G1 where mm: "mm_id G = (rid, G1)" by force
  have f1: "follows G G1" using follows_id [OF ok] mm by simp
  then have "driver_ok G1" by (simp add: follows_def)
  then obtain G' freed where "remote_thread R K G1 rid hProcess hThread = Inr (G', freed)" "follows G1 G'"
    using remote_thread_sound [OF _ env] by blast
  moreover from this have "follows G G'" using follows_trans [OF f1] by blast
  moreover have "ThreadNotifyCallbackRoutine R K G hProcess hThread bCreate \<in>
      {Inr (G, []), Inr (G1, []), remote_thread R K G1 rid hProcess hThread}"
    using False by (simp add: ThreadNotifyCallbackRoutine_def mm Let_def)
  ultimately show thesis
    using that f1 follows_refl [OF ok] by auto
qed

end
