(* ===== verification/MM_Event_Soundness.thy ===== *)
theory MM_Event_Soundness
  imports MM_Process_Soundness
begin

text \<open>
  The callbacks for images and for process handles on a sound state: each returns, unless the kernel asks
  for a handle to a protected client, and follows the state it started from; the rights of a handle are only
  ever cut down.
\<close>

section \<open>Images\<close>

text \<open>What the file systems answer about names is well formed.\<close>

definition wf_file_names :: "kernel \<Rightarrow> bool" where
  "wf_file_names K \<longleftrightarrow> (\<forall>f. wf_str (snd (FltGetFileNameInformationUnsafe K f))
     \<and> wf_str (snd (IoQueryFileDosDeviceName K f)))"

lemma wf_empty [simp]: "wf_str (local empty_ustr)"
  by (simp add: wf_str_def wf_ustr_def empty_ustr_def)

lemma image_name_wf:
  assumes "wf_file_names K" "wf_str (ie_FullImageName ev)"
  shows "wf_str (snd (image_name R K ev))"
proof -
  have "wf_str (snd (FltGetFileNameInformationUnsafe K (ie_FileObject ev)))"
    "wf_str (snd (IoQueryFileDosDeviceName K (ie_FileObject ev)))"
    using assms(1) by (simp_all add: wf_file_names_def)
  then show ?thesis
    using assms(2) by (auto simp: image_name_def Let_def split: prod.splits intro!: mm_intros)
qed

lemma call_ok_str_when: "wf_str s \<Longrightarrow> (b \<Longrightarrow> s \<noteq> Null) \<Longrightarrow> call_ok (log_when b (log_str ty s))"
  by (cases s) (auto simp: wf_str_def intro!: mm_intros)

text \<open>A process that is looked up or else probed: the rules and the log use the information only with its tag,
  which the cache has and the probe does not set. So only what the cache knows counts.\<close>

definition known_process :: "PROC_INFO option \<Rightarrow> PROC_INFO ptr \<Rightarrow> bool" where
  "known_process W q \<longleftrightarrow> q \<noteq> Null \<and> wf_proc (deref q) \<and> (case W of None \<Rightarrow> pi_tag (deref q) \<noteq> PHOEBE
     | Some w \<Rightarrow> pi_view (deref q) = w \<and> pi_tag (deref q) = PHOEBE)"

definition known :: "PROC_INFO option \<Rightarrow> PROC_INFO ptr" where
  "known W = local (case W of None \<Rightarrow> zero_pi | Some w \<Rightarrow> w)"

lemma known_unread [simp]: "known_process None (local zero_pi)"
  by (simp add: known_process_def) (simp add: zero_pi_def)

lemma find_or_probe_known:
  assumes "driver_ok G" "wf_kernel K" "find_or_probe R K G p proc = (slot, found, q, G')"
  shows "known_process (cached G p) q" "cached G' r = cached G r" "cached G p \<noteq> None \<Longrightarrow> found"
proof -
  note spec = find_or_probe_spec [OF assms]
  obtain s f q' G1 where find: "find_process G p (local zero_pi) = (s, f, q', G1)" using prod_cases4 by blast
  note fs = find_process_spec [OF assms(1) find]
  have "known_process (cached G p) q \<and> cached G' r = cached G r \<and> (cached G p \<noteq> None \<longrightarrow> found)"
  proof (cases s)
    case None
    then have none: "cached G p = None" using fs by (auto split: option.splits)
    obtain f PI where pr: "processInfoInit R (process_peb K proc) proc zero_pi Null False = (f, PI)" by force
    then have "pi_tag PI = pi_tag zero_pi"
      by (cases "process_peb K proc") (auto simp: processInfoInit_def Let_def split: if_splits)
    then have "pi_tag PI \<noteq> PHOEBE" by (simp add: zero_pi_def)
    then show ?thesis
      using assms(3) spec None none find pr by (auto simp: find_or_probe_def probe_def known_process_def)
  next
    case (Some i)
    then have "(slot, found, q, G') = (s, f, q', G1)" using assms(3) find by (simp add: find_or_probe_def)
    then show ?thesis
      using fs spec Some find_same(1) [OF assms(1) find, of r] by (auto simp: known_process_def split: option.splits)
  qed
  then show "known_process (cached G p) q" "cached G' r = cached G r" "cached G p \<noteq> None \<Longrightarrow> found" by simp_all
qed

lemma known_calls:
  assumes "known_process W q" "W \<noteq> None \<Longrightarrow> found"
  shows "logged (if found then PCacheLogEntries q False else []) = (case W of None \<Rightarrow> [] | Some w \<Rightarrow> source_records w)"
  using assms by (cases q; cases W) (auto simp: known_process_def logged_PCache)

lemma known_pred:
  assumes "known_process W q"
  shows "proc_pred R q ImageFileName e = proc_pred R (known W) ImageFileName e"
    "proc_pred R q ParentImageFileName e = proc_pred R (known W) ParentImageFileName e"
    "proc_pred R q CommandLine e = proc_pred R (known W) CommandLine e"
    "proc_pred R q ParentCommandLine e = proc_pred R (known W) ParentCommandLine e"
    "proc_pred R q WindowTitle e = proc_pred R (known W) WindowTitle e"
    "proc_pred R q CWD e = proc_pred R (known W) CWD e"
  using assms
  by (cases q; auto simp: known_process_def known_def proc_pred_def pi_view_def MM_TYPE_CHECK_def zero_pi_def
      split: option.splits)+

definition image_verdict :: "rtl \<Rightarrow> GC \<Rightarrow> MODULE_INFO \<Rightarrow> inspection" where
  "image_verdict R G MI = decide_log (rules_hit (module_holds R MI) G MINC) (rules_hit (module_holds R MI) G MEXC)"

definition image_event :: "image_event \<Rightarrow> UNICODE_STRING ptr \<Rightarrow> PROC_INFO ptr \<Rightarrow> MODULE_INFO" where
  "image_event ev img q = \<lparr>ImageLoaded = img, ImageProperties = ie_Properties ev, mi_PI = q, mi_tag = MAKEMAKE\<rparr>"

lemma image_verdict_known:
  assumes "follows G H" "known_process W q"
  shows "InspectImageloadEvent R H (image_event ev img q) = Inr (image_verdict R G (image_event ev img (known W)))"
proof -
  have "module_holds R (image_event ev img q) = module_holds R (image_event ev img (known W))"
    by (rule ext) (simp add: module_holds_def image_event_def known_pred [OF assms(2)])
  then show ?thesis
    using assms(1) imageload_decides [of H R] rules_hit_frame [of G H]
    by (simp add: follows_def image_verdict_def config_ok_rules driver_okD)
qed

lemma image_load_sound:
  assumes ok: "driver_ok G" and env: "pool_ample R" "wf_kernel K" "wf_file_names K" "wf_str (ie_FullImageName ev)"
    and W: "W = (if 5 < (if hProcess = 0 then 4 else hProcess) \<and> NT_SUCCESS (fst (PsLookupProcessByProcessId K hProcess))
      then cached G hProcess else None)"
    and im: "image_name R K ev = (obInfo, img)"
    and verdict: "v = image_verdict R G (image_event ev img (known W))"
  obtains G' found q fr where
    "ImageLoadCallbackRoutine R K G hProcess ev = Inr (G',
      (case obInfo of Ptr a _ \<Rightarrow> [a] | Null \<Rightarrow> snd (DeallocateAndDestroyUnicodeString img)) @ fr)"
    "follows G G'" "\<And>r. cached G' r = cached G r" "known_process W q" "W \<noteq> None \<Longrightarrow> found"
    "logs G True (fst (mm_id G)) (KeQuerySystemTimePrecise K)
      ((if \<not> in_skip v \<or> KEEP_EXCLUDES G
        then image_calls (if hProcess = 0 then 4 else hProcess) found (image_event ev img q) v else [])
       @ [log_u16 EVENT_END IMAGE_LOADED]) G'"
proof -
  define pid where "pid = (if hProcess = 0 then 4 else hProcess)"
  define rid where "rid = fst (mm_id G)"
  obtain G1 where mm: "mm_id G = (rid, G1)" unfolding rid_def by (cases "mm_id G") simp
  have f1: "follows G G1" "gc_L G1 = gc_L G" "NEW_PROCS G1 = NEW_PROCS G"
    using follows_id [OF ok] mm by (auto simp: mm_id_def Let_def split: if_splits)
  then have ok1: "driver_ok G1" by (simp add: follows_def)
  have same1: "cached G1 r = cached G r" for r by (rule cache_same [OF f1(3)])
  have img: "wf_str img" using image_name_wf [OF env(3,4), of R] im by simp
  obtain status targp where lk: "PsLookupProcessByProcessId K hProcess = (status, targp)" by force
  define look where "look = (if 5 < pid \<and> NT_SUCCESS status then find_or_probe R K G1 hProcess targp
      else (None, False, local zero_pi, G1))"
  obtain slot found q G2 where l: "look = (slot, found, q, G2)" using prod_cases4 by blast
  have "follows G1 G2 \<and> found_ok slot found q \<and> gc_L G2 = gc_L G \<and> known_process W q \<and> (W \<noteq> None \<longrightarrow> found)
    \<and> (\<forall>r. cached G2 r = cached G r)"
  proof (cases "5 < pid \<and> NT_SUCCESS status")
    case True
    then have one: "find_or_probe R K G1 hProcess targp = (slot, found, q, G2)" using l by (simp add: look_def)
    have "W = cached G1 hProcess" using True by (simp add: W lk pid_def same1)
    then show ?thesis
      using find_or_probe_spec [OF ok1 env(2) one] find_or_probe_known [OF ok1 env(2) one] f1(2) same1 by simp
  next
    case False
    then have "W = None" by (auto simp: W lk pid_def)
    then show ?thesis using l False follows_refl [OF ok1] f1(2) same1 by (auto simp: look_def found_ok_def)
  qed
  then have ls: "follows G1 G2" "found_ok slot found q" "gc_L G2 = gc_L G" "known_process W q" "W \<noteq> None \<Longrightarrow> found"
    "cached G2 r = cached G r" for r by blast+
  have f2: "follows G G2" using follows_trans [OF f1(1) ls(1)] .
  then have ok2: "driver_ok G2" "KEEP_EXCLUDES G2 = KEEP_EXCLUDES G" by (simp_all add: follows_def event_frame_fields)
  have v: "InspectImageloadEvent R G2 (image_event ev img q) = Inr v"
    unfolding verdict by (rule image_verdict_known [OF f2 ls(4)])
  let ?cs = "(if \<not> in_skip v \<or> KEEP_EXCLUDES G then image_calls pid found (image_event ev img q) v else [])
    @ [log_u16 EVENT_END IMAGE_LOADED]"
  have "list_all call_ok (image_calls pid found (image_event ev img q) v)"
    using PCache_found_ok [OF ls(2), of False] call_ok_str_when [OF img]
    by (cases found) (simp_all add: image_calls_def image_event_def Let_def)
  then have cs: "True \<Longrightarrow> list_all call_ok ?cs" by simp
  obtain G3 where g3: "log_all R (MM_Genrand K) 0 rid (KeQuerySystemTimePrecise K) ?cs G2 = Inr G3" "follows G2 G3"
    "NEW_PROCS G3 = NEW_PROCS G2" "logs G2 True rid (KeQuerySystemTimePrecise K) ?cs G3"
    using report_spec [OF ok2(1) env(1), of True ?cs "MM_Genrand K" 0 rid "KeQuerySystemTimePrecise K"] cs by auto
  obtain fr where d: "discard slot found q = Inr fr" using discard_total [OF ls(2)] by blast
  have ok3: "driver_ok G3" using g3 by (simp add: follows_def)
  note slot = found_ok_slot [OF ls(2)]
  have f: "follows G (release slot G3)"
    using follows_trans [OF f2 follows_trans [OF g3(2) follows_release [OF ok3 slot]]] .
  have c: "cached (release slot G3) r = cached G r" for r
    using release_same(1) [OF ok3 slot] cache_same(2) [OF g3(3)] ls(6) by metis
  have log: "logs G True rid (KeQuerySystemTimePrecise K) ?cs (release slot G3)"
    using g3(4) logs_cong [of G G2 "release slot G3" G3] ls(3) release_same(3) [OF ok3 slot] by simp
  have "ImageLoadCallbackRoutine R K G hProcess ev = Inr (release slot G3,
      (case obInfo of Ptr a _ \<Rightarrow> [a] | Null \<Rightarrow> snd (DeallocateAndDestroyUnicodeString img)) @ fr)"
    unfolding ImageLoadCallbackRoutine_def Let_def pid_def [symmetric] mm prod.case im lk look_def [symmetric] l
      image_event_def [symmetric] v andthen_simps ok2(2) g3(1) d ..
  from that [OF this f c ls(4,5) log [unfolded pid_def rid_def]] show thesis .
qed

section \<open>Process handles\<close>

text \<open>The masks of an operation are only ever intersected with something.\<close>

definition masked :: "ob_pre_info \<Rightarrow> ob_pre_info \<Rightarrow> bool" where
  "masked ob ob' \<longleftrightarrow> (\<exists>m. obi_DesiredAccess ob' = obi_DesiredAccess ob AND m
     \<and> obi_OriginalDesiredAccess ob' = obi_OriginalDesiredAccess ob AND m)"

lemma masked_refl: "masked ob ob"
  unfolding masked_def by (rule exI [of _ "- 1"]) simp

lemma masked_trans: "masked ob ob' \<Longrightarrow> masked ob' ob'' \<Longrightarrow> masked ob ob''"
  unfolding masked_def by (elim exE conjE) (rule_tac x = "m AND ma" in exI, simp add: and.assoc)

lemma masked_mask: "masked ob (mask_access m ob)" "masked ob (ob\<lparr>obi_Flags := f\<rparr>)"
  unfolding masked_def by (auto simp: mask_access_def intro: exI [of _ m] exI [of _ "- 1"])

lemma masked_verdict: "masked ob (apply_verdict v ob)"
  by (simp add: apply_verdict_def masked_mask masked_refl)

lemma ob_event_TPI [simp]: "ob_TPI (ob_event ob OB) = ob_TPI OB" "ob_PI (ob_event ob OB) = ob_PI OB"
  by (simp_all add: ob_event_def)

lemma inspect_access_sound:
  assumes ok: "driver_ok G" and env: "pool_ample R" "wf_kernel K"
    and target: "found_ok tslot tfound (ob_TPI OB)" "ob_TPI OB \<noteq> Null"
  obtains G' freed v where "inspect_access R K G rid tpid ob OB tslot tfound = Inr (apply_verdict v ob, G', freed)"
    "follows G G'"
proof -
  define look where "look = (if IoGetCurrentProcess K \<noteq> 0
      then find_or_probe R K G (PsGetCurrentProcessId K) (IoGetCurrentProcess K) else (None, False, ob_PI OB, G))"
  obtain slot found q G1 where l: "look = (slot, found, q, G1)" using prod_cases4 by blast
  have ls: "follows G G1" "found_ok slot found q"
    using l find_or_probe_spec [OF ok env(2)] follows_refl [OF ok]
    by (auto simp: look_def found_ok_def split: if_splits)
  then have ok1: "driver_ok G1" by (simp add: follows_def)
  let ?OB = "OB\<lparr>ob_PI := q, ob_tag := OBERON\<rparr>"
  have "wf_obproc ?OB" using target(2) by (simp add: wf_obproc_def)
  then obtain v where v: "InspectObjectAccessEvent R G1 ?OB = Inr v"
    using object_decides config_ok_rules [OF driver_okD(1) [OF ok1]] by blast
  define ob' where "ob' = apply_verdict (in_status v) ob"
  define OB' where "OB' = (if in_status v \<noteq> 0 then ob_event ob' ?OB else ?OB)"
  have OB': "ob_PI OB' = q" "ob_TPI OB' = ob_TPI OB" by (simp_all add: OB'_def)
  define pid where "pid = (if PsGetCurrentProcessId K = 0 then 4 else PsGetCurrentProcessId K)"
  let ?cs = "object_calls pid tpid found tfound OB' v"
  let ?b = "\<not> in_skip v \<or> KEEP_EXCLUDES G1"
  have "list_all call_ok ?cs"
    using PCache_found_ok [OF ls(2), of False] PCache_found_ok [OF target(1), of True] OB'
    by (cases found; cases tfound) (simp_all add: object_calls_def)
  then obtain G2 where g2: "(if ?b then log_all R (MM_Genrand K) 0 rid (KeQuerySystemTimePrecise K) ?cs G1 else Inr G1)
      = Inr G2" "follows G1 G2"
    by (rule report_spec [OF ok1 env(1)])
  obtain fr tfr where d: "discard slot found q = Inr fr" "discard tslot tfound (ob_TPI OB) = Inr tfr"
    using discard_total [OF ls(2)] discard_total [OF target(1)] by blast
  have ok2: "driver_ok G2" using g2 by (simp add: follows_def)
  note r1 = follows_release [OF ok2 found_ok_slot [OF ls(2)]]
  then have r2: "follows (release slot G2) (release tslot (release slot G2))"
    by (intro follows_release found_ok_slot [OF target(1)]) (simp add: follows_def)
  note ls(1) also note g2(2) also note r1 also note r2
  finally have f: "follows G (release tslot (release slot G2))" .
  have "inspect_access R K G rid tpid ob OB tslot tfound
      = Inr (ob', release tslot (release slot G2), fr @ tfr)"
    unfolding inspect_access_def Let_def look_def [symmetric] l prod.case v andthen_simps
      ob'_def [symmetric] OB'_def [symmetric] pid_def [symmetric] g2(1) OB' d ..
  from that [OF this [unfolded ob'_def] f] show thesis .
qed

text \<open>The state of the target of an event.\<close>

lemma protect_client_masked:
  assumes "protect_client K G ob tpid = Some (ob', killed)"
  shows "masked ob ob'"
proof -
  have m: "masked ob (mask_access 0 ob\<lparr>obi_Flags := 0\<rparr>)"
    by (rule masked_trans [OF masked_mask(1) masked_mask(2)])
  from assms m show ?thesis
    by (auto simp: protect_client_def Let_def NapTime_None masked_refl split: if_splits
        intro: masked_mask masked_trans [OF m masked_mask(1)])
qed

text \<open>The lookup of the target of a handle, which keeps its default when neither the cache nor the kernel
  knows the process.\<close>

lemma handle_target_spec:
  assumes "driver_ok G" "wf_kernel K" "q0 \<noteq> Null"
    and look: "(case GetCachedProcess G p of
        Some i \<Rightarrow> (Some i, True, pc_PI (NEW_PROCS G ! i), set_in_use i True G)
      | None \<Rightarrow> (case PsLookupProcessByProcessId K p of (status, targp) \<Rightarrow>
          if NT_SUCCESS status then (case probe R K targp of (found, TPI) \<Rightarrow> (None, found, TPI, G))
          else (None, False, q0, G))) = (slot, found, q, G')"
  shows "follows G G' \<and> found_ok slot found q \<and> q \<noteq> Null"
proof (cases "NT_SUCCESS (fst (PsLookupProcessByProcessId K p)) \<or> GetCachedProcess G p \<noteq> None")
  case True
  then have "find_target R K G p (snd (PsLookupProcessByProcessId K p)) = (slot, found, q, G')"
    unfolding look [symmetric] by (auto simp: find_target_def split: option.splits prod.splits)
  then show ?thesis using find_target_spec [OF assms(1,2)] by blast
next
  case False
  then show ?thesis using look follows_refl [OF assms(1)] assms(3) by (auto simp: found_ok_def split: prod.splits)
qed

lemma object_access_sound:
  assumes ok: "driver_ok G" and env: "pool_ample R" "wf_kernel K"
  obtains "ProcessObjectCallbackPre R K G obInfo = None" "obi_IsProcess obInfo" "obi_Object obInfo \<noteq> 0"
      "protect_client K G obInfo (PsGetProcessId K (obi_Object obInfo)) = None"
  | ob' G' freed killed where "ProcessObjectCallbackPre R K G obInfo = Some (Inr (ob', G', freed, killed))"
      "follows G G'" "masked obInfo ob'"
      "obi_IsProcess obInfo \<Longrightarrow> obi_Object obInfo \<noteq> 0 \<Longrightarrow>
        \<exists>ob1 killed. protect_client K G obInfo (PsGetProcessId K (obi_Object obInfo)) = Some (ob1, killed) \<and> masked ob1 ob'"
proof -
  obtain rid G1 where mm: "mm_id G = (rid, G1)" by force
  have f1: "follows G G1" using follows_id [OF ok] mm by simp
  then have ok1: "driver_ok G1" by (simp add: follows_def)
  let ?tpid = "PsGetProcessId K (obi_Object obInfo)"
  have ef: "event_frame G G1" using f1 by (simp add: follows_def)
  have prot: "protect_client K G1 ob tpid = protect_client K G ob tpid" for ob tpid
    by (simp add: protect_client_def event_frame_fields [OF ef])
  consider (other) "\<not> obi_IsProcess obInfo" | (none) "obi_IsProcess obInfo" "obi_Object obInfo = 0"
    | (naps) "obi_IsProcess obInfo" "obi_Object obInfo \<noteq> 0" "protect_client K G1 obInfo ?tpid = None"
    | (target) ob killed where "obi_IsProcess obInfo" "obi_Object obInfo \<noteq> 0" "protect_client K G1 obInfo ?tpid = Some (ob, killed)"
    by (cases "protect_client K G1 obInfo ?tpid") auto
  then show thesis
  proof cases
    case other
    then show ?thesis
      by (intro that(2) [of obInfo G "[]" "[]"]) (simp_all add: ProcessObjectCallbackPre_def follows_refl [OF ok] masked_refl)
  next
    case none
    have "found_ok None False (ob_TPI zero_ob)" "ob_TPI zero_ob \<noteq> Null" by (simp_all add: found_ok_def zero_ob_def)
    then obtain G' freed v where i: "inspect_access R K G1 rid 0 obInfo zero_ob None False = Inr (apply_verdict v obInfo, G', freed)"
      "follows G1 G'"
      by (rule inspect_access_sound [OF ok1 env])
    show ?thesis
      by (rule that(2) [of "apply_verdict v obInfo" G' freed "[]"])
         (use none i follows_trans [OF f1] in \<open>simp_all add: ProcessObjectCallbackPre_def mm Let_def masked_verdict\<close>)
  next
    case naps
    then show ?thesis by (intro that(1)) (simp_all add: ProcessObjectCallbackPre_def mm Let_def prot)
  next
    case (target ob killed)
    have m: "masked obInfo ob" by (rule protect_client_masked [OF target(3)])
    show ?thesis
    proof (cases "?tpid = PsGetCurrentProcessId K")
      case True
      show ?thesis
        by (rule that(2) [of ob G1 "[]" killed])
           (use target True f1 m in \<open>simp_all add: ProcessObjectCallbackPre_def mm Let_def prot masked_refl\<close>)
    next
      case False
      define OB where "OB = ob_event ob zero_ob"
      have tpi: "ob_TPI OB \<noteq> Null" by (simp add: OB_def zero_ob_def)
      obtain slot found q G2 where l: "(case GetCachedProcess G1 ?tpid of
          Some i \<Rightarrow> (Some i, True, pc_PI (NEW_PROCS G1 ! i), set_in_use i True G1)
        | None \<Rightarrow> (case PsLookupProcessByProcessId K ?tpid of (status, targp) \<Rightarrow>
            if NT_SUCCESS status then (case probe R K targp of (found, TPI) \<Rightarrow> (None, found, TPI, G1))
            else (None, False, ob_TPI OB, G1))) = (slot, found, q, G2)" using prod_cases4 by blast
      note ls = handle_target_spec [OF ok1 env(2) tpi l]
      then have ok2: "driver_ok G2" by (simp add: follows_def)
      have "found_ok slot found (ob_TPI (OB\<lparr>ob_TPI := q\<rparr>))" "ob_TPI (OB\<lparr>ob_TPI := q\<rparr>) \<noteq> Null" using ls by simp_all
      then obtain G' freed v where i: "inspect_access R K G2 rid ?tpid ob (OB\<lparr>ob_TPI := q\<rparr>) slot found
          = Inr (apply_verdict v ob, G', freed)" "follows G2 G'"
        by (rule inspect_access_sound [OF ok2 env])
      have "ProcessObjectCallbackPre R K G obInfo = Some (Inr (apply_verdict v ob, G', freed, killed))"
        using target False i(1) l unfolding OB_def
        by (simp add: ProcessObjectCallbackPre_def mm Let_def)
      moreover have "follows G G'" using f1 ls i(2) follows_trans by metis
      moreover have "masked obInfo (apply_verdict v ob)" by (rule masked_trans [OF m masked_verdict])
      ultimately show ?thesis
        using target(3) masked_verdict by (intro that(2)) (simp_all add: prot)
    qed
  qed
qed

end
