(* ===== verification/MM_Request_Soundness.thy ===== *)
theory MM_Request_Soundness
  imports MM_Event_Soundness MM_Network_Callback
begin

text \<open>
  The callbacks for the registry, for files and for the network on a sound state. They all look up the
  process that is running, inspect what it asks for, and report it: \<open>handled\<close> is that part, once.
\<close>

section \<open>The process that asks\<close>

text \<open>What an event shows of a process is its view in the cache; \<open>seen\<close> is the pointer the rules get.\<close>

definition seen :: "GC \<Rightarrow> u64 \<Rightarrow> PROC_INFO ptr" where
  "seen G p = (case cached G p of None \<Rightarrow> Null | Some w \<Rightarrow> local w)"

definition seen_records :: "GC \<Rightarrow> u64 \<Rightarrow> (u16 \<times> u8 list) list" where
  "seen_records G p = (case cached G p of None \<Rightarrow> [] | Some w \<Rightarrow> source_records w)"

definition same_process :: "GC \<Rightarrow> u64 \<Rightarrow> PROC_INFO ptr \<Rightarrow> bool" where
  "same_process G p q \<longleftrightarrow> (case cached G p of None \<Rightarrow> q = Null
     | Some w \<Rightarrow> q \<noteq> Null \<and> pi_view (deref q) = w \<and> wf_proc (deref q) \<and> pi_tag (deref q) = PHOEBE)"

lemma same_process_calls:
  assumes "same_process G p q"
  shows "list_all call_ok (if cached G p \<noteq> None then PCacheLogEntries q False else [])"
    "logged (if cached G p \<noteq> None then PCacheLogEntries q False else []) = seen_records G p"
proof -
  show "list_all call_ok (if cached G p \<noteq> None then PCacheLogEntries q False else [])"
    using assms PCache_ok [of "deref q" "addr q" False]
    by (cases q; cases "cached G p") (simp_all add: same_process_def)
  show "logged (if cached G p \<noteq> None then PCacheLogEntries q False else []) = seen_records G p"
    using assms by (cases q; cases "cached G p") (auto simp: same_process_def seen_records_def logged_PCache)
qed

lemma same_process_pred:
  assumes "same_process G p q"
  shows "proc_pred R q ImageFileName e = proc_pred R (seen G p) ImageFileName e"
    "proc_pred R q ParentImageFileName e = proc_pred R (seen G p) ParentImageFileName e"
    "proc_pred R q CommandLine e = proc_pred R (seen G p) CommandLine e"
    "proc_pred R q ParentCommandLine e = proc_pred R (seen G p) ParentCommandLine e"
    "proc_pred R q WindowTitle e = proc_pred R (seen G p) WindowTitle e"
    "proc_pred R q CWD e = proc_pred R (seen G p) CWD e"
  using assms by (cases q; auto simp: same_process_def seen_def proc_pred_def pi_view_def split: option.splits)+

section \<open>Reports\<close>

definition record_bytes :: "(u16 \<times> u8 list) list \<Rightarrow> nat" where
  "record_bytes recs = sum_list (map (\<lambda>(type, bs). 29 + length bs) recs)"

text \<open>The fields of the records of an event: all carry its id and its timestamp.\<close>

definition stamped :: "u64 \<Rightarrow> u64 \<Rightarrow> (u16 \<times> u8 list) list \<Rightarrow> log_field list" where
  "stamped rid ts recs = map (\<lambda>(type, bs). (type, rid, ts, bs)) recs"

lemma logsD:
  assumes "logs G b rid ts cs G'" "logged cs = recs" "log_bytes (gc_L G) + record_bytes recs < 200000000"
  shows "log_contents G' = log_contents G @ (if b then stamped rid ts recs else [])"
  using assms by (simp add: logs_def calls_bytes_def fields_of_def record_bytes_def stamped_def)

text \<open>An inspection whose verdict does not depend on where the process information is, and calls that
  can be logged.\<close>

lemma handled:
  assumes ok: "driver_ok G" and pool: "pool_ample R" and rid: "rid = fst (mm_id G)"
    and insp: "\<And>H q. follows G H \<Longrightarrow> same_process G p q \<Longrightarrow> insp q H = Inr v"
    and calls: "\<And>q. same_process G p q \<Longrightarrow> list_all call_ok (calls q)"
    and shape: "\<And>G1 slot q G2 G3. mm_id G = (rid, G1) \<Longrightarrow>
      find_process G1 p Null = (slot, cached G p \<noteq> None, q, G2) \<Longrightarrow> follows G G2 \<Longrightarrow> same_process G p q \<Longrightarrow>
      insp q G2 = Inr v \<Longrightarrow> KEEP_EXCLUDES G2 = KEEP_EXCLUDES G \<Longrightarrow>
      (if \<not> in_skip v \<or> KEEP_EXCLUDES G then log_all R rnd 0 rid ts (calls q) G2 else Inr G2) = Inr G3 \<Longrightarrow>
      cb = Inr (out (release slot G3))"
  obtains q G' where "cb = Inr (out G')" "follows G G'" "\<And>r. cached G' r = cached G r" "same_process G p q"
    "logs G (\<not> in_skip v \<or> KEEP_EXCLUDES G) rid ts (calls q) G'"
proof -
  obtain G1 where mm: "mm_id G = (rid, G1)" using rid by (cases "mm_id G") simp
  have f1: "follows G G1" "gc_L G1 = gc_L G" "NEW_PROCS G1 = NEW_PROCS G"
    using follows_id [OF ok] mm by (auto simp: mm_id_def Let_def split: if_splits)
  have ok1: "driver_ok G1" using f1 by (simp add: follows_def)
  have same: "cached G1 r = cached G r" for r by (rule cache_same [OF f1(3)])
  obtain slot found q G2 where find: "find_process G1 p Null = (slot, found, q, G2)" using prod_cases4 by blast
  note spec = find_process_spec [OF ok1 find]
  have hit: "found = (cached G p \<noteq> None)" "same_process G p q" "slot_ok slot"
    using spec same [of p] found_ok_slot [of slot found q]
    by (auto simp: same_process_def found_ok_def split: option.splits)
  have f2: "follows G G2" using spec follows_trans [OF f1(1)] by blast
  then have ok2: "driver_ok G2" by (simp add: follows_def)
  let ?b = "\<not> in_skip v \<or> KEEP_EXCLUDES G"
  obtain G3 where g3: "(if ?b then log_all R rnd 0 rid ts (calls q) G2 else Inr G2) = Inr G3" "follows G2 G3"
    "NEW_PROCS G3 = NEW_PROCS G2" "logs G2 ?b rid ts (calls q) G3"
    using report_spec [OF ok2 pool, of ?b "calls q"] calls [OF hit(2)] by blast
  have ok3: "driver_ok G3" using g3 by (simp add: follows_def)
  have "follows G (release slot G3)"
    using follows_trans [OF f2 follows_trans [OF g3(2) follows_release [OF ok3 hit(3)]]] .
  moreover have "cached (release slot G3) r = cached G r" for r
    using release_same(1) [OF ok3 hit(3)] cache_same(2) [OF g3(3)] find_same(1) [OF ok1 find] same by metis
  moreover have "logs G ?b rid ts (calls q) (release slot G3)"
    using g3(4) logs_cong [of G G2 "release slot G3" G3] spec f1(2) release_same(3) [OF ok3 hit(3)] by simp
  moreover have keep: "KEEP_EXCLUDES G2 = KEEP_EXCLUDES G" using f2 by (simp add: follows_def event_frame_fields)
  have "cb = Inr (out (release slot G3))"
    using mm find unfolding hit(1)
    by (intro shape [OF _ _ f2 hit(2) insp [OF f2 hit(2)] keep]) (simp_all only: g3(1))
  ultimately show thesis using that [OF _ _ _ hit(2)] by simp
qed

section \<open>Files\<close>

definition wf_names :: "flt_names \<Rightarrow> bool" where
  "wf_names n \<longleftrightarrow> wf_str (nm_Name n) \<and> wf_str (nm_Volume n) \<and> wf_str (nm_Share n) \<and> wf_str (nm_Extension n)
     \<and> wf_str (nm_Stream n) \<and> wf_str (nm_FinalComponent n) \<and> wf_str (nm_ParentDir n)"

definition wf_request :: "flt_data \<Rightarrow> bool" where
  "wf_request Data \<longleftrightarrow> wf_names (fd_Names Data) \<and> wf_str (fd_TargetFileName Data)
     \<and> (\<exists>a bs. sb_FileName (fd_InfoBuffer Data) = Ptr a bs \<and> unat (sb_FileNameLength (fd_InfoBuffer Data)) \<le> length bs)"

lemma wf_request_names: "wf_request Data \<Longrightarrow> wf_names (request_names Data)"
  by (auto simp: wf_request_def request_names_def wf_names_def)

lemma call_ok_nonempty [mm_intros]: "wf_str s \<Longrightarrow> call_ok (log_nonempty ty s)"
  by (simp add: log_nonempty_def call_ok_str_when)

lemma name_calls_ok: "wf_names n \<Longrightarrow> list_all call_ok (name_calls n)"
  by (simp add: wf_names_def name_calls_def call_ok_nonempty)

text \<open>The event a request is to the rules, and its verdict.\<close>

definition create_request :: "flt_data \<Rightarrow> PROC_INFO ptr \<Rightarrow> FILE_INFO" where
  "create_request Data q = (let n = request_names Data in
     \<lparr>CreateOptions = fd_CreateOptions Data, fi_Name = nm_Name n, fi_Volume = nm_Volume n,
      fi_Share = nm_Share n, fi_Extension = nm_Extension n, fi_Stream = nm_Stream n,
      fi_FinalComponent = nm_FinalComponent n, fi_ParentDir = nm_ParentDir n, fi_PI = q, fi_tag = DEIMOS\<rparr>)"

definition create_verdict :: "rtl \<Rightarrow> GC \<Rightarrow> FILE_INFO \<Rightarrow> inspection" where
  "create_verdict R G FI = decide_block (rules_hit (file_create_holds R FI) G FCBL)
     (rules_hit (file_create_holds R FI) G FCINC) (rules_hit (file_create_holds R FI) G FCEXC)"

lemma create_verdict_same:
  assumes "follows G H" "same_process G p q"
  shows "InspectFsCreateEvent R H (create_request Data q) = Inr (create_verdict R G (create_request Data (seen G p)))"
proof -
  have "file_create_holds R (create_request Data q) = file_create_holds R (create_request Data (seen G p))"
    by (rule ext) (simp add: file_create_holds_def create_request_def Let_def same_process_pred [OF assms(2)])
  then show ?thesis
    using assms(1) file_create_decides [of H R] rules_hit_frame [of G H]
    by (simp add: follows_def create_verdict_def config_ok_rules driver_okD)
qed

lemma create_calls_ok:
  assumes "same_process G p q" "wf_names n"
  shows "list_all call_ok (create_calls pid (cached G p \<noteq> None) Data n q v)"
  using same_process_calls(1) [OF assms(1)] name_calls_ok [OF assms(2)]
  by (simp add: create_calls_def del: not_None_eq) (auto intro!: mm_intros)

lemma file_create_sound:
  assumes ok: "driver_ok G" and env: "pool_ample R" "wf_request Data"
    and p: "p = PsGetCurrentProcessId K" and v: "v = create_verdict R G (create_request Data (seen G p))"
    and answer: "answer = (if NT_SUCCESS (in_status v) then (FLT_PREOP_SUCCESS_NO_CALLBACK, Data)
      else (FLT_PREOP_COMPLETE, Data\<lparr>fd_Status := in_status v, fd_Information := 0\<rparr>))"
  obtains q G' where "FsPreCreateCallback R K G Data = Inr (fst answer, snd answer, G')" "follows G G'"
    "\<And>r. cached G' r = cached G r" "same_process G p q"
    "logs G (\<not> in_skip v \<or> KEEP_EXCLUDES G) (fst (mm_id G)) (KeQuerySystemTimePrecise K)
       (create_calls (if p = 0 then 4 else p) (cached G p \<noteq> None) (snd answer) (request_names Data) q v) G'"
proof -
  have insp: "InspectFsCreateEvent R H (create_request Data q) = Inr v" if "follows G H" "same_process G p q" for H q
    unfolding v by (rule create_verdict_same [OF that])
  define rid where "rid = fst (mm_id G)"
  show thesis
  proof (rule handled [OF ok env(1) rid_def, where insp = "\<lambda>q H. InspectFsCreateEvent R H (create_request Data q)"
        and cb = "FsPreCreateCallback R K G Data" and out = "\<lambda>G'. (fst answer, snd answer, G')",
        OF insp create_calls_ok [OF _ wf_request_names [OF env(2)]] _ that [folded rid_def]])
    fix G1 slot q G2 G3
    assume h: "mm_id G = (rid, G1)" "find_process G1 p Null = (slot, cached G p \<noteq> None, q, G2)"
      "InspectFsCreateEvent R G2 (create_request Data q) = Inr v" "KEEP_EXCLUDES G2 = KEEP_EXCLUDES G"
      "(if \<not> in_skip v \<or> KEEP_EXCLUDES G then log_all R (MM_Genrand K) 0 rid (KeQuerySystemTimePrecise K)
         (create_calls (if p = 0 then 4 else p) (cached G p \<noteq> None) (snd answer) (request_names Data) q v) G2
        else Inr G2) = Inr G3"
    show "FsPreCreateCallback R K G Data = Inr (fst answer, snd answer, release slot G3)"
      unfolding FsPreCreateCallback_def Let_def p [symmetric] h(1,2,4) prod.case
        h(3) [unfolded create_request_def Let_def] andthen_simps
      using h(5) by (cases "NT_SUCCESS (in_status v)") (simp_all add: answer split del: if_split cong del: if_weak_cong)
  qed
qed

text \<open>A change of information: the event, as far as the dispatch has gathered it, completed with the
  names and the process. Its verdict is the inspection's own, which may read the counter of matches.\<close>

definition set_request :: "flt_data \<Rightarrow> FILE_SET_INFO \<Rightarrow> PROC_INFO ptr \<Rightarrow> FILE_SET_INFO" where
  "set_request Data FI q = (let n = request_names Data in
     FI\<lparr>fs_Name := nm_Name n, fs_Volume := nm_Volume n, fs_Share := nm_Share n, fs_Extension := nm_Extension n,
        fs_Stream := nm_Stream n, fs_FinalComponent := nm_FinalComponent n, fs_ParentDir := nm_ParentDir n,
        fs_PI := q, fs_tag := DIONE\<rparr>)"

lemma CheckProcEntry_same:
  assumes "same_process G p q"
  shows "CheckProcEntry R q ImageFileName e m = CheckProcEntry R (seen G p) ImageFileName e m"
    "CheckProcEntry R q ParentImageFileName e m = CheckProcEntry R (seen G p) ParentImageFileName e m"
    "CheckProcEntry R q CommandLine e m = CheckProcEntry R (seen G p) CommandLine e m"
    "CheckProcEntry R q ParentCommandLine e m = CheckProcEntry R (seen G p) ParentCommandLine e m"
    "CheckProcEntry R q WindowTitle e m = CheckProcEntry R (seen G p) WindowTitle e m"
    "CheckProcEntry R q CWD e m = CheckProcEntry R (seen G p) CWD e m"
  by (simp_all add: CheckProcEntry_tick same_process_pred [OF assms])

lemma set_verdict_same:
  assumes "follows G H" "same_process G p q"
  shows "InspectFsSetEvent R H (set_request Data FI q) = InspectFsSetEvent R G (set_request Data FI (seen G p))"
proof -
  have fld: "file_set_field R (set_request Data FI q) = file_set_field R (set_request Data FI (seen G p))"
    by (intro ext) (simp add: file_set_field_def set_request_def Let_def CheckProcEntry_same [OF assms(2)])
  have "gc_list H = gc_list G" "gc_COUNT H = gc_COUNT G"
    using assms(1) by (auto simp: follows_def event_frame_fields)
  moreover from this have "FileSetEventListMatch R H (set_request Data FI q) = FileSetEventListMatch R G (set_request Data FI (seen G p))"
    by (intro ext) (simp add: FileSetEventListMatch_def fld list_match_def split: option.split)
  ultimately show ?thesis by (simp only: InspectFsSetEvent_def)
qed

lemma set_new_name_wf:
  assumes "wf_request Data" "set_gather Data = Some FI"
  shows "wf_str (NewName FI)"
proof -
  let ?b = "fd_InfoBuffer Data"
  have "unat (ucast n :: u16) \<le> unat n" for n :: u32
    by (simp add: unsigned_ucast_eq take_bit_nat_less_eq_self)
  then have "wf_str (local \<lparr>Length = ucast (sb_FileNameLength ?b), MaximumLength = ucast (sb_FileNameLength ?b),
      Buffer = sb_FileName ?b\<rparr>)"
    using assms(1) by (cases "sb_FileName ?b") (auto simp: wf_request_def wf_str_def wf_ustr_def intro: order_trans)
  then have new: "wf_str (NewName (set_new_name ?b F))" for F by (simp add: set_new_name_def)
  have "NewName FI = Null \<or> (\<exists>F. FI = set_new_name ?b F)"
    using assms(2) unfolding set_gather_def Let_def
    by (simp add: set_times_def zero_fs_def split: if_split_asm) (auto 0 3)
  then show ?thesis using new by auto
qed

lemma set_calls_ok:
  assumes "same_process G p q" "wf_names n" "wf_str (NewName FI)"
  shows "list_all call_ok (set_calls pid (cached G p \<noteq> None) Data n (FI\<lparr>fs_PI := q\<rparr>) v)"
  using same_process_calls(1) [OF assms(1)] name_calls_ok [OF assms(2)] call_ok_str_when [OF assms(3)]
  by (simp add: set_calls_def Let_def del: not_None_eq) (auto intro!: mm_intros)

lemma file_set_sound:
  assumes ok: "driver_ok G" and env: "pool_ample R" "wf_request Data" and g: "set_gather Data = Some FI"
    and p: "p = PsGetCurrentProcessId K"
  obtains q v G' answer where
    "InspectFsSetEvent R G (set_request Data FI (seen G p)) = Inr v"
    "answer = (if NT_SUCCESS (in_status v) then (FLT_PREOP_SUCCESS_NO_CALLBACK, Data)
      else (FLT_PREOP_COMPLETE, Data\<lparr>fd_Status := in_status v\<rparr>))"
    "FsPreSetInformationCallback R K G Data = Inr (fst answer, snd answer, G')" "follows G G'"
    "\<And>r. cached G' r = cached G r" "same_process G p q"
    "logs G (\<not> in_skip v \<or> KEEP_EXCLUDES G) (fst (mm_id G)) (KeQuerySystemTimePrecise K)
       (set_calls (if p = 0 then 4 else p) (cached G p \<noteq> None) (snd answer) (request_names Data)
         (set_request Data FI q) v) G'"
proof -
  obtain v where v: "InspectFsSetEvent R G (set_request Data FI (seen G p)) = Inr v"
    using InspectFsSetEvent_total [OF driver_okD(1) [OF ok]] by blast
  define answer where "answer = (if NT_SUCCESS (in_status v) then (FLT_PREOP_SUCCESS_NO_CALLBACK, Data)
      else (FLT_PREOP_COMPLETE, Data\<lparr>fd_Status := in_status v\<rparr>))"
  define rid where "rid = fst (mm_id G)"
  let ?cs = "\<lambda>q. set_calls (if p = 0 then 4 else p) (cached G p \<noteq> None) (snd answer) (request_names Data)
         (set_request Data FI q) v"
  have insp: "InspectFsSetEvent R H (set_request Data FI q) = Inr v" if "follows G H" "same_process G p q" for H q
    using set_verdict_same [OF that] v by simp
  have calls: "list_all call_ok (?cs q)" if "same_process G p q" for q
  proof -
    have "wf_str (NewName (set_request Data FI Null))"
      using set_new_name_wf [OF env(2) g] by (simp add: set_request_def Let_def)
    moreover have "set_request Data FI q = (set_request Data FI Null)\<lparr>fs_PI := q\<rparr>" by (simp add: set_request_def Let_def)
    ultimately show ?thesis using set_calls_ok [OF that wf_request_names [OF env(2)]] by simp
  qed
  show thesis
  proof (rule handled [OF ok env(1) rid_def, where insp = "\<lambda>q H. InspectFsSetEvent R H (set_request Data FI q)"
        and cb = "FsPreSetInformationCallback R K G Data" and out = "\<lambda>G'. (fst answer, snd answer, G')" and p = p,
        OF insp calls _ that [OF v answer_def, folded rid_def]])
    fix G1 slot q G2 G3
    assume h: "mm_id G = (rid, G1)" "find_process G1 p Null = (slot, cached G p \<noteq> None, q, G2)"
      "InspectFsSetEvent R G2 (set_request Data FI q) = Inr v" "KEEP_EXCLUDES G2 = KEEP_EXCLUDES G"
      "(if \<not> in_skip v \<or> KEEP_EXCLUDES G then log_all R (MM_Genrand K) 0 rid (KeQuerySystemTimePrecise K)
         (?cs q) G2 else Inr G2) = Inr G3"
    show "FsPreSetInformationCallback R K G Data = Inr (fst answer, snd answer, release slot G3)"
      unfolding FsPreSetInformationCallback_def Let_def g option.case p [symmetric] h(1,2,4) prod.case
        set_request_def [unfolded Let_def, symmetric] h(3) andthen_simps
      using h(5)
      by (cases "NT_SUCCESS (in_status v)") (simp_all add: answer_def split del: if_split cong del: if_weak_cong)
  qed
qed

text \<open>A request of another class is left alone.\<close>

lemma file_set_other:
  "set_gather Data = None \<Longrightarrow>
    FsPreSetInformationCallback R K G Data = Inr (FLT_PREOP_SUCCESS_NO_CALLBACK, Data, G)"
  by (simp add: FsPreSetInformationCallback_def)

end
