(* ===== verification/MM_Registry_Network_Soundness.thy ===== *)
theory MM_Registry_Network_Soundness
  imports MM_Request_Soundness
begin

text \<open>
  The callbacks for the registry and for the network on a sound state.
\<close>

section \<open>The registry\<close>

text \<open>Names and data of an operation are as long as they say.\<close>

definition wf_key_names :: "kernel \<Rightarrow> bool" where
  "wf_key_names K \<longleftrightarrow> (\<forall>h. wf_str (snd (CmCallbackGetKeyObjectIDEx K h))
     \<and> (\<forall>n. wf_ustr (fst (snd (ObQueryNameString K h n))))
     \<and> (case FileNameOfHandle K h of (_, bs, n) \<Rightarrow> unat n \<le> length bs))"

definition wf_reg_args :: "reg_args \<Rightarrow> bool" where
  "wf_reg_args arg \<longleftrightarrow> wf_str (ra_CompleteName arg) \<and> wf_str (ra_ValueName arg) \<and> wf_str (ra_NewName arg)
     \<and> wf_str (ra_NewFileName arg) \<and> wf_str (ra_OldFileName arg)
     \<and> (VALID_PAGE (ra_Data arg) \<longrightarrow>
         unat (ra_DataSize arg) \<le> length (deref (ra_Data arg)) \<and> ra_DataSize arg \<le> 1000000000)"

definition wf_reg :: "REG_INFO \<Rightarrow> bool" where
  "wf_reg RI \<longleftrightarrow> wf_str (RegistryKey RI) \<and> wf_str (RegistryKeyNew RI) \<and> wf_str (RegistryValueName RI)
     \<and> wf_str (NewFileName RI) \<and> wf_str (OldFilename RI)
     \<and> (VALID_PAGE (ri_Data RI) \<longrightarrow> unat (ri_DataSize RI) \<le> length (deref (ri_Data RI)) \<and> ri_DataSize RI \<le> 1000000000)"

lemma wf_reg_PI [simp]: "wf_reg (RI\<lparr>ri_PI := q\<rparr>) = wf_reg RI" "wf_reg zero_ri"
  by (simp_all add: wf_reg_def zero_ri_def)

lemma name_found_wf: "wf_ustr (fst (snd r)) \<Longrightarrow> name_found a r = (freed, q, named) \<Longrightarrow> wf_str q"
  by (auto simp: name_found_def wf_str_def split: prod.splits if_splits)

lemma query_name_wf:
  assumes "wf_key_names K" "query_name R K obj a = (freed, Some (q, named))"
  shows "wf_str q"
proof -
  have n: "wf_ustr (fst (snd (ObQueryNameString K obj n)))" for n using assms(1) by (simp add: wf_key_names_def)
  obtain status name len where o1: "ObQueryNameString K obj 2048 = (status, name, len)" using prod_cases3 by blast
  obtain f1 p1 b1 where n1: "name_found a (status, name, len) = (f1, p1, b1)" using prod_cases3 by blast
  define b where "b = ExAllocatePool2 R (obj + 1) (unat len)"
  obtain f2 p2 b2 where n2: "name_found b (ObQueryNameString K obj len) = (f2, p2, b2)" using prod_cases3 by blast
  have "wf_str p1" "wf_str p2"
    using name_found_wf [OF _ n1] n [of 2048] o1 name_found_wf [OF n n2] by simp_all
  then show ?thesis
    using assms(2) o1 n1 n2 by (auto simp: query_name_def Let_def b_def split: if_split_asm)
qed

lemma pre_fields_wf:
  assumes "wf_reg_args arg" "wf_str q" "wf_reg RI" "pre_fields cls arg q RI = (RI', val)"
  shows "wf_reg RI'"
proof -
  have "wf_reg (fst (pre_fields cls arg q RI))"
    using assms(1-3) unfolding pre_fields_def Let_def by (simp add: wf_reg_def wf_reg_args_def)
  then show ?thesis using assms(4) by simp
qed

lemma restore_fields_wf:
  assumes "wf_key_names K" "wf_str q" "wf_reg RI"
  shows "wf_reg (restore_fields K arg f q RI)"
proof -
  obtain status bs n where h: "FileNameOfHandle K (ra_FileHandle arg) = (status, bs, n)" using prod_cases3 by blast
  then have "unat n \<le> length bs" using assms(1) by (auto simp: wf_key_names_def dest: spec [of _ "ra_FileHandle arg"])
  moreover have "unat (ucast n :: u16) \<le> unat n" by (simp add: unsigned_ucast_eq take_bit_nat_less_eq_self)
  ultimately show ?thesis
    using assms(2,3) h by (auto simp: restore_fields_def Let_def wf_reg_def wf_str_def wf_ustr_def)
qed

lemma gather_post_wf:
  assumes "wf_key_names K" "wf_reg_args arg" "wf_reg RI"
  shows "wf_reg (rg_RI (gather_post K G cls arg RI))"
proof -
  obtain status key where k: "CmCallbackGetKeyObjectIDEx K (ra_Object arg) = (status, key)" by force
  then have key: "wf_str key" using assms(1) by (auto simp: wf_key_names_def dest: spec [of _ "ra_Object arg"])
  define m where "m = (if ra_DataSize arg < REG_DATA_MAX_SIZE G then ra_DataSize arg else REG_DATA_MAX_SIZE G)"
  have m: "m \<le> ra_DataSize arg" by (auto simp: m_def)
  have data: "VALID_PAGE (ra_Data arg) \<Longrightarrow> unat m \<le> length (deref (ra_Data arg)) \<and> m \<le> 1000000000"
    using assms(2) order_trans [OF m] order_trans [OF m [unfolded word_le_nat_alt]] by (simp add: wf_reg_args_def)
  then show ?thesis
    using assms(2,3) key by (simp add: gather_post_def k Let_def wf_reg_def wf_reg_args_def m_def [symmetric])
qed

lemma reg_gather_wf:
  assumes "wf_key_names K" "wf_reg_args arg" "wf_reg RI" "reg_gather R K G cls arg RI = Inr g"
  shows "wf_reg (rg_RI g)"
proof -
  obtain freed r where q: "query_name R K (ra_Object arg) (name_buffer R (ra_Object arg)) = (freed, r)" by force
  have named: "wf_str p" if "r = Some (p, b)" for p b using query_name_wf [OF assms(1)] q that by blast
  have pre: "wf_reg (rg_RI g)" if gth: "gather_pre R K cls arg RI = Inr g"
  proof -
    obtain p b where r: "r = Some (p, b)" using gth q by (cases r) (auto simp: gather_pre_def Let_def split: if_split_asm)
    obtain RI' val where f: "(if b then pre_fields cls arg p RI else (RI, False)) = (RI', val)" by force
    then have "wf_reg RI'" using pre_fields_wf [OF assms(2) named [OF r] assms(3)] assms(3) by (auto split: if_split_asm)
    then show ?thesis using gth q r f by (auto simp: gather_pre_def Let_def split: if_split_asm)
  qed
  have restore: "wf_reg (rg_RI g)" if gth: "gather_restore R K arg RI = Inr g"
  proof -
    obtain p b where r: "r = Some (p, b)"
      using gth q by (cases r) (auto simp: gather_restore_def Let_def split: if_split_asm)
    then show ?thesis
      using gth q restore_fields_wf [OF assms(1) named [OF r] assms(3)] assms(3)
      by (auto simp: gather_restore_def Let_def split: if_split_asm)
  qed
  have "wf_reg (RI\<lparr>RegistryKey := ra_CompleteName arg\<rparr>)"
    using assms(2,3) by (simp add: wf_reg_def wf_reg_args_def)
  then show ?thesis
    using assms(3,4) pre restore gather_post_wf [OF assms(1-3)] unfolding reg_gather_def
    by (simp split: if_split_asm) (auto simp del: wf_reg_PI)
qed

text \<open>The gathering does not look at the process.\<close>

lemma pre_fields_PI:
  "pre_fields cls arg name (RI\<lparr>ri_PI := q\<rparr>) = (case pre_fields cls arg name RI of (RI', v) \<Rightarrow> (RI'\<lparr>ri_PI := q\<rparr>, v))"
  by (simp add: pre_fields_def Let_def)

definition with_process :: "PROC_INFO ptr \<Rightarrow> reg_gathered \<Rightarrow> reg_gathered" where
  "with_process q g = g\<lparr>rg_RI := (rg_RI g)\<lparr>ri_PI := q\<rparr>\<rparr>"

lemma reg_gather_PI:
  "reg_gather R K G cls arg (RI\<lparr>ri_PI := q\<rparr>) = map_sum id (with_process q) (reg_gather R K G cls arg RI)"
proof -
  have 1: "gather_post K G cls arg (RI\<lparr>ri_PI := q\<rparr>) = with_process q (gather_post K G cls arg RI)"
    by (simp add: gather_post_def Let_def with_process_def split: prod.split)
  have 2: "gather_pre R K cls arg (RI\<lparr>ri_PI := q\<rparr>) = map_sum id (with_process q) (gather_pre R K cls arg RI)"
    by (simp add: gather_pre_def Let_def with_process_def pre_fields_PI split: prod.split option.split)
  have 3: "gather_restore R K arg (RI\<lparr>ri_PI := q\<rparr>) = map_sum id (with_process q) (gather_restore R K arg RI)"
    by (simp add: gather_restore_def restore_fields_def Let_def with_process_def split: prod.split option.split)
  show ?thesis by (simp add: reg_gather_def 1 2 3) (simp add: with_process_def)
qed

lemma reg_gather_frame: "follows G H \<Longrightarrow> reg_gather R K H cls arg RI = reg_gather R K G cls arg RI"
  unfolding follows_def reg_gather_def gather_post_def by (simp only: event_frame_fields(9) [of G H])

text \<open>The event the rules see, and their verdict.\<close>

definition reg_event :: "u32 \<Rightarrow> reg_gathered \<Rightarrow> PROC_INFO ptr \<Rightarrow> REG_INFO" where
  "reg_event cls g q = (rg_RI g)\<lparr>ri_PI := q, notifyClass := cls, ri_tag := UMBRIEL\<rparr>"

definition registry_verdict :: "rtl \<Rightarrow> GC \<Rightarrow> REG_INFO \<Rightarrow> inspection" where
  "registry_verdict R G RI = decide_block (rules_hit (registry_holds R RI) G RBL)
     (rules_hit (registry_holds R RI) G RINC) (rules_hit (registry_holds R RI) G REXC)"

lemma registry_verdict_same:
  assumes "follows G H" "same_process G p q"
  shows "InspectRegistryEvent R H (reg_event cls g q) = Inr (registry_verdict R G (reg_event cls g (seen G p)))"
proof -
  have "registry_holds R (reg_event cls g q) = registry_holds R (reg_event cls g (seen G p))"
    by (rule ext) (simp add: registry_holds_def reg_event_def same_process_pred [OF assms(2)])
  then show ?thesis
    using assms(1) registry_decides [of H R] rules_hit_frame [of G H]
    by (simp add: follows_def registry_verdict_def config_ok_rules driver_okD)
qed

lemma wf_reg_event [simp]: "wf_reg (reg_event cls g q) = wf_reg (rg_RI g)"
  by (simp add: wf_reg_def reg_event_def)

lemma reg_event_PI: "ri_PI (reg_event cls g q) = q"
  by (simp add: reg_event_def)

lemma call_ok_full_str: "wf_str s \<Longrightarrow> call_ok (log_full_str ty s)"
  unfolding log_full_str_def by (rule call_ok_str_when) simp_all

lemma registry_calls_ok:
  assumes "same_process G p (ri_PI RI)" "wf_reg RI"
  shows "list_all call_ok (registry_calls pid (cached G p \<noteq> None) val RI v)"
proof -
  have data: "call_ok (Some (ri_DataSize RI, REG_DATA, ri_Data RI))"
    using assms(2) by (simp add: call_ok_def wf_reg_def)
  show ?thesis
    using same_process_calls(1) [OF assms(1)] assms(2) data
    by (cases "RegistryValueName RI")
       (simp_all add: registry_calls_def wf_reg_def call_ok_full_str wf_str_def call_ok_when call_ok_str del: not_None_eq)
qed

lemma registry_sound:
  assumes ok: "driver_ok G" and env: "pool_ample R" "wf_key_names K" "wf_reg_args arg"
    and cls: "cls \<in> set reg_classes" and p: "p = (if PsGetCurrentProcessId K = 0 then 4 else PsGetCurrentProcessId K)"
    and g: "reg_gather R K G cls arg zero_ri = Inr g" and v: "v = registry_verdict R G (reg_event cls g (seen G p))"
  obtains q G' where
    "RegistryCallbackRoutine R K G cls arg = Inr (in_status v, G', rg_freed g @
       (if RegistryKey (rg_RI g) \<noteq> Null \<and> rg_keyid g then [addr (RegistryKey (rg_RI g))] else []))"
    "follows G G'" "\<And>r. cached G' r = cached G r" "same_process G p q"
    "logs G (\<not> in_skip v \<or> KEEP_EXCLUDES G) (fst (mm_id G)) (KeQuerySystemTimePrecise K)
       (registry_calls p (cached G p \<noteq> None) (rg_value g) (reg_event cls g q) v) G'"
proof -
  define rid where "rid = fst (mm_id G)"
  let ?cs = "\<lambda>q. registry_calls p (cached G p \<noteq> None) (rg_value g) (reg_event cls g q) v"
  have insp: "InspectRegistryEvent R H (reg_event cls g q) = Inr v" if "follows G H" "same_process G p q" for H q
    unfolding v by (rule registry_verdict_same [OF that])
  have "wf_reg (rg_RI g)" by (rule reg_gather_wf [OF env(2,3) _ g]) simp
  then have calls: "list_all call_ok (?cs q)" if "same_process G p q" for q
    using registry_calls_ok [of G p "reg_event cls g q"] that unfolding wf_reg_event by (simp only: reg_event_PI)
  show thesis
  proof (rule handled [OF ok env(1) rid_def, where insp = "\<lambda>q H. InspectRegistryEvent R H (reg_event cls g q)"
        and cb = "RegistryCallbackRoutine R K G cls arg" and p = p and out = "\<lambda>G'. (in_status v, G', rg_freed g @
            (if RegistryKey (rg_RI g) \<noteq> Null \<and> rg_keyid g then [addr (RegistryKey (rg_RI g))] else []))",
        OF insp calls _ that [folded rid_def]])
    fix G1 slot q G2 G3
    assume h: "mm_id G = (rid, G1)" "find_process G1 p Null = (slot, cached G p \<noteq> None, q, G2)" "follows G G2"
      "InspectRegistryEvent R G2 (reg_event cls g q) = Inr v" "KEEP_EXCLUDES G2 = KEEP_EXCLUDES G"
      "(if \<not> in_skip v \<or> KEEP_EXCLUDES G then log_all R (MM_Genrand K) 0 rid (KeQuerySystemTimePrecise K)
         (?cs q) G2 else Inr G2) = Inr G3"
    have "reg_gather R K G2 cls arg (zero_ri\<lparr>ri_PI := q\<rparr>) = Inr (with_process q g)"
      by (simp add: reg_gather_PI reg_gather_frame [OF h(3)] g)
    moreover have "(rg_RI (with_process q g))\<lparr>notifyClass := cls, ri_tag := UMBRIEL\<rparr> = reg_event cls g q"
      "rg_value (with_process q g) = rg_value g" "rg_keyid (with_process q g) = rg_keyid g"
      "rg_freed (with_process q g) = rg_freed g" "RegistryKey (reg_event cls g q) = RegistryKey (rg_RI g)"
      by (simp_all add: with_process_def reg_event_def)
    ultimately show "RegistryCallbackRoutine R K G cls arg = Inr (in_status v, release slot G3, rg_freed g @
        (if RegistryKey (rg_RI g) \<noteq> Null \<and> rg_keyid g then [addr (RegistryKey (rg_RI g))] else []))"
      using cls unfolding RegistryCallbackRoutine_def Let_def p [symmetric]
      by (simp only: h(1,2,4,5,6) prod.case sum.case andthen_simps simp_thms if_False)
  qed
qed

text \<open>Out of memory, the operation gets that status and nothing is logged.\<close>

lemma registry_no_memory:
  assumes ok: "driver_ok G" and pool: "pool_ample R" and cls: "cls \<in> set reg_classes"
    and g: "reg_gather R K G cls arg zero_ri = Inl freed"
  obtains G' where "RegistryCallbackRoutine R K G cls arg = Inr (STATUS_NO_MEMORY, G', freed)" "follows G G'"
    "\<And>r. cached G' r = cached G r" "log_contents G' = log_contents G"
proof -
  define p where "p = (if PsGetCurrentProcessId K = 0 then 4 else PsGetCurrentProcessId K)"
  obtain rid G1 where mm: "mm_id G = (rid, G1)" by force
  have f1: "follows G G1" "gc_L G1 = gc_L G" "NEW_PROCS G1 = NEW_PROCS G"
    using follows_id [OF ok] mm by (auto simp: mm_id_def Let_def split: if_splits)
  have ok1: "driver_ok G1" using f1 by (simp add: follows_def)
  obtain slot found q G2 where find: "find_process G1 p Null = (slot, found, q, G2)" using prod_cases4 by blast
  note spec = find_process_spec [OF ok1 find]
  have f2: "follows G G2" using spec follows_trans [OF f1(1)] by blast
  then have ok2: "driver_ok G2" by (simp add: follows_def)
  have s: "slot_ok slot" using spec found_ok_slot by blast
  have "reg_gather R K G2 cls arg (zero_ri\<lparr>ri_PI := q\<rparr>) = Inl freed"
    by (simp add: reg_gather_PI reg_gather_frame [OF f2] g)
  then have "RegistryCallbackRoutine R K G cls arg = Inr (STATUS_NO_MEMORY, release slot G2, freed)"
    using cls by (simp add: RegistryCallbackRoutine_def Let_def p_def [symmetric] mm find)
  moreover have "follows G (release slot G2)" by (rule follows_trans [OF f2 follows_release [OF ok2 s]])
  moreover have "cached (release slot G2) r = cached G r" for r
    using release_same(1) [OF ok2 s] find_same(1) [OF ok1 find] cache_same(2) [OF f1(3)] by metis
  moreover have "log_contents (release slot G2) = log_contents G"
    using release_same(3) [OF ok2 s] spec f1(2) by (simp add: log_contents_def)
  ultimately show thesis using that by blast
qed

end
