(* ===== verification/MM_Network_Soundness.thy ===== *)
theory MM_Network_Soundness
  imports MM_Request_Soundness
begin

text \<open>
  The callback of the filtering platform on a sound state. At the layers for listening and for datagrams the
  callback reads the platform's array at the positions the fields have at the connect layer, and those
  arrays are shorter: \<open>fields_there\<close> says that the positions an event makes it read are all within its
  array. Then the event is gathered and reported; otherwise the callback reads outside.
\<close>

section \<open>Results behind a condition\<close>

text \<open>A result that is there, and good, under a condition, and a read out of bounds without it.\<close>

definition guarded :: "bool \<Rightarrow> ('a \<Rightarrow> bool) \<Rightarrow> 'a res \<Rightarrow> bool" where
  "guarded b P r = (if b then (case r of Inl _ \<Rightarrow> False | Inr x \<Rightarrow> P x) else r = Inl OutOfBounds)"

lemma guarded_True [simp]: "guarded True P (Inr x) = P x" "\<not> guarded True P (Inl e)"
  by (simp_all add: guarded_def)

lemma guarded_andthen:
  "guarded b P r \<Longrightarrow> (\<And>x. P x \<Longrightarrow> guarded c Q (f x)) \<Longrightarrow> guarded (b \<and> c) Q (andthen r f)"
  by (cases r) (auto simp: guarded_def split: if_splits)

lemma guarded_mono: "guarded b P r \<Longrightarrow> (\<And>x. P x \<Longrightarrow> Q x) \<Longrightarrow> guarded b Q r"
  by (auto simp: guarded_def split: sum.splits if_splits)

lemma guarded_if:
  "(b \<Longrightarrow> guarded c P r) \<Longrightarrow> (\<not> b \<Longrightarrow> guarded d P s) \<Longrightarrow> guarded (if b then c else d) P (if b then r else s)"
  by simp

lemma guardedE:
  assumes "guarded b P r"
  obtains (there) x where "b" "r = Inr x" "P x" | (outside) "\<not> b" "r = Inl OutOfBounds"
  using assms by (cases r) (auto simp: guarded_def split: if_splits)

section \<open>The values of the platform\<close>

text \<open>What the platform promises of a value: the pointer of its type points to what the type says.\<close>

definition wf_value :: "FWP_VALUE \<Rightarrow> bool" where
  "wf_value v = (case v of FWP_UINT64 q \<Rightarrow> q \<noteq> Null
     | FWP_BYTE_BLOB q \<Rightarrow> (case q of Null \<Rightarrow> False | Ptr _ (sz, bs) \<Rightarrow>
         2 \<le> sz \<and> sz < 65536 \<and> (case bs of Null \<Rightarrow> True | Ptr _ b \<Rightarrow> unat sz \<le> length b))
     | FWP_BYTE_ARRAY16 q \<Rightarrow> wf_addr6 q | _ \<Rightarrow> True)"

definition wf_net_event :: "net_event \<Rightarrow> bool" where
  "wf_net_event ev \<longleftrightarrow> list_all wf_value (ne_incomingValue ev)"

section \<open>The positions that are read\<close>

definition value_at :: "wfp_headers \<Rightarrow> net_event \<Rightarrow> wfp_family \<Rightarrow> wfp_field \<Rightarrow> FWP_VALUE option" where
  "value_at H ev fam f = (let i = FWPS_FIELD H fam f in
     if i < length (ne_incomingValue ev) then Some (ne_incomingValue ev ! i) else None)"

definition there :: "wfp_headers \<Rightarrow> net_event \<Rightarrow> wfp_family \<Rightarrow> wfp_field \<Rightarrow> bool" where
  "there H ev fam f \<longleftrightarrow> FWPS_FIELD H fam f < length (ne_incomingValue ev)"

text \<open>The interface of arrival and its type; without one, the local interface and its type.\<close>

definition interface_fields :: "wfp_headers \<Rightarrow> net_event \<Rightarrow> wfp_family \<Rightarrow> wfp_field list" where
  "interface_fields H ev fam = IP_ARRIVAL_INTERFACE #
     (case value_at H ev fam IP_ARRIVAL_INTERFACE of Some (FWP_UINT64 _) \<Rightarrow> [ARRIVAL_INTERFACE_TYPE]
      | _ \<Rightarrow> IP_LOCAL_INTERFACE #
          (case value_at H ev fam IP_LOCAL_INTERFACE of Some (FWP_UINT64 _) \<Rightarrow> [INTERFACE_TYPE] | _ \<Rightarrow> []))"

definition connect_fields :: "wfp_headers \<Rightarrow> net_event \<Rightarrow> wfp_family \<Rightarrow> wfp_field list" where
  "connect_fields H ev fam = ALE_APP_ID # interface_fields H ev fam @ [IP_PROTOCOL, IP_LOCAL_ADDRESS, IP_REMOTE_ADDRESS]"

definition resource_fields :: "wfp_field list" where
  "resource_fields = [ALE_APP_ID, IP_LOCAL_ADDRESS, IP_LOCAL_ADDRESS_TYPE, ALE_PROMISCUOUS_MODE,
     IP_LOCAL_INTERFACE, INTERFACE_TYPE]"

text \<open>Over IPv6 the ports are only read for TCP and UDP.\<close>

definition fields_there :: "wfp_headers \<Rightarrow> net_event \<Rightarrow> bool" where
  "fields_there H ev =
     (let at = (\<lambda>ls. ne_layerId ev \<in> set (map (FWPS_LAYER H) ls)); ports = [IP_LOCAL_PORT, IP_REMOTE_PORT] in
      if at [ALE_AUTH_CONNECT_V4, ALE_AUTH_LISTEN_V4, ALE_AUTH_RECV_ACCEPT_V4, DATAGRAM_DATA_V4]
      then list_all (there H ev CONNECT_V4) (connect_fields H ev CONNECT_V4 @ ports)
      else if at [ALE_AUTH_CONNECT_V6, ALE_AUTH_LISTEN_V6, ALE_AUTH_RECV_ACCEPT_V6, DATAGRAM_DATA_V6]
      then list_all (there H ev CONNECT_V6) (connect_fields H ev CONNECT_V6 @
             (if value_at H ev CONNECT_V6 IP_PROTOCOL \<in> {Some (FWP_UINT8 6), Some (FWP_UINT8 17)} then ports else []))
      else if at [ALE_RESOURCE_ASSIGNMENT_V4] then list_all (there H ev RESOURCE_V4) resource_fields
      else if at [ALE_RESOURCE_ASSIGNMENT_V6] then list_all (there H ev RESOURCE_V6) resource_fields
      else True)"

section \<open>Gathering\<close>

text \<open>What is kept while the members are filled in: addresses of 16 bytes and a path within its blob.\<close>

definition wf_app :: "UNICODE_STRING \<Rightarrow> bool" where
  "wf_app app = (case Buffer app of Null \<Rightarrow> True | Ptr _ b \<Rightarrow> unat (Length app) \<le> length b)"

definition net_ok :: "net_gathered \<Rightarrow> bool" where
  "net_ok g \<longleftrightarrow> wf_wfp (ng_NI g) \<and> wf_app (ng_app g)"

lemma blob_length:
  fixes sz :: u32
  assumes "2 \<le> sz" "sz < 65536"
  shows "unat (ucast sz - 2 :: u16) \<le> unat sz"
proof -
  have "unat sz < 65536" "2 \<le> unat sz" using assms by (simp_all add: word_less_nat_alt word_le_nat_alt)
  then have "unat (ucast sz :: u16) = unat sz" by (simp add: unsigned_ucast_eq take_bit_nat_eq_self)
  moreover from this have "(2 :: u16) \<le> ucast sz" using \<open>2 \<le> unat sz\<close> by (simp add: word_le_nat_alt)
  ultimately show ?thesis by (simp add: unat_sub)
qed

lemma read_value_guarded:
  assumes "wf_net_event ev"
  shows "guarded (there H ev fam f) (\<lambda>v. wf_value v \<and> value_at H ev fam f = Some v) (read_value H ev fam f)"
  using assms
  by (auto simp: wf_net_event_def read_value_def value_at_def there_def guarded_def index_def list_all_length Let_def)

lemma guarded_read:
  assumes "wf_net_event ev"
    and "\<And>v. wf_value v \<Longrightarrow> value_at H ev fam f = Some v \<Longrightarrow> guarded c Q (g v)"
  shows "guarded (there H ev fam f \<and> c) Q (andthen (read_value H ev fam f) g)"
  by (rule guarded_andthen [OF read_value_guarded [OF assms(1)]]) (use assms(2) in blast)

lemma guarded_read1:
  assumes "wf_net_event ev" "\<And>v. wf_value v \<Longrightarrow> value_at H ev fam f = Some v \<Longrightarrow> guarded True Q (g v)"
  shows "guarded (there H ev fam f) Q (andthen (read_value H ev fam f) g)"
  using guarded_read [OF assms] by simp

lemma get_app_guarded:
  assumes "wf_net_event ev" "net_ok g"
  shows "guarded (there H ev fam ALE_APP_ID) (\<lambda>g'. net_ok g' \<and> ng_NI g' = ng_NI g) (get_app H ev fam g)"
  unfolding get_app_def
proof (rule guarded_read1 [OF assms(1)])
  fix v
  assume v: "wf_value v"
  show "guarded True (\<lambda>g'. net_ok g' \<and> ng_NI g' = ng_NI g) (case v of FWP_BYTE_BLOB q \<Rightarrow> andthen (load q) (\<lambda>(sz, bs).
      let n = ucast sz - 2 in Inr (g\<lparr>ng_app := \<lparr>Length = n, MaximumLength = n, Buffer = bs\<rparr>\<rparr>)) | _ \<Rightarrow> Inr g)"
  proof (cases v)
    case (FWP_BYTE_BLOB q)
    then obtain a sz bs where q: "q = Ptr a (sz, bs)" using v by (cases q) (auto simp: wf_value_def)
    have "wf_app \<lparr>Length = ucast sz - 2, MaximumLength = ucast sz - 2, Buffer = bs\<rparr>"
      using v FWP_BYTE_BLOB q blob_length [of sz]
      by (auto simp: wf_value_def wf_app_def split: ptr.splits intro: order_trans)
    then show ?thesis using FWP_BYTE_BLOB q assms(2) by (simp add: net_ok_def Let_def)
  qed (use assms(2) in simp_all)
qed

lemma get_type_guarded:
  assumes "wf_net_event ev" "wf_wfp NI"
  shows "guarded (there H ev fam f) (\<lambda>NI'. wf_wfp NI' \<and> ipProtocol NI' = ipProtocol NI) (get_type H ev fam f NI)"
  unfolding get_type_def
  by (rule guarded_read1 [OF assms(1)]) (use assms(2) in \<open>simp add: wf_wfp_def split: FWP_VALUE.split\<close>)

text \<open>An interface is a value and, when it is there, its type; otherwise something else is tried.\<close>

lemma interface_guarded:
  assumes "wf_net_event ev" "wf_wfp NI" "wf_value v" "guarded c (\<lambda>NI'. wf_wfp NI' \<and> ipProtocol NI' = ipProtocol NI) r"
  shows "guarded (case v of FWP_UINT64 _ \<Rightarrow> there H ev fam f | _ \<Rightarrow> c) (\<lambda>NI'. wf_wfp NI' \<and> ipProtocol NI' = ipProtocol NI)
    (case v of FWP_UINT64 q \<Rightarrow> andthen (load q) (\<lambda>i. get_type H ev fam f (NI\<lparr>wfp_interface := i\<rparr>)) | _ \<Rightarrow> r)"
proof (cases v)
  case (FWP_UINT64 q)
  then obtain a i where "q = Ptr a i" using assms(3) by (cases q) (auto simp: wf_value_def)
  moreover have "wf_wfp (NI\<lparr>wfp_interface := i\<rparr>)" using assms(2) by (simp add: wf_wfp_def)
  ultimately show ?thesis using get_type_guarded [OF assms(1), of "NI\<lparr>wfp_interface := i\<rparr>" H fam f] FWP_UINT64 by simp
qed (use assms(4) in simp_all)

lemma get_interface_guarded:
  assumes "wf_net_event ev" "wf_wfp NI"
  shows "guarded (list_all (there H ev fam) (interface_fields H ev fam))
    (\<lambda>NI'. wf_wfp NI' \<and> ipProtocol NI' = ipProtocol NI) (get_interface H ev fam NI)"
proof -
  let ?P = "\<lambda>NI'. wf_wfp NI' \<and> ipProtocol NI' = ipProtocol NI"
  let ?local = "case value_at H ev fam IP_LOCAL_INTERFACE of Some (FWP_UINT64 _) \<Rightarrow> there H ev fam INTERFACE_TYPE | _ \<Rightarrow> True"
  have ok: "guarded True ?P (Inr NI)" using assms(2) by simp
  have "guarded (there H ev fam IP_LOCAL_INTERFACE \<and> ?local) ?P (andthen (read_value H ev fam IP_LOCAL_INTERFACE) (\<lambda>v.
      case v of FWP_UINT64 q \<Rightarrow> andthen (load q) (\<lambda>i. get_type H ev fam INTERFACE_TYPE (NI\<lparr>wfp_interface := i\<rparr>)) | _ \<Rightarrow> Inr NI))"
    by (rule guarded_read [OF assms(1)], simp only: option.case) (rule interface_guarded [OF assms _ ok])
  note loc = interface_guarded [OF assms _ this]
  have "guarded (there H ev fam IP_ARRIVAL_INTERFACE \<and> (case value_at H ev fam IP_ARRIVAL_INTERFACE of
      Some (FWP_UINT64 _) \<Rightarrow> there H ev fam ARRIVAL_INTERFACE_TYPE | _ \<Rightarrow> there H ev fam IP_LOCAL_INTERFACE \<and> ?local))
    ?P (get_interface H ev fam NI)"
    unfolding get_interface_def
    by (rule guarded_read [OF assms(1)], simp only: option.case) (rule loc)
  then show ?thesis
    by (simp add: interface_fields_def split: option.splits FWP_VALUE.splits)
qed

lemma get_protocol_guarded:
  assumes "wf_net_event ev" "wf_wfp NI"
  shows "guarded (there H ev fam IP_PROTOCOL) (\<lambda>NI'. wf_wfp NI' \<and> ipProtocol NI' =
      (case value_at H ev fam IP_PROTOCOL of Some (FWP_UINT8 p) \<Rightarrow> p | _ \<Rightarrow> ipProtocol NI)) (get_protocol H ev fam NI)"
  unfolding get_protocol_def
  by (rule guarded_read1 [OF assms(1)]) (use assms(2) in \<open>simp add: wf_wfp_def split: FWP_VALUE.split\<close>)

lemma get_number_guarded:
  assumes "wf_net_event ev"
  shows "guarded (there H ev fam f) (\<lambda>_. True) (get_u16 H ev fam f)" "guarded (there H ev fam f) (\<lambda>_. True) (get_u32 H ev fam f)"
  unfolding get_u16_def get_u32_def
  by (rule guarded_read1 [OF assms], simp split: FWP_VALUE.split)+

lemma get_addr16_guarded:
  assumes "wf_net_event ev"
  shows "guarded (there H ev fam f) (\<lambda>r. case r of None \<Rightarrow> True | Some q \<Rightarrow> wf_addr6 q) (get_addr16 H ev fam f)"
  unfolding get_addr16_def
  by (rule guarded_read1 [OF assms]) (auto simp: wf_value_def split: FWP_VALUE.split)

text \<open>The layers: the guards of the reads, in the order of the reads, make up the list of fields.\<close>

lemma gather_v4_guarded:
  assumes "wf_net_event ev" "net_ok g"
  shows "guarded (list_all (there H ev CONNECT_V4) (connect_fields H ev CONNECT_V4 @ [IP_LOCAL_PORT, IP_REMOTE_PORT]))
    net_ok (gather_v4 H ev g)"
proof -
  note wf = assms(1)
  have ok: "wf_wfp (ng_NI g)" using assms(2) by (simp add: net_ok_def)
  let ?T = "there H ev CONNECT_V4"
  have "guarded (?T ALE_APP_ID \<and> list_all ?T (interface_fields H ev CONNECT_V4) \<and> ?T IP_PROTOCOL \<and> ?T IP_LOCAL_ADDRESS
      \<and> ?T IP_REMOTE_ADDRESS \<and> ?T IP_LOCAL_PORT \<and> ?T IP_REMOTE_PORT \<and> True) net_ok (gather_v4 H ev g)"
    unfolding gather_v4_def Let_def
    by (rule guarded_andthen [OF get_app_guarded [OF assms]], rule guarded_andthen [OF get_interface_guarded [OF wf]],
        simp add: ok, rule guarded_andthen [OF get_protocol_guarded [OF wf]], erule conjunct1,
        (rule guarded_andthen [OF get_number_guarded(2) [OF wf]] guarded_andthen [OF get_number_guarded(1) [OF wf]])+,
        simp add: net_ok_def wf_wfp_def)
  then show ?thesis by (simp add: connect_fields_def)
qed

lemma gather_v6_guarded:
  assumes "wf_net_event ev" "net_ok g" "ipProtocol (ng_NI g) = 0"
  shows "guarded (list_all (there H ev CONNECT_V6) (connect_fields H ev CONNECT_V6 @
      (if value_at H ev CONNECT_V6 IP_PROTOCOL \<in> {Some (FWP_UINT8 6), Some (FWP_UINT8 17)}
       then [IP_LOCAL_PORT, IP_REMOTE_PORT] else []))) net_ok (gather_v6 H ev g)"
proof -
  note wf = assms(1)
  have ok: "wf_wfp (ng_NI g)" using assms(2) by (simp add: net_ok_def)
  let ?T = "there H ev CONNECT_V6" and ?p = "value_at H ev CONNECT_V6 IP_PROTOCOL"
  let ?ports = "?p \<in> {Some (FWP_UINT8 6), Some (FWP_UINT8 17)}"
  have port: "guarded (?ports \<longrightarrow> ?T f) (\<lambda>_. True) (if c then get_u16 H ev CONNECT_V6 f else Inr 0)" if "c \<longleftrightarrow> ?ports" for c f
    using get_number_guarded(1) [OF wf] that by (cases ?ports) (simp_all only: simp_thms if_True if_False guarded_True)
  have "guarded (?T ALE_APP_ID \<and> list_all ?T (interface_fields H ev CONNECT_V6) \<and> ?T IP_PROTOCOL \<and> ?T IP_LOCAL_ADDRESS
      \<and> ?T IP_REMOTE_ADDRESS \<and> (?ports \<longrightarrow> ?T IP_LOCAL_PORT) \<and> (?ports \<longrightarrow> ?T IP_REMOTE_PORT) \<and> True) net_ok (gather_v6 H ev g)"
    unfolding gather_v6_def Let_def
    by (rule guarded_andthen [OF get_app_guarded [OF assms(1,2)]], rule guarded_andthen [OF get_interface_guarded [OF wf]],
        simp add: ok, rule guarded_andthen [OF get_protocol_guarded [OF wf]], erule conjunct1,
        (rule guarded_andthen [OF get_addr16_guarded [OF wf]])+,
        (rule guarded_andthen [OF port], (use assms(3) in \<open>force split: option.splits FWP_VALUE.splits\<close>)[1])+,
        auto simp: net_ok_def wf_wfp_def split: option.splits)
  then show ?thesis by (auto simp: connect_fields_def)
qed

lemma gather_resource_guarded:
  assumes "wf_net_event ev" "wf_wfp NI"
  shows "guarded (list_all (there H ev fam) [IP_LOCAL_ADDRESS_TYPE, ALE_PROMISCUOUS_MODE, IP_LOCAL_INTERFACE, INTERFACE_TYPE])
    wf_wfp (gather_resource H ev fam NI)"
proof -
  note wf = assms(1)
  let ?T = "there H ev fam"
  have i: "guarded True wf_wfp (case v of FWP_UINT64 q \<Rightarrow> andthen (load q) (\<lambda>i. Inr (NI\<lparr>wfp_interface := i\<rparr>)) | _ \<Rightarrow> Inr NI)"
    if v: "wf_value v" and NI: "wf_wfp NI" for v NI
  proof (cases v)
    case (FWP_UINT64 q)
    then obtain a i where "q = Ptr a i" using v by (cases q) (auto simp: wf_value_def)
    then show ?thesis using FWP_UINT64 NI by (simp add: wf_wfp_def)
  qed (use NI in simp_all)
  have t: "guarded (?T f) wf_wfp (get_type H ev fam f NI)" if "wf_wfp NI" for f NI
    using guarded_mono [OF get_type_guarded [OF wf that]] by blast
  have "guarded (?T IP_LOCAL_ADDRESS_TYPE \<and> ?T ALE_PROMISCUOUS_MODE \<and> ?T IP_LOCAL_INTERFACE \<and> True \<and> ?T INTERFACE_TYPE)
      wf_wfp (gather_resource H ev fam NI)"
    unfolding gather_resource_def Let_def
    by (rule guarded_read [OF wf])+
       (rule guarded_andthen [OF i t], assumption, use assms(2) in \<open>auto simp: wf_wfp_def split: FWP_VALUE.split\<close>)
  then show ?thesis by simp
qed

lemma gather_resources_guarded:
  assumes "wf_net_event ev" "net_ok g"
  shows "guarded (list_all (there H ev RESOURCE_V4) resource_fields) net_ok (gather_resource_v4 H ev g)"
    "guarded (list_all (there H ev RESOURCE_V6) resource_fields) net_ok (gather_resource_v6 H ev g)"
proof -
  have ok: "net_ok (g\<lparr>ng_event_type := MM_NETWORK_RESOURCE, ng_netconn := False\<rparr>)"
    using assms(2) by (simp add: net_ok_def)
  note app = guarded_andthen [OF get_app_guarded [OF assms(1) ok]]
  note res = guarded_andthen [OF gather_resource_guarded [OF assms(1)]]
  have "guarded (there H ev RESOURCE_V4 ALE_APP_ID \<and> there H ev RESOURCE_V4 IP_LOCAL_ADDRESS
      \<and> list_all (there H ev RESOURCE_V4) [IP_LOCAL_ADDRESS_TYPE, ALE_PROMISCUOUS_MODE, IP_LOCAL_INTERFACE, INTERFACE_TYPE]
      \<and> True) net_ok (gather_resource_v4 H ev g)"
    unfolding gather_resource_v4_def Let_def
    by (rule app, rule guarded_read [OF assms(1)], rule res)
       (auto simp: net_ok_def wf_wfp_def split: FWP_VALUE.split)
  then show "guarded (list_all (there H ev RESOURCE_V4) resource_fields) net_ok (gather_resource_v4 H ev g)"
    by (simp add: resource_fields_def)
  have "guarded (there H ev RESOURCE_V6 ALE_APP_ID \<and> there H ev RESOURCE_V6 IP_LOCAL_ADDRESS
      \<and> list_all (there H ev RESOURCE_V6) [IP_LOCAL_ADDRESS_TYPE, ALE_PROMISCUOUS_MODE, IP_LOCAL_INTERFACE, INTERFACE_TYPE]
      \<and> True) net_ok (gather_resource_v6 H ev g)"
    unfolding gather_resource_v6_def Let_def
    by (rule app, rule guarded_andthen [OF get_addr16_guarded [OF assms(1)]], rule res)
       (auto simp: net_ok_def wf_wfp_def split: option.splits)
  then show "guarded (list_all (there H ev RESOURCE_V6) resource_fields) net_ok (gather_resource_v6 H ev g)"
    by (simp add: resource_fields_def)
qed

lemma net_gather_guarded:
  assumes "wf_net_event ev"
  shows "guarded (fields_there H ev) net_ok (net_gather H ev)"
proof -
  let ?NI = "case ne_packetDirection ev of None \<Rightarrow> zero_ni | Some d \<Rightarrow> zero_ni\<lparr>Direction := ucast d\<rparr>"
  let ?g = "\<lparr>ng_NI = ?NI, ng_app = \<lparr>Length = 0, MaximumLength = 0, Buffer = Null\<rparr>,
    ng_event_type = NETWORK_CONNECTION, ng_netconn = True, ng_littleEndian = True\<rparr>"
  have g: "net_ok ?g" "ipProtocol (ng_NI ?g) = 0"
    by (simp_all add: net_ok_def wf_app_def wf_wfp_def zero_ni_def wf_addr6_def split: option.split)
  show ?thesis
    unfolding net_gather_def fields_there_def Let_def
    by (intro guarded_if gather_v4_guarded [OF assms g(1)] gather_v6_guarded [OF assms g] gather_resources_guarded [OF assms g(1)])
       (simp only: guarded_True g(1))
qed

section \<open>What is gathered\<close>

text \<open>The values at the positions, or zero where the type is another one.\<close>

definition u8_at :: "wfp_headers \<Rightarrow> net_event \<Rightarrow> wfp_family \<Rightarrow> wfp_field \<Rightarrow> u8" where
  "u8_at H ev fam f = (case value_at H ev fam f of Some (FWP_UINT8 v) \<Rightarrow> v | _ \<Rightarrow> 0)"

definition u16_at :: "wfp_headers \<Rightarrow> net_event \<Rightarrow> wfp_family \<Rightarrow> wfp_field \<Rightarrow> u16" where
  "u16_at H ev fam f = (case value_at H ev fam f of Some (FWP_UINT16 v) \<Rightarrow> v | _ \<Rightarrow> 0)"

definition u32_at :: "wfp_headers \<Rightarrow> net_event \<Rightarrow> wfp_family \<Rightarrow> wfp_field \<Rightarrow> u32" where
  "u32_at H ev fam f = (case value_at H ev fam f of Some (FWP_UINT32 v) \<Rightarrow> v | _ \<Rightarrow> 0)"

definition u64_at :: "wfp_headers \<Rightarrow> net_event \<Rightarrow> wfp_family \<Rightarrow> wfp_field \<Rightarrow> u64" where
  "u64_at H ev fam f = (case value_at H ev fam f of Some (FWP_UINT64 (Ptr _ v)) \<Rightarrow> v | _ \<Rightarrow> 0)"

definition addr_at :: "wfp_headers \<Rightarrow> net_event \<Rightarrow> wfp_family \<Rightarrow> wfp_field \<Rightarrow> u8 list ptr" where
  "addr_at H ev fam f = (case value_at H ev fam f of Some (FWP_BYTE_ARRAY16 q) \<Rightarrow> q | _ \<Rightarrow> Null)"

text \<open>The member \<open>uint8\<close> of a value of whatever type.\<close>

definition byte_at :: "wfp_headers \<Rightarrow> net_event \<Rightarrow> wfp_family \<Rightarrow> wfp_field \<Rightarrow> u8" where
  "byte_at H ev fam f = (case value_at H ev fam f of Some v \<Rightarrow> fwp_uint8 v | None \<Rightarrow> 0)"

text \<open>The path without its final NUL, and the interface with its type.\<close>

definition app_at :: "wfp_headers \<Rightarrow> net_event \<Rightarrow> wfp_family \<Rightarrow> UNICODE_STRING" where
  "app_at H ev fam = (case value_at H ev fam ALE_APP_ID of
     Some (FWP_BYTE_BLOB (Ptr _ (sz, bs))) \<Rightarrow> \<lparr>Length = ucast sz - 2, MaximumLength = ucast sz - 2, Buffer = bs\<rparr>
   | _ \<Rightarrow> \<lparr>Length = 0, MaximumLength = 0, Buffer = Null\<rparr>)"

definition interface_at :: "wfp_headers \<Rightarrow> net_event \<Rightarrow> wfp_family \<Rightarrow> u64 \<times> u32" where
  "interface_at H ev fam = (case value_at H ev fam IP_ARRIVAL_INTERFACE of
     Some (FWP_UINT64 _) \<Rightarrow> (u64_at H ev fam IP_ARRIVAL_INTERFACE, u32_at H ev fam ARRIVAL_INTERFACE_TYPE)
   | _ \<Rightarrow> (case value_at H ev fam IP_LOCAL_INTERFACE of
       Some (FWP_UINT64 _) \<Rightarrow> (u64_at H ev fam IP_LOCAL_INTERFACE, u32_at H ev fam INTERFACE_TYPE) | _ \<Rightarrow> (0, 0)))"

text \<open>What an event says, by its layer. Over IPv4 the addresses of a packet that is known not to be inbound are
  swapped.\<close>

definition host_order :: "net_event \<Rightarrow> bool" where
  "host_order ev = (case ne_packetDirection ev of None \<Rightarrow> True | Some d \<Rightarrow> (ucast d :: u8) = 1)"

definition ipv4_in_order :: "net_event \<Rightarrow> u32 \<Rightarrow> u32" where
  "ipv4_in_order ev a = (if host_order ev then a else htonl a)"

definition net_direction :: "net_event \<Rightarrow> WFP_INFO" where
  "net_direction ev = (case ne_packetDirection ev of None \<Rightarrow> zero_ni | Some d \<Rightarrow> zero_ni\<lparr>Direction := ucast d\<rparr>)"

definition connect_at :: "wfp_headers \<Rightarrow> net_event \<Rightarrow> wfp_family \<Rightarrow> WFP_INFO" where
  "connect_at H ev fam = (net_direction ev)\<lparr>wfp_interface := fst (interface_at H ev fam),
     interfaceType := snd (interface_at H ev fam), ipProtocol := u8_at H ev fam IP_PROTOCOL\<rparr>"

definition resource_at :: "wfp_headers \<Rightarrow> net_event \<Rightarrow> wfp_family \<Rightarrow> WFP_INFO" where
  "resource_at H ev fam = (net_direction ev)\<lparr>addrType := u8_at H ev fam IP_LOCAL_ADDRESS_TYPE,
     promiscuous := byte_at H ev fam ALE_PROMISCUOUS_MODE, wfp_interface := u64_at H ev fam IP_LOCAL_INTERFACE,
     interfaceType := u32_at H ev fam INTERFACE_TYPE\<rparr>"

definition net_expected :: "wfp_headers \<Rightarrow> net_event \<Rightarrow> net_gathered" where
  "net_expected H ev =
     (let at = (\<lambda>ls. ne_layerId ev \<in> set (map (FWPS_LAYER H) ls));
          said = (\<lambda>NI app conn le. \<lparr>ng_NI = NI, ng_app = app,
            ng_event_type = (if conn then NETWORK_CONNECTION else MM_NETWORK_RESOURCE), ng_netconn = conn, ng_littleEndian = le\<rparr>) in
      if at [ALE_AUTH_CONNECT_V4, ALE_AUTH_LISTEN_V4, ALE_AUTH_RECV_ACCEPT_V4, DATAGRAM_DATA_V4] then
        said ((connect_at H ev CONNECT_V4)\<lparr>localIpv4Addr := ipv4_in_order ev (u32_at H ev CONNECT_V4 IP_LOCAL_ADDRESS),
            remoteIpv4Addr := ipv4_in_order ev (u32_at H ev CONNECT_V4 IP_REMOTE_ADDRESS),
            localPort := u16_at H ev CONNECT_V4 IP_LOCAL_PORT, remotePort := u16_at H ev CONNECT_V4 IP_REMOTE_PORT\<rparr>)
          (app_at H ev CONNECT_V4) True (host_order ev)
      else if at [ALE_AUTH_CONNECT_V6, ALE_AUTH_LISTEN_V6, ALE_AUTH_RECV_ACCEPT_V6, DATAGRAM_DATA_V6] then
        said ((connect_at H ev CONNECT_V6)\<lparr>localIpv6Addr := addr_at H ev CONNECT_V6 IP_LOCAL_ADDRESS,
            remoteIpv6Addr := addr_at H ev CONNECT_V6 IP_REMOTE_ADDRESS,
            localPort := (if u8_at H ev CONNECT_V6 IP_PROTOCOL \<in> {6, 17} then u16_at H ev CONNECT_V6 IP_LOCAL_PORT else 0),
            remotePort := (if u8_at H ev CONNECT_V6 IP_PROTOCOL \<in> {6, 17} then u16_at H ev CONNECT_V6 IP_REMOTE_PORT else 0)\<rparr>)
          (app_at H ev CONNECT_V6) True True
      else if at [ALE_RESOURCE_ASSIGNMENT_V4] then
        said ((resource_at H ev RESOURCE_V4)\<lparr>localIpv4Addr := htonl (u32_at H ev RESOURCE_V4 IP_LOCAL_ADDRESS)\<rparr>)
          (app_at H ev RESOURCE_V4) False True
      else if at [ALE_RESOURCE_ASSIGNMENT_V6] then
        said ((resource_at H ev RESOURCE_V6)\<lparr>localIpv6Addr := addr_at H ev RESOURCE_V6 IP_LOCAL_ADDRESS\<rparr>)
          (app_at H ev RESOURCE_V6) False True
      else said (net_direction ev) \<lparr>Length = 0, MaximumLength = 0, Buffer = Null\<rparr> True True)"

lemma read_value_at: "read_value H ev fam f = Inr v \<longleftrightarrow> value_at H ev fam f = Some v"
  by (simp add: read_value_def value_at_def index_def Let_def)

lemma load_Inr: "load q = Inr v \<longleftrightarrow> (\<exists>a. q = Ptr a v)"
  by (cases q) auto

lemma read_valueE:
  assumes "andthen (read_value H ev fam f) g = Inr x"
  obtains v where "value_at H ev fam f = Some v" "g v = Inr x"
  using assms unfolding andthen_Inr_iff read_value_at by blast

lemma get_u16_at: "get_u16 H ev fam f = Inr p \<Longrightarrow> p = u16_at H ev fam f"
  unfolding get_u16_def u16_at_def by (erule read_valueE) (simp split: FWP_VALUE.splits)

lemma get_u32_at: "get_u32 H ev fam f = Inr p \<Longrightarrow> p = u32_at H ev fam f"
  unfolding get_u32_def u32_at_def by (erule read_valueE) (simp split: FWP_VALUE.splits)

lemma get_addr16_at:
  "get_addr16 H ev fam f = Inr la \<Longrightarrow> (case la of Some q \<Rightarrow> q | None \<Rightarrow> Null) = addr_at H ev fam f"
  unfolding get_addr16_def addr_at_def by (erule read_valueE) (auto split: FWP_VALUE.splits)

lemma same_fields:
  "interfaceType NI = 0 \<Longrightarrow> NI\<lparr>interfaceType := 0\<rparr> = NI" "wfp_interface NI = 0 \<Longrightarrow> NI\<lparr>wfp_interface := 0\<rparr> = NI"
  "ipProtocol NI = 0 \<Longrightarrow> NI\<lparr>ipProtocol := 0\<rparr> = NI" "ng_app g = app \<Longrightarrow> g\<lparr>ng_app := app\<rparr> = g"
  for NI :: WFP_INFO and g :: net_gathered
  by (cases NI; cases g; simp)+

lemma get_app_at:
  assumes "get_app H ev fam g = Inr g'" "ng_app g = \<lparr>Length = 0, MaximumLength = 0, Buffer = Null\<rparr>"
  shows "g' = g\<lparr>ng_app := app_at H ev fam\<rparr>"
proof (rule read_valueE [OF assms(1) [unfolded get_app_def]])
  fix v
  assume v: "value_at H ev fam ALE_APP_ID = Some v" "(case v of FWP_BYTE_BLOB q \<Rightarrow> andthen (load q) (\<lambda>(sz, bs).
    let n = ucast sz - 2 in Inr (g\<lparr>ng_app := \<lparr>Length = n, MaximumLength = n, Buffer = bs\<rparr>\<rparr>)) | _ \<Rightarrow> Inr g) = Inr g'"
  show ?thesis
  proof (cases v)
    case (FWP_BYTE_BLOB q)
    then obtain a sz bs where "q = Ptr a (sz, bs)" using v(2) by (cases q) auto
    then show ?thesis using v FWP_BYTE_BLOB by (simp add: app_at_def Let_def)
  qed (use v assms(2) in \<open>simp_all add: app_at_def same_fields\<close>)
qed

lemma get_type_at:
  assumes "get_type H ev fam f NI = Inr NI'" "interfaceType NI = 0"
  shows "NI' = NI\<lparr>interfaceType := u32_at H ev fam f\<rparr>"
proof (rule read_valueE [OF assms(1) [unfolded get_type_def]])
  fix v
  assume v: "value_at H ev fam f = Some v" "(case v of FWP_UINT32 t \<Rightarrow> Inr (NI\<lparr>interfaceType := t\<rparr>) | _ \<Rightarrow> Inr NI) = Inr NI'"
  show ?thesis by (cases v) (use v assms(2) in \<open>simp_all add: u32_at_def same_fields\<close>)
qed

lemma interface_value:
  assumes "andthen (load q) (\<lambda>i. get_type H ev fam f (NI\<lparr>wfp_interface := i\<rparr>)) = Inr NI'" "interfaceType NI = 0"
    and "value_at H ev fam f' = Some (FWP_UINT64 q)"
  shows "NI' = NI\<lparr>wfp_interface := u64_at H ev fam f', interfaceType := u32_at H ev fam f\<rparr>"
proof -
  obtain a i where q: "q = Ptr a i" "get_type H ev fam f (NI\<lparr>wfp_interface := i\<rparr>) = Inr NI'"
    using assms(1) by (cases q) auto
  then show ?thesis using get_type_at [OF q(2)] assms(2,3) by (simp add: u64_at_def)
qed

lemma get_interface_at:
  assumes "get_interface H ev fam NI = Inr NI'" "wfp_interface NI = 0" "interfaceType NI = 0"
  shows "NI' = NI\<lparr>wfp_interface := fst (interface_at H ev fam), interfaceType := snd (interface_at H ev fam)\<rparr>"
proof (rule read_valueE [OF assms(1) [unfolded get_interface_def]])
  have none: "NI\<lparr>wfp_interface := 0, interfaceType := 0\<rparr> = NI" using assms(2,3) by (simp add: same_fields)
  fix v
  assume v: "value_at H ev fam IP_ARRIVAL_INTERFACE = Some v" "(case v of
       FWP_UINT64 q \<Rightarrow> andthen (load q) (\<lambda>i. get_type H ev fam ARRIVAL_INTERFACE_TYPE (NI\<lparr>wfp_interface := i\<rparr>))
     | _ \<Rightarrow> andthen (read_value H ev fam IP_LOCAL_INTERFACE) (\<lambda>v. case v of
         FWP_UINT64 q \<Rightarrow> andthen (load q) (\<lambda>i. get_type H ev fam INTERFACE_TYPE (NI\<lparr>wfp_interface := i\<rparr>))
       | _ \<Rightarrow> Inr NI)) = Inr NI'"
  show ?thesis
  proof (cases "\<exists>q. v = FWP_UINT64 q")
    case True
    then obtain q where q: "v = FWP_UINT64 q" by blast
    show ?thesis using interface_value [of q H ev fam ARRIVAL_INTERFACE_TYPE NI NI'] v q assms(3) by (simp add: interface_at_def)
  next
    case False
    then have "andthen (read_value H ev fam IP_LOCAL_INTERFACE) (\<lambda>v. case v of
         FWP_UINT64 q \<Rightarrow> andthen (load q) (\<lambda>i. get_type H ev fam INTERFACE_TYPE (NI\<lparr>wfp_interface := i\<rparr>))
       | _ \<Rightarrow> Inr NI) = Inr NI'" "interface_at H ev fam = (case value_at H ev fam IP_LOCAL_INTERFACE of
       Some (FWP_UINT64 _) \<Rightarrow> (u64_at H ev fam IP_LOCAL_INTERFACE, u32_at H ev fam INTERFACE_TYPE) | _ \<Rightarrow> (0, 0))"
      using v by (cases v; simp add: interface_at_def)+
    note * = this
    show ?thesis
    proof (rule read_valueE [OF *(1)])
      fix w
      assume w: "value_at H ev fam IP_LOCAL_INTERFACE = Some w" "(case w of
         FWP_UINT64 q \<Rightarrow> andthen (load q) (\<lambda>i. get_type H ev fam INTERFACE_TYPE (NI\<lparr>wfp_interface := i\<rparr>))
       | _ \<Rightarrow> Inr NI) = Inr NI'"
      show ?thesis
        by (cases w) (use w *(2) none interface_value [of _ H ev fam INTERFACE_TYPE NI NI'] assms(3) in simp_all)
    qed
  qed
qed

lemma get_protocol_at:
  assumes "get_protocol H ev fam NI = Inr NI'" "ipProtocol NI = 0"
  shows "NI' = NI\<lparr>ipProtocol := u8_at H ev fam IP_PROTOCOL\<rparr>"
proof (rule read_valueE [OF assms(1) [unfolded get_protocol_def]])
  fix v
  assume v: "value_at H ev fam IP_PROTOCOL = Some v" "(case v of FWP_UINT8 p \<Rightarrow> Inr (NI\<lparr>ipProtocol := p\<rparr>) | _ \<Rightarrow> Inr NI) = Inr NI'"
  show ?thesis by (cases v) (use v assms(2) in \<open>simp_all add: u8_at_def same_fields\<close>)
qed

lemma zero_fields [simp]:
  "ipProtocol (net_direction ev) = 0" "interfaceType (net_direction ev) = 0" "wfp_interface (net_direction ev) = 0"
  "addrType (net_direction ev) = 0" "promiscuous (net_direction ev) = 0" "localIpv4Addr (net_direction ev) = 0"
  "localIpv6Addr (net_direction ev) = Null" "remoteIpv6Addr (net_direction ev) = Null"
  by (simp_all add: net_direction_def zero_ni_def split: option.split)

lemma htonl_zero [simp]: "htonl 0 = 0"
  by (simp add: htonl_def)

abbreviation (input) start_at :: "net_event \<Rightarrow> net_gathered" where
  "start_at ev \<equiv> \<lparr>ng_NI = net_direction ev, ng_app = \<lparr>Length = 0, MaximumLength = 0, Buffer = Null\<rparr>,
     ng_event_type = NETWORK_CONNECTION, ng_netconn = True, ng_littleEndian = True\<rparr>"

lemma gather_v4_at:
  assumes "gather_v4 H ev (start_at ev) = Inr g"
  shows "g = \<lparr>ng_NI = (connect_at H ev CONNECT_V4)\<lparr>localIpv4Addr := ipv4_in_order ev (u32_at H ev CONNECT_V4 IP_LOCAL_ADDRESS),
      remoteIpv4Addr := ipv4_in_order ev (u32_at H ev CONNECT_V4 IP_REMOTE_ADDRESS),
      localPort := u16_at H ev CONNECT_V4 IP_LOCAL_PORT, remotePort := u16_at H ev CONNECT_V4 IP_REMOTE_PORT\<rparr>,
    ng_app = app_at H ev CONNECT_V4, ng_event_type = NETWORK_CONNECTION, ng_netconn = True, ng_littleEndian = host_order ev\<rparr>"
proof -
  obtain g1 NI NI' where s: "get_app H ev CONNECT_V4 (start_at ev) = Inr g1" "get_interface H ev CONNECT_V4 (ng_NI g1) = Inr NI"
    "get_protocol H ev CONNECT_V4 NI = Inr NI'"
    "g = (g1\<lparr>ng_NI := NI'\<lparr>localIpv4Addr := ipv4_in_order ev (u32_at H ev CONNECT_V4 IP_LOCAL_ADDRESS),
      remoteIpv4Addr := ipv4_in_order ev (u32_at H ev CONNECT_V4 IP_REMOTE_ADDRESS),
      localPort := u16_at H ev CONNECT_V4 IP_LOCAL_PORT, remotePort := u16_at H ev CONNECT_V4 IP_REMOTE_PORT\<rparr>,
      ng_littleEndian := host_order ev\<rparr>)"
    using assms unfolding gather_v4_def Let_def andthen_Inr_iff
    by (auto simp: ipv4_in_order_def host_order_def dest!: get_u16_at get_u32_at split: option.splits)
  have g1: "g1 = (start_at ev)\<lparr>ng_app := app_at H ev CONNECT_V4\<rparr>" using get_app_at [OF s(1)] by simp
  have NI: "NI = (net_direction ev)\<lparr>wfp_interface := fst (interface_at H ev CONNECT_V4),
      interfaceType := snd (interface_at H ev CONNECT_V4)\<rparr>" using get_interface_at [OF s(2)] g1 by simp
  have "NI' = connect_at H ev CONNECT_V4" using get_protocol_at [OF s(3)] NI by (simp add: connect_at_def)
  then show ?thesis using s(4) g1 by simp
qed

lemma zero_updates:
  "addrType NI = 0 \<Longrightarrow> NI\<lparr>addrType := 0\<rparr> = NI" "promiscuous NI = 0 \<Longrightarrow> NI\<lparr>promiscuous := 0\<rparr> = NI"
  "localIpv4Addr NI = 0 \<Longrightarrow> NI\<lparr>localIpv4Addr := 0\<rparr> = NI" "localIpv6Addr NI = Null \<Longrightarrow> NI\<lparr>localIpv6Addr := Null\<rparr> = NI"
  for NI :: WFP_INFO
  by (cases NI; simp)+

lemma protocol_kept: "ipProtocol (NI\<lparr>localIpv6Addr := a, remoteIpv6Addr := b\<rparr>) = ipProtocol NI"
  by simp

lemma gather_v6_at:
  assumes "gather_v6 H ev (start_at ev) = Inr g"
  shows "g = \<lparr>ng_NI = (connect_at H ev CONNECT_V6)\<lparr>localIpv6Addr := addr_at H ev CONNECT_V6 IP_LOCAL_ADDRESS,
      remoteIpv6Addr := addr_at H ev CONNECT_V6 IP_REMOTE_ADDRESS,
      localPort := (if u8_at H ev CONNECT_V6 IP_PROTOCOL \<in> {6, 17} then u16_at H ev CONNECT_V6 IP_LOCAL_PORT else 0),
      remotePort := (if u8_at H ev CONNECT_V6 IP_PROTOCOL \<in> {6, 17} then u16_at H ev CONNECT_V6 IP_REMOTE_PORT else 0)\<rparr>,
    ng_app = app_at H ev CONNECT_V6, ng_event_type = NETWORK_CONNECTION, ng_netconn = True, ng_littleEndian = True\<rparr>"
proof -
  obtain g1 NI NI' la ra lp rp where s: "get_app H ev CONNECT_V6 (start_at ev) = Inr g1"
    "get_interface H ev CONNECT_V6 (ng_NI g1) = Inr NI" "get_protocol H ev CONNECT_V6 NI = Inr NI'"
    "get_addr16 H ev CONNECT_V6 IP_LOCAL_ADDRESS = Inr la" "get_addr16 H ev CONNECT_V6 IP_REMOTE_ADDRESS = Inr ra"
    "(if ipProtocol NI' = 6 \<or> ipProtocol NI' = 17 then get_u16 H ev CONNECT_V6 IP_LOCAL_PORT else Inr 0) = Inr lp"
    "(if ipProtocol NI' = 6 \<or> ipProtocol NI' = 17 then get_u16 H ev CONNECT_V6 IP_REMOTE_PORT else Inr 0) = Inr rp"
    "g1\<lparr>ng_NI := NI'\<lparr>localIpv6Addr := (case la of Some q \<Rightarrow> q | None \<Rightarrow> localIpv6Addr NI'),
      remoteIpv6Addr := (case ra of Some q \<Rightarrow> q | None \<Rightarrow> remoteIpv6Addr NI'), localPort := lp, remotePort := rp\<rparr>\<rparr> = g"
    using assms unfolding gather_v6_def Let_def andthen_Inr_iff protocol_kept sum.inject by (elim exE conjE) (rule that)
  have g1: "g1 = (start_at ev)\<lparr>ng_app := app_at H ev CONNECT_V6\<rparr>" using get_app_at [OF s(1)] by simp
  have NI: "NI = (net_direction ev)\<lparr>wfp_interface := fst (interface_at H ev CONNECT_V6),
      interfaceType := snd (interface_at H ev CONNECT_V6)\<rparr>" using get_interface_at [OF s(2)] g1 by simp
  have NI': "NI' = connect_at H ev CONNECT_V6" using get_protocol_at [OF s(3)] NI by (simp add: connect_at_def)
  then have n: "ipProtocol NI' = u8_at H ev CONNECT_V6 IP_PROTOCOL" "localIpv6Addr NI' = Null" "remoteIpv6Addr NI' = Null"
    by (simp_all add: connect_at_def)
  have "lp = (if u8_at H ev CONNECT_V6 IP_PROTOCOL \<in> {6, 17} then u16_at H ev CONNECT_V6 IP_LOCAL_PORT else 0)"
    "rp = (if u8_at H ev CONNECT_V6 IP_PROTOCOL \<in> {6, 17} then u16_at H ev CONNECT_V6 IP_REMOTE_PORT else 0)"
    using s(6,7) n(1) by (auto dest: get_u16_at split: if_splits)
  moreover have "(case la of Some q \<Rightarrow> q | None \<Rightarrow> localIpv6Addr NI') = addr_at H ev CONNECT_V6 IP_LOCAL_ADDRESS"
    "(case ra of Some q \<Rightarrow> q | None \<Rightarrow> remoteIpv6Addr NI') = addr_at H ev CONNECT_V6 IP_REMOTE_ADDRESS"
    unfolding n(2,3) by (rule get_addr16_at [OF s(4)] get_addr16_at [OF s(5)])+
  ultimately show ?thesis using s(8) [symmetric] g1 NI' by simp
qed

lemma gather_resource_at:
  assumes "gather_resource H ev fam NI = Inr NI'"
    and "addrType NI = 0" "promiscuous NI = 0" "wfp_interface NI = 0" "interfaceType NI = 0"
  shows "NI' = NI\<lparr>addrType := u8_at H ev fam IP_LOCAL_ADDRESS_TYPE, promiscuous := byte_at H ev fam ALE_PROMISCUOUS_MODE,
     wfp_interface := u64_at H ev fam IP_LOCAL_INTERFACE, interfaceType := u32_at H ev fam INTERFACE_TYPE\<rparr>"
proof -
  obtain t m v NI2 where r: "value_at H ev fam IP_LOCAL_ADDRESS_TYPE = Some t" "value_at H ev fam ALE_PROMISCUOUS_MODE = Some m"
    "value_at H ev fam IP_LOCAL_INTERFACE = Some v"
    "(case v of FWP_UINT64 q \<Rightarrow> andthen (load q) (\<lambda>i. Inr
        ((if m \<noteq> FWP_EMPTY then (case t of FWP_UINT8 t \<Rightarrow> NI\<lparr>addrType := t\<rparr> | _ \<Rightarrow> NI)\<lparr>promiscuous := fwp_uint8 m\<rparr>
          else (case t of FWP_UINT8 t \<Rightarrow> NI\<lparr>addrType := t\<rparr> | _ \<Rightarrow> NI))\<lparr>wfp_interface := i\<rparr>))
      | _ \<Rightarrow> Inr (if m \<noteq> FWP_EMPTY then (case t of FWP_UINT8 t \<Rightarrow> NI\<lparr>addrType := t\<rparr> | _ \<Rightarrow> NI)\<lparr>promiscuous := fwp_uint8 m\<rparr>
          else (case t of FWP_UINT8 t \<Rightarrow> NI\<lparr>addrType := t\<rparr> | _ \<Rightarrow> NI))) = Inr NI2"
    "get_type H ev fam INTERFACE_TYPE NI2 = Inr NI'"
    using assms(1) unfolding gather_resource_def Let_def andthen_Inr_iff read_value_at by (elim exE conjE) (rule that)
  have "(case t of FWP_UINT8 t \<Rightarrow> NI\<lparr>addrType := t\<rparr> | _ \<Rightarrow> NI) = NI\<lparr>addrType := u8_at H ev fam IP_LOCAL_ADDRESS_TYPE\<rparr>"
    using r(1) assms(2) by (cases t) (simp_all add: u8_at_def zero_updates)
  moreover have "(if m \<noteq> FWP_EMPTY then N\<lparr>promiscuous := fwp_uint8 m\<rparr> else N)
      = N\<lparr>promiscuous := byte_at H ev fam ALE_PROMISCUOUS_MODE\<rparr>" if "promiscuous N = 0" for N :: WFP_INFO
    using r(2) that by (cases "m = FWP_EMPTY") (simp_all add: byte_at_def zero_updates)
  ultimately have m: "(if m \<noteq> FWP_EMPTY then (case t of FWP_UINT8 t \<Rightarrow> NI\<lparr>addrType := t\<rparr> | _ \<Rightarrow> NI)\<lparr>promiscuous := fwp_uint8 m\<rparr>
        else (case t of FWP_UINT8 t \<Rightarrow> NI\<lparr>addrType := t\<rparr> | _ \<Rightarrow> NI))
      = NI\<lparr>addrType := u8_at H ev fam IP_LOCAL_ADDRESS_TYPE, promiscuous := byte_at H ev fam ALE_PROMISCUOUS_MODE\<rparr>" (is "_ = ?N")
    using assms(3) by simp
  have i: "NI2 = ?N\<lparr>wfp_interface := u64_at H ev fam IP_LOCAL_INTERFACE\<rparr>"
  proof (cases "\<exists>q. v = FWP_UINT64 q")
    case True
    then obtain q where "v = FWP_UINT64 q" by blast
    then show ?thesis using r(3) r(4) [unfolded m] by (cases q) (simp_all add: u64_at_def)
  next
    case False
    then have "u64_at H ev fam IP_LOCAL_INTERFACE = 0" using r(3) by (cases v) (simp_all add: u64_at_def)
    moreover have "?N\<lparr>wfp_interface := 0\<rparr> = ?N" by (rule same_fields(2)) (simp add: assms(4))
    moreover have "NI2 = ?N" using False r(4) [unfolded m] by (cases v) simp_all
    ultimately show ?thesis by simp
  qed
  show ?thesis using get_type_at [OF r(5)] i assms(5) by simp
qed

lemma gather_resource_v4_at:
  assumes "gather_resource_v4 H ev (start_at ev) = Inr g"
  shows "g = \<lparr>ng_NI = (resource_at H ev RESOURCE_V4)\<lparr>localIpv4Addr := htonl (u32_at H ev RESOURCE_V4 IP_LOCAL_ADDRESS)\<rparr>,
    ng_app = app_at H ev RESOURCE_V4, ng_event_type = MM_NETWORK_RESOURCE, ng_netconn = False, ng_littleEndian = True\<rparr>"
proof -
  let ?start = "(start_at ev)\<lparr>ng_event_type := MM_NETWORK_RESOURCE, ng_netconn := False\<rparr>"
  obtain g1 v NI where s: "get_app H ev RESOURCE_V4 ?start = Inr g1" "value_at H ev RESOURCE_V4 IP_LOCAL_ADDRESS = Some v"
    "gather_resource H ev RESOURCE_V4 (case v of FWP_UINT32 a \<Rightarrow> (ng_NI g1)\<lparr>localIpv4Addr := htonl a\<rparr> | _ \<Rightarrow> ng_NI g1) = Inr NI"
    "g1\<lparr>ng_NI := NI\<rparr> = g"
    using assms unfolding gather_resource_v4_def Let_def andthen_Inr_iff read_value_at sum.inject by (elim exE conjE) (rule that)
  have g1: "g1 = ?start\<lparr>ng_app := app_at H ev RESOURCE_V4\<rparr>" using get_app_at [OF s(1)] by simp
  have a: "(case v of FWP_UINT32 a \<Rightarrow> (ng_NI g1)\<lparr>localIpv4Addr := htonl a\<rparr> | _ \<Rightarrow> ng_NI g1)
      = (net_direction ev)\<lparr>localIpv4Addr := htonl (u32_at H ev RESOURCE_V4 IP_LOCAL_ADDRESS)\<rparr>"
    using s(2) g1 by (cases v) (simp_all add: u32_at_def zero_updates)
  show ?thesis using gather_resource_at [OF s(3) [unfolded a]] s(4) [symmetric] g1 by (simp add: resource_at_def)
qed

lemma gather_resource_v6_at:
  assumes "gather_resource_v6 H ev (start_at ev) = Inr g"
  shows "g = \<lparr>ng_NI = (resource_at H ev RESOURCE_V6)\<lparr>localIpv6Addr := addr_at H ev RESOURCE_V6 IP_LOCAL_ADDRESS\<rparr>,
    ng_app = app_at H ev RESOURCE_V6, ng_event_type = MM_NETWORK_RESOURCE, ng_netconn = False, ng_littleEndian = True\<rparr>"
proof -
  let ?start = "(start_at ev)\<lparr>ng_event_type := MM_NETWORK_RESOURCE, ng_netconn := False\<rparr>"
  obtain g1 la NI where s: "get_app H ev RESOURCE_V6 ?start = Inr g1" "get_addr16 H ev RESOURCE_V6 IP_LOCAL_ADDRESS = Inr la"
    "gather_resource H ev RESOURCE_V6 (case la of Some q \<Rightarrow> (ng_NI g1)\<lparr>localIpv6Addr := q\<rparr> | None \<Rightarrow> ng_NI g1) = Inr NI"
    "g1\<lparr>ng_NI := NI\<rparr> = g"
    using assms unfolding gather_resource_v6_def Let_def andthen_Inr_iff sum.inject by (elim exE conjE) (rule that)
  have g1: "g1 = ?start\<lparr>ng_app := app_at H ev RESOURCE_V6\<rparr>" using get_app_at [OF s(1)] by simp
  have a: "(case la of Some q \<Rightarrow> (ng_NI g1)\<lparr>localIpv6Addr := q\<rparr> | None \<Rightarrow> ng_NI g1)
      = (net_direction ev)\<lparr>localIpv6Addr := addr_at H ev RESOURCE_V6 IP_LOCAL_ADDRESS\<rparr>"
    using get_addr16_at [OF s(2)] g1 by (cases la) (simp_all add: zero_updates)
  show ?thesis using gather_resource_at [OF s(3) [unfolded a]] s(4) [symmetric] g1 by (simp add: resource_at_def)
qed

lemma first_branch:
  assumes "(if a then w else if b then x else if c then y else if d then z else Inr u) = Inr g"
    and "w = Inr g \<Longrightarrow> g = w'" "x = Inr g \<Longrightarrow> g = x'" "y = Inr g \<Longrightarrow> g = y'" "z = Inr g \<Longrightarrow> g = z'" "u = u'"
  shows "g = (if a then w' else if b then x' else if c then y' else if d then z' else u')"
  using assms by (simp split: if_splits)

text \<open>What \<open>net_gather\<close> returns is what the event says.\<close>

lemma net_gather_expected:
  assumes "net_gather H ev = Inr g"
  shows "g = net_expected H ev"
proof -
  have d: "(case ne_packetDirection ev of None \<Rightarrow> zero_ni | Some d \<Rightarrow> zero_ni\<lparr>Direction := ucast d\<rparr>) = net_direction ev"
    by (simp add: net_direction_def)
  show ?thesis unfolding net_expected_def Let_def
    by (rule first_branch [OF assms [unfolded net_gather_def Let_def d]])
      (simp_all only: gather_v4_at gather_v6_at gather_resource_v4_at gather_resource_v6_at if_True if_False)
qed

section \<open>The callback\<close>

text \<open>The process id that is logged and the handle that is looked up.\<close>

definition net_process :: "kernel \<Rightarrow> net_event \<Rightarrow> u64 \<times> u64" where
  "net_process K ev = (case ne_processId ev of
     Some p \<Rightarrow> if ucast p \<noteq> (0 :: u32) then (ucast (ucast p :: u32), p)
       else (PsGetCurrentProcessId K, PsGetCurrentProcessId K)
   | None \<Rightarrow> (PsGetCurrentProcessId K, PsGetCurrentProcessId K))"

definition network_event :: "net_event \<Rightarrow> net_gathered \<Rightarrow> PROC_INFO ptr \<Rightarrow> net_gathered" where
  "network_event ev g q = g\<lparr>ng_NI := (ng_NI g)\<lparr>wfp_PI := q, wfp_layer := ne_layerId ev\<rparr>\<rparr>"

definition network_verdict :: "rtl \<Rightarrow> GC \<Rightarrow> net_gathered \<Rightarrow> inspection" where
  "network_verdict R G g = decide_log (rules_hit (network_holds R (ng_littleEndian g) (ng_NI g)) G WINC)
     (rules_hit (network_holds R (ng_littleEndian g) (ng_NI g)) G WEXC)"

lemma network_event_simps [simp]:
  "net_ok (network_event ev g q) = net_ok g" "ng_app (network_event ev g q) = ng_app g"
  "wfp_PI (ng_NI (network_event ev g q)) = q" "wf_wfp (ng_NI (network_event ev g q)) = wf_wfp (ng_NI g)"
  by (simp_all add: network_event_def net_ok_def wf_wfp_def)

lemma network_verdict_same:
  assumes "follows G H" "same_process G p q" "net_ok g"
  shows "InspectNetworkEvent R H (ng_NI (network_event ev g q)) (ng_littleEndian (network_event ev g q))
    = Inr (network_verdict R G (network_event ev g (seen G p)))"
proof -
  have "network_holds R le (ng_NI (network_event ev g q)) = network_holds R le (ng_NI (network_event ev g (seen G p)))" for le
    by (rule ext) (simp add: network_holds_def network_event_def same_process_pred [OF assms(2)])
  moreover have "ng_littleEndian (network_event ev g r) = ng_littleEndian g" for r by (simp add: network_event_def)
  ultimately show ?thesis
    using assms(1,3) network_decides [of "ng_NI (network_event ev g q)" H R] rules_hit_frame [of G H]
    by (simp add: follows_def network_verdict_def config_ok_rules driver_okD net_ok_def)
qed

lemma network_calls_ok:
  assumes "same_process G p (wfp_PI (ng_NI g))" "net_ok g"
  shows "list_all call_ok (network_calls pid layer (cached G p \<noteq> None) g v)"
proof -
  have a: "call_ok (Some (16, ty, q))" if "wf_addr6 q" for q ty
    using that by (cases q) (auto simp: call_ok_def wf_addr6_def)
  have app: "call_ok (Some (ucast (Length (ng_app g)), IMAGE_FILE_NAME, Buffer (ng_app g)))"
    using assms(2) unat_bounds(2) [of "Length (ng_app g)"]
    by (cases "Buffer (ng_app g)") (auto simp: net_ok_def wf_app_def call_ok_def word_le_nat_alt unat_ucast_16_32)
  show ?thesis
    using same_process_calls(1) [OF assms(1)] a app assms(2)
    by (simp add: network_calls_def Let_def net_ok_def wf_wfp_def call_ok_when del: not_None_eq)
qed

lemma network_sound:
  assumes ok: "driver_ok G" and env: "pool_ample R" "wf_net_event ev" and fields: "fields_there H ev"
    and p: "net_process K ev = (pid, p)"
  obtains g q v G' where "net_gather H ev = Inr g" "v = network_verdict R G (network_event ev g (seen G p))"
    "NetClassifyCallback R K H G ev = Inr G'" "follows G G'" "\<And>r. cached G' r = cached G r" "same_process G p q"
    "logs G (\<not> in_skip v \<or> KEEP_EXCLUDES G) (fst (mm_id G)) (KeQuerySystemTimePrecise K)
       (network_calls pid (ne_layerId ev) (cached G p \<noteq> None) (network_event ev g q) v) G'"
proof -
  obtain g where g: "net_gather H ev = Inr g" "net_ok g"
    by (rule guardedE [OF net_gather_guarded [OF env(2), of H]]) (use fields in auto)
  define v where "v = network_verdict R G (network_event ev g (seen G p))"
  define rid where "rid = fst (mm_id G)"
  let ?cs = "\<lambda>q. network_calls pid (ne_layerId ev) (cached G p \<noteq> None) (network_event ev g q) v"
  let ?insp = "\<lambda>q H. InspectNetworkEvent R H (ng_NI (network_event ev g q)) (ng_littleEndian (network_event ev g q))"
  have insp: "?insp q H = Inr v" if "follows G H" "same_process G p q" for H q
    unfolding v_def by (rule network_verdict_same [OF that g(2)])
  have calls: "list_all call_ok (?cs q)" if "same_process G p q" for q
    using network_calls_ok [of G p "network_event ev g q"] that g(2) by simp
  show thesis
  proof (rule handled [OF ok env(1) rid_def, where insp = ?insp and p = p
        and cb = "NetClassifyCallback R K H G ev" and out = "\<lambda>G'. G'", OF insp calls _ that [OF g(1) v_def, folded rid_def]])
    fix G1 slot q G2 G3
    assume h: "mm_id G = (rid, G1)" "find_process G1 p Null = (slot, cached G p \<noteq> None, q, G2)"
      "?insp q G2 = Inr v" "KEEP_EXCLUDES G2 = KEEP_EXCLUDES G"
      "(if \<not> in_skip v \<or> KEEP_EXCLUDES G then log_all R (MM_Genrand K) 0 rid (KeQuerySystemTimePrecise K)
         (?cs q) G2 else Inr G2) = Inr G3"
    have pr: "(case ne_processId ev of
        Some p \<Rightarrow> if (case ne_processId ev of None \<Rightarrow> 0 | Some p \<Rightarrow> ucast (ucast p :: u32)) \<noteq> (0 :: u64)
          then (case ne_processId ev of None \<Rightarrow> 0 | Some p \<Rightarrow> ucast (ucast p :: u32), p)
          else (PsGetCurrentProcessId K, PsGetCurrentProcessId K)
      | None \<Rightarrow> (PsGetCurrentProcessId K, PsGetCurrentProcessId K)) = (pid, p)"
    proof -
      have "ucast (w :: u32) = (0 :: u64) \<longleftrightarrow> w = 0" for w
        using unat_bounds(3) [of w] by (simp add: word_unat_eq_iff unsigned_ucast_eq take_bit_nat_eq_self)
      then show ?thesis using p by (cases "ne_processId ev") (auto simp: net_process_def split: if_splits)
    qed
    show "NetClassifyCallback R K H G ev = Inr (release slot G3)"
      unfolding NetClassifyCallback_def Let_def h(1) g(1) prod.case andthen_simps pr h(2)
        network_event_def [symmetric] h(3,4,5) ..
  qed
qed

text \<open>The id of the event is taken before, and lost with it.\<close>

lemma network_outside:
  assumes "wf_net_event ev" "\<not> fields_there H ev"
  shows "net_gather H ev = Inl OutOfBounds" "NetClassifyCallback R K H G ev = Inl OutOfBounds"
proof -
  show g: "net_gather H ev = Inl OutOfBounds"
    by (rule guardedE [OF net_gather_guarded [OF assms(1), of H]]) (use assms(2) in auto)
  show "NetClassifyCallback R K H G ev = Inl OutOfBounds"
    by (simp add: NetClassifyCallback_def g Let_def split: prod.split)
qed

end
