(* ===== verification/MM_Callback_Records.thy ===== *)
theory MM_Callback_Records
  imports MM_Registry_Network_Soundness MM_Network_Soundness MM_Samples
begin

text \<open>
  What a reader of the log sees of an event: for each callback, the types and the bytes of its records,
  as a function of the event, the process and the verdict. The last section holds the sample state and the
  sample kernel the witnesses run on.
\<close>

section \<open>Records of a call\<close>

text \<open>A number is logged in little-endian bytes; a string when its buffer can be read.\<close>

lemma logged_numbers [simp]:
  "logged (log_u16 type a # cs) = (type, le_bytes 2 (unat a)) # logged cs"
  "logged (log_u32 type b # cs) = (type, le_bytes 4 (unat b)) # logged cs"
  "logged (log_u64 type c # cs) = (type, le_bytes 8 (unat c)) # logged cs"
  by (simp_all add: log_u16_def log_u32_def log_u64_def)

definition name_record :: "u16 \<Rightarrow> UNICODE_STRING ptr \<Rightarrow> (u16 \<times> u8 list) list" where
  "name_record type s =
     (if s \<noteq> Null \<and> VALID_PAGE (Buffer (deref s)) \<and> Length (deref s) \<noteq> 0
      then [(type, ustr_bytes (deref s))] else [])"

lemma ucast_16_32_zero: "ucast (w :: u16) = (0 :: u32) \<longleftrightarrow> w = 0"
  by (simp add: word_unat_eq_iff unat_ucast_16_32)

lemma logged_log_str:
  "logged [log_str type s] =
     (if VALID_PAGE (Buffer (deref s)) \<and> Length (deref s) \<noteq> 0 then [(type, ustr_bytes (deref s))] else [])"
  by (auto simp: log_str_def ucast_16_32_zero unat_ucast_16_32 ustr_bytes_def elim!: VALID_PAGE_E)

lemma logged_None [simp]: "logged [None] = []"
  by simp

lemma logged_nonempty: "logged [log_nonempty type s] = name_record type s"
  by (simp add: log_nonempty_def log_when_def name_record_def logged_log_str)

lemma logged_full_str: "logged [log_full_str type s] = name_record type s"
  by (cases "Buffer (deref s)") (auto simp: log_full_str_def log_when_def name_record_def logged_log_str word_gt_0)

lemma logged_when [simp]: "logged [log_when b c] = (if b then logged [c] else [])"
  by (simp add: log_when_def)

lemmas logged_parts = logged_nonempty logged_full_str logged_log_str logged_valid_str logged_Cons [of _ "_ # _"]

section \<open>Processes\<close>

definition creation_records ::
  "u64 \<Rightarrow> create_info \<Rightarrow> bool \<Rightarrow> PROC_INFO \<Rightarrow> inspection \<Rightarrow> (u16 \<times> u8 list) list" where
  "creation_records hPid ci found PI v =
     [(MATCH_ID, le_bytes 4 (unat (in_id v))), (EVENT_TYPE, le_bytes 2 (unat (PROCESS_CREATION :: u16))),
      (PID, le_bytes 8 (unat hPid)), (PFLAGS, le_bytes 4 (unat (ci_Flags ci))),
      (PARENT_PID, le_bytes 8 (unat (ci_ParentProcessId ci))),
      (CREATING_THREAD_ID, ci_CreatingThreadId ci)]
     @ (if found then source_records PI
        else str_record IMAGE_FILE_NAME (ImageFileName PI) @ str_record COMMAND_LINE (CommandLine PI))
     @ [(CREATION_STATUS, le_bytes 4 (unat (in_status v))), (EVENT_END, le_bytes 2 (unat (PROCESS_CREATION :: u16)))]"

lemma logged_creation:
  assumes "length (ci_CreatingThreadId ci) = 16" "pi_tag PI = PHOEBE" "ci_CreationStatus ci = in_status v"
  shows "logged (creation_calls hPid (Ptr a ci) found PI v) = creation_records hPid ci found PI v"
  using assms
  by (simp add: creation_calls_def creation_records_def Let_def logged_PCache logged_valid_str logged_Cons [of "log_valid_str _ _" "_ # _"])

definition termination_records ::
  "u64 \<Rightarrow> NTSTATUS \<Rightarrow> bool \<Rightarrow> PROC_INFO \<Rightarrow> inspection \<Rightarrow> (u16 \<times> u8 list) list" where
  "termination_records hPid status found PI v =
     [(MATCH_ID, le_bytes 4 (unat (in_id v))), (EVENT_TYPE, le_bytes 2 (unat (PROCESS_TERMINATED :: u16))),
      (PID, le_bytes 8 (unat hPid)), (CREATION_STATUS, le_bytes 4 (unat status))]
     @ (if found then source_records PI else []) @ [(EVENT_END, le_bytes 2 (unat (PROCESS_TERMINATED :: u16)))]"

lemma logged_termination:
  assumes "found \<Longrightarrow> pi_tag (deref q) = PHOEBE \<and> source_records (deref q) = source_records PI \<and> q \<noteq> Null"
  shows "logged (termination_calls K hPid found q v)
    = termination_records hPid (PsGetProcessExitStatus K (IoGetCurrentProcess K)) found PI v"
  using assms by (cases q) (auto simp: termination_calls_def termination_records_def logged_PCache)

section \<open>Files\<close>

definition names_records :: "flt_names \<Rightarrow> (u16 \<times> u8 list) list" where
  "names_records n = name_record MM_FILE_NAME (nm_Name n) @ name_record MM_FILE_VOLUME (nm_Volume n)
     @ name_record MM_FILE_SHARE (nm_Share n) @ name_record MM_FILE_EXTENSION (nm_Extension n)
     @ name_record MM_FILE_STREAM (nm_Stream n) @ name_record MM_FILE_FINAL_COMPONENT (nm_FinalComponent n)
     @ name_record MM_FILE_PARENT_DIR (nm_ParentDir n)"

lemma logged_names: "logged (name_calls n) = names_records n"
  by (simp add: name_calls_def names_records_def logged_parts)

definition create_records ::
  "u64 \<Rightarrow> (u16 \<times> u8 list) list \<Rightarrow> flt_data \<Rightarrow> inspection \<Rightarrow> (u16 \<times> u8 list) list" where
  "create_records pid who Data v =
     [(MATCH_ID, le_bytes 4 (unat (in_id v))), (EVENT_TYPE, le_bytes 2 (unat (MM_FILE_CREATED :: u16))),
      (PID, le_bytes 8 (unat pid)), (CREATION_STATUS, le_bytes 4 (unat (fd_Status Data)))]
     @ (if 0 < fd_CreateOptions Data then [(MM_FILE_FLAGS, le_bytes 4 (unat (fd_CreateOptions Data)))] else [])
     @ who @ names_records (request_names Data) @ [(EVENT_END, le_bytes 2 (unat (MM_FILE_CREATED :: u16)))]"

lemma logged_create:
  assumes "same_process G p q"
  shows "logged (create_calls pid (cached G p \<noteq> None) Data (request_names Data) q v)
    = create_records pid (seen_records G p) Data v"
  unfolding create_calls_def logged_append same_process_calls(2) [OF assms] logged_names
  by (simp add: create_records_def)

section \<open>The registry\<close>

definition registry_records ::
  "u64 \<Rightarrow> (u16 \<times> u8 list) list \<Rightarrow> bool \<Rightarrow> REG_INFO \<Rightarrow> inspection \<Rightarrow> (u16 \<times> u8 list) list" where
  "registry_records pid who val RI v =
     [(MATCH_ID, le_bytes 4 (unat (in_id v))), (EVENT_TYPE, le_bytes 2 (unat (REGISTRY_EVENT :: u16))),
      (PID, le_bytes 8 (unat pid)), (REG_OP, le_bytes 4 (unat (notifyClass RI))),
      (CREATION_STATUS, le_bytes 4 (unat (in_status v)))]
     @ who
     @ (if val \<and> RegistryValueName RI \<noteq> Null then
          name_record REG_VALUE_NAME (RegistryValueName RI)
          @ (if VALID_PAGE (ri_Data RI) \<and> 0 < ri_DataSize RI
             then [(REG_DATA, take (unat (ri_DataSize RI)) (deref (ri_Data RI)))] else [])
          @ (if 0 < ri_DataType RI then [(REG_DATA_TYPE, le_bytes 4 (unat (ri_DataType RI)))] else [])
        else [])
     @ name_record REG_KEY (RegistryKey RI) @ name_record REG_KEY_NEW (RegistryKeyNew RI)
     @ name_record REG_OLD_FILE_NAME (OldFilename RI) @ name_record REG_NEW_FILE_NAME (NewFileName RI)
     @ [(EVENT_END, le_bytes 2 (unat (REGISTRY_EVENT :: u16)))]"

lemma logged_registry:
  assumes "same_process G p (ri_PI RI)"
  shows "logged (registry_calls pid (cached G p \<noteq> None) val RI v)
    = registry_records pid (seen_records G p) val RI v"
proof -
  have data: "logged [log_when (d \<noteq> Null \<and> 0 < n) (Some (n, type, d))]
      = (if VALID_PAGE d \<and> 0 < n then [(type, take (unat n) (deref d))] else [])" for d n type
    by (cases d) (auto simp: log_when_def word_gt_0)
  have three: "logged [x, y, z] = logged [x] @ logged [y] @ logged [z]" for x y z
    using logged_Cons [of x "[y, z]"] logged_Cons [of y "[z]"] by simp
  have five: "logged [x, y, z, w, c] = logged [x] @ logged [y] @ logged [z] @ logged [w] @ logged [c]" for x y z w c
    using logged_Cons [of x "[y, z, w, c]"] logged_Cons [of y "[z, w, c]"] three by simp
  have flag: "logged [log_when b (log_u32 type n)] = (if b then [(type, le_bytes 4 (unat n))] else [])" for b type n
    by (simp add: log_when_def)
  have named: "logged [log_str type s] = name_record type s" if "s \<noteq> Null" for type s
    using that by (simp add: name_record_def logged_log_str)
  have "logged (if val \<and> RegistryValueName RI \<noteq> Null then
        [log_str REG_VALUE_NAME (RegistryValueName RI),
         log_when (ri_Data RI \<noteq> Null \<and> 0 < ri_DataSize RI) (Some (ri_DataSize RI, REG_DATA, ri_Data RI)),
         log_when (0 < ri_DataType RI) (log_u32 REG_DATA_TYPE (ri_DataType RI))] else [])
    = (if val \<and> RegistryValueName RI \<noteq> Null then
         name_record REG_VALUE_NAME (RegistryValueName RI)
         @ (if VALID_PAGE (ri_Data RI) \<and> 0 < ri_DataSize RI
            then [(REG_DATA, take (unat (ri_DataSize RI)) (deref (ri_Data RI)))] else [])
         @ (if 0 < ri_DataType RI then [(REG_DATA_TYPE, le_bytes 4 (unat (ri_DataType RI)))] else [])
       else [])"
  proof (cases "val \<and> RegistryValueName RI \<noteq> Null")
    case True
    then have "RegistryValueName RI \<noteq> Null" by simp
    with True show ?thesis by (simp only: three data flag named if_True simp_thms)
  qed (simp only: logged.simps if_False)
  then show ?thesis
    unfolding registry_calls_def logged_append same_process_calls(2) [OF assms] five logged_full_str
      registry_records_def by simp
qed

lemma registry_records_PI [simp]: "registry_records pid who val (RI\<lparr>ri_PI := q\<rparr>) v = registry_records pid who val RI v"
  by (simp add: registry_records_def)

section \<open>The network\<close>

definition addr_record :: "u16 \<Rightarrow> u8 list ptr \<Rightarrow> (u16 \<times> u8 list) list" where
  "addr_record type q = (if VALID_PAGE q then [(type, take 16 (deref q))] else [])"

definition network_records ::
  "u64 \<Rightarrow> u16 \<Rightarrow> (u16 \<times> u8 list) list \<Rightarrow> net_gathered \<Rightarrow> inspection \<Rightarrow> (u16 \<times> u8 list) list" where
  "network_records pid layer who g v = (let NI = ng_NI g; app = ng_app g in
     [(MATCH_ID, le_bytes 4 (unat (in_id v))), (EVENT_TYPE, le_bytes 2 (unat (ng_event_type g))),
      (PID, le_bytes 8 (unat pid)), (MM_WFP_LAYER, le_bytes 2 (unat layer))]
     @ who
     @ (if ng_netconn g then
          [(MM_NET_DIRECTION, le_bytes 1 (unat (Direction NI))), (MM_NET_IP_PROTOCOL, le_bytes 1 (unat (ipProtocol NI))),
           (MM_NET_REMOTE_PORT, le_bytes 2 (unat (remotePort NI)))]
          @ (if remoteIpv4Addr NI \<noteq> 0 then [(MM_NET_REMOTE_IPV4_ADDR, le_bytes 4 (unat (remoteIpv4Addr NI)))] else [])
          @ addr_record MM_NET_REMOTE_IPV6_ADDR (remoteIpv6Addr NI)
        else [])
     @ [(MM_NET_ADDRESS_TYPE, le_bytes 1 (unat (addrType NI)))]
     @ (if ng_netconn g then [] else [(MM_NET_PROMISCUOUS, le_bytes 1 (unat (promiscuous NI)))])
     @ [(MM_NET_LOCAL_PORT, le_bytes 2 (unat (localPort NI)))]
     @ (if localIpv4Addr NI \<noteq> 0 \<or> \<not> ng_netconn g
        then [(MM_NET_LOCAL_IPV4_ADDR, le_bytes 4 (unat (localIpv4Addr NI)))] else [])
     @ [(MM_NET_INTERFACE_TYPE, le_bytes 4 (unat (interfaceType NI))),
        (MM_NET_INTERFACE, le_bytes 8 (unat (wfp_interface NI)))]
     @ addr_record MM_NET_LOCAL_IPV6_ADDR (localIpv6Addr NI)
     @ (if wfp_PI NI \<noteq> Null \<and> ImageFileName (deref (wfp_PI NI)) = Null then name_record IMAGE_FILE_NAME (local app) else [])
     @ [(EVENT_END, le_bytes 2 (unat (ng_event_type g)))])"

lemma logged_u8 [simp]: "logged (log_u8 type a # cs) = (type, le_bytes 1 (unat a)) # logged cs"
  by (simp add: log_u8_def)

lemma logged_when_some: "logged (log_when b c # cs) = (if b then logged [c] else []) @ logged cs"
  using logged_Cons [of "log_when b c" cs] by (simp add: log_when_def)

lemma logged_addr: "logged [Some (16, type, q)] = addr_record type q"
  by (simp add: addr_record_def)

lemma logged_network:
  assumes "same_process G p (wfp_PI (ng_NI g))"
  shows "logged (network_calls pid layer (cached G p \<noteq> None) g v) = network_records pid layer (seen_records G p) g v"
proof -
  have app: "(if q \<noteq> Null \<and> ImageFileName (deref q) = Null \<and> 0 < Length app \<and> Buffer app \<noteq> Null
        then logged [Some (ucast (Length app), type, Buffer app)] else [])
      = (if q \<noteq> Null \<and> ImageFileName (deref q) = Null then name_record type (local app) else [])" for q app type
    by (cases "Buffer app")
       (auto simp: name_record_def word_gt_0 ucast_16_32_zero unat_ucast_16_32 ustr_bytes_def elim!: VALID_PAGE_E)
  have addr: "(if q \<noteq> Null then addr_record type q else []) = addr_record type q" for q type
    by (auto simp: addr_record_def)
  show ?thesis
    unfolding network_calls_def Let_def logged_append same_process_calls(2) [OF assms] network_records_def
    by (cases "ng_netconn g") (simp_all only: logged_when_some logged_addr addr app logged_numbers logged_u8 logged.simps(1)
        if_True if_False append.simps append_assoc append_Nil2 simp_thms)
qed

section \<open>A sample state and a sample kernel\<close>

text \<open>An initialised driver without rules, and a kernel that knows nothing of its processes.\<close>

definition started_gc :: GC where
  "started_gc = zeroed_gc\<lparr>gc_list := \<lambda>_. Ptr page (replicate 65535 Null), gc_tag := GANYMEDE, gc_State := INITIALIZED,
     clientpid := - 1, clientppid := - 1, REG_DATA_MAX_SIZE := 32000\<rparr>"

definition sample_kernel :: kernel where
  "sample_kernel = \<lparr>KeQuerySystemTimePrecise = 77, MM_Genrand = \<lambda>_. 0, IoGetCurrentProcess = 0xFFFFE00000001000,
     PsGetCurrentProcessId = 44, PsGetCurrentThreadId = 8, PsGetProcessId = \<lambda>_. 44,
     PsLookupProcessByProcessId = \<lambda>_. (STATUS_SUCCESS, 0xFFFFE00000002000), process_peb = \<lambda>_. NoPeb,
     process_sid = \<lambda>_. NoToken, PsGetProcessExitTime = 78, PsGetProcessExitStatus = \<lambda>_. 3,
     ObOpenObjectByPointer = \<lambda>_. STATUS_SUCCESS, FltGetFileNameInformationUnsafe = \<lambda>_. (STATUS_NO_MEMORY, Null),
     IoQueryFileDosDeviceName = \<lambda>_. (STATUS_NO_MEMORY, Null), CmCallbackGetKeyObjectIDEx = \<lambda>_. (STATUS_SUCCESS, ustr ''k''),
     ObQueryNameString = \<lambda>_ _. (STATUS_NO_MEMORY, deref (ustr ''k''), 0), FileNameOfHandle = \<lambda>_. (STATUS_NO_MEMORY, [], 0)\<rparr>"

definition sample_create :: create_info where
  "sample_create = \<lparr>ci_Flags = 1, ci_ParentProcessId = 4, ci_CreatingThreadId = replicate 16 7,
     ci_ImageFileName = ustr ''ab'', ci_CommandLine = Null, ci_CreationStatus = 0\<rparr>"

lemma wf_ustr_sample [simp]:
  assumes s: "length s < 30000"
  shows "wf_str (ustr s)" "wf_ustr (deref (ustr s))"
proof -
  have "length (utf16 s) = 2 * length s" by (induction s) (simp_all add: utf16_def)
  moreover have "unat (of_nat (2 * length s) :: u16) = 2 * length s"
    unfolding unat_of_nat using s by (simp add: take_bit_nat_eq_self)
  ultimately show "wf_str (ustr s)" "wf_ustr (deref (ustr s))"
    by (simp_all add: wf_str_def ustr_def wf_ustr_def VALID_PAGE_def page_def)
qed

lemma zeroed_slots_ok: "cache_ok zeroed_gc" "procs_ok zeroed_gc"
  by (simp_all add: cache_ok_def procs_ok_def zeroed_gc_def wf_slot_def zeroed_slot_def)

lemma started_ok [simp]: "driver_ok started_gc"
proof -
  have "cache_ok started_gc = cache_ok zeroed_gc" "procs_ok started_gc = procs_ok zeroed_gc"
    by (simp_all add: cache_ok_def procs_ok_def started_gc_def)
  then show ?thesis
    using zeroed_slots_ok
    by (simp add: driver_ok_def started_gc_def config_ok_def sound_list_def log_inv_def zeroed_gc_def VALID_PAGE_def
        page_def list_all_iff)
qed

lemma started_fields [simp]:
  "gc_COUNT started_gc l = 0" "gc_L started_gc = []" "log_contents started_gc = []" "gc_id started_gc = 0"
  "KEEP_EXCLUDES started_gc = False" "NEW_PROCS_INDEX started_gc = 0" "clientpid started_gc = - 1"
  "next_slot started_gc = 1" "gc_State started_gc = INITIALIZED" "RESIST_TAMPERING started_gc = False"
  by (simp_all add: started_gc_def zeroed_gc_def log_contents_def next_slot_def decode_encode [of "[]" "[]", simplified])

lemma started_cache [simp]: "GetCachedProcess started_gc p = None" "cached started_gc p = None"
proof -
  have "first_slot P (replicate n zeroed_slot) = None" if "\<not> P zeroed_slot" for P n
    using that by (simp add: first_slot_None)
  then show "GetCachedProcess started_gc p = None"
    by (simp add: GetCachedProcess_def started_gc_def zeroed_gc_def zeroed_slot_def)
  then show "cached started_gc p = None" by (simp add: cached_def)
qed

lemma sample_kernel_ok [simp]: "wf_kernel sample_kernel" "wf_key_names sample_kernel"
  by (simp_all add: sample_kernel_def wf_kernel_def wf_peb_def wf_token_def wf_key_names_def)

end
