(* ===== verification/MM_Sharing.thy ===== *)
theory MM_Sharing
  imports MM_Callback_Records
begin

text \<open>
  Two callbacks at the same process: what the mark \<open>InUse\<close> of a slot of the cache protects when their
  steps are interleaved. A callback looks the process up (\<open>find_process\<close>), works on the information it got,
  and unmarks the slot (\<open>release\<close>); \<open>PurgeCachedProcess\<close> runs between these.
\<close>

section \<open>A slot that is marked twice\<close>

lemma find_cached:
  assumes "driver_ok G" "cached G p \<noteq> None"
  obtains i q where "GetCachedProcess G p = Some i" "i < 32000" "q = pc_PI (NEW_PROCS G ! i)" "q \<noteq> Null"
    "wf_cached (deref q)" "\<And>d. find_process G p d = (Some i, True, q, set_in_use i True G)"
proof -
  obtain i where i: "GetCachedProcess G p = Some i" using assms(2) by (cases "GetCachedProcess G p") (simp_all add: cached_def)
  note c = cached_slot [OF assms(1) i]
  have "find_process G p d = (Some i, True, pc_PI (NEW_PROCS G ! i), set_in_use i True G)" for d
    using c(2,3) i by (cases "pc_PI (NEW_PROCS G ! i)") (simp_all add: find_process_def Let_def wf_cached_def)
  with that [OF i c(1) refl c(2,3)] show thesis .
qed

lemma purge_free_slot:
  assumes "driver_ok G" "GetCachedProcess G p = Some i" "\<not> pc_InUse (NEW_PROCS G ! i)"
  obtains G' freed where "PurgeCachedProcess G p = Inr (G', freed)" "cached G' p = None"
    "addr (pc_PI (NEW_PROCS G ! i)) \<in> set freed" "driver_ok G'"
proof -
  obtain G' freed where purge: "PurgeCachedProcess G p = Inr (G', freed)" "cached G' p = None" "driver_ok G'"
    using follows_purge [OF assms(1), of p] assms(2,3) unfolding follows_def by metis
  note c = cached_slot [OF assms(1,2)]
  have slot: "pc_tag (NEW_PROCS G ! i) = CHARON" "length (NEW_PROCS G) = 32000"
    using assms(2) slot_get [OF driver_okD(2) [OF assms(1)]] driver_okD(2) [OF assms(1)] by (auto simp: cache_ok_def)
  have one: "j = i" if "j < 32000" "pc_tag (NEW_PROCS G ! j) = CHARON" "pc_p (NEW_PROCS G ! j) = p" for j
    using slot_get [OF driver_okD(2) [OF assms(1)], of p j] assms(2) that by simp
  have before: "\<not> (pc_tag (NEW_PROCS G ! j) = CHARON \<and> pc_p (NEW_PROCS G ! j) = p \<and> \<not> pc_InUse (NEW_PROCS G ! j))"
    if "j < i" for j
    using one [of j] that c(1) by auto
  then have "first_slot (\<lambda>s. pc_tag s = CHARON \<and> pc_p s = p \<and> \<not> pc_InUse s) (NEW_PROCS G) = Some i"
    unfolding first_slot_Some using assms(3) c(1,4) slot by simp
  then have "addr (pc_PI (NEW_PROCS G ! i)) \<in> set freed"
    using purge(1) c(2) by (auto simp: PurgeCachedProcess_def Let_def andthen_Inr_iff)
  with purge show thesis using that by blast
qed

lemma purge_marked_slot:
  assumes "driver_ok G" "GetCachedProcess G p = Some i" "pc_InUse (NEW_PROCS G ! i)"
  shows "PurgeCachedProcess G p = Inr (G, [])"
proof -
  have slot: "length (NEW_PROCS G) = 32000" using driver_okD(2) [OF assms(1)] by (simp add: cache_ok_def)
  have "j = i" if "j < 32000" "pc_tag (NEW_PROCS G ! j) = CHARON" "pc_p (NEW_PROCS G ! j) = p" for j
    using slot_get [OF driver_okD(2) [OF assms(1)], of p j] assms(2) that by simp
  then have "first_slot (\<lambda>s. pc_tag s = CHARON \<and> pc_p s = p \<and> \<not> pc_InUse s) (NEW_PROCS G) = None"
    using assms(3) slot by (auto simp: first_slot_None in_set_conv_nth)
  then show ?thesis by (simp add: PurgeCachedProcess_def)
qed

text \<open>C13: The mark of a slot is a flag, not a count. While two callbacks work on the information of a process,
  a purge leaves it alone; but as soon as the first of them is done and unmarks the slot, a purge gives the
  information back to the pool while the second still holds a pointer to it. The callback for the exit of a process
  is such a first one: it unmarks the slot and purges.\<close>
theorem mark_is_not_counted:
  assumes "driver_ok G" "cached G p \<noteq> None"
  shows "\<exists>slot q G1 G2 G3 freed. find_process G p Null = (slot, True, q, G1)
    \<and> find_process G1 p Null = (slot, True, q, G2)
    \<and> PurgeCachedProcess G2 p = Inr (G2, [])
    \<and> PurgeCachedProcess (release slot G2) p = Inr (G3, freed)
    \<and> addr q \<in> set freed \<and> cached G3 p = None \<and> driver_ok G3"
proof -
  obtain i q where find: "GetCachedProcess G p = Some i" "i < 32000" "q = pc_PI (NEW_PROCS G ! i)"
    "find_process G p Null = (Some i, True, q, set_in_use i True G)"
    by (rule find_cached [OF assms]) (rule that)
  have marked: "driver_ok (set_in_use i b H)" "GetCachedProcess (set_in_use i b H) p = Some i"
    "pc_InUse (NEW_PROCS (set_in_use i b H) ! i) = b" "pc_PI (NEW_PROCS (set_in_use i b H) ! i) = pc_PI (NEW_PROCS H ! i)"
    if "driver_ok H" "GetCachedProcess H p = Some i" for H b
    using follows_mark [OF that(1) find(2), of b] that find(2) set_in_use_get [OF driver_okD(2) [OF that(1)] find(2)]
      driver_okD(2) [OF that(1)]
    by (simp_all add: follows_def set_in_use_def nth_set_slot cache_ok_def)
  let ?G1 = "set_in_use i True G"
  note one = marked [OF assms(1) find(1), of True]
  have "cached ?G1 p \<noteq> None" using one(2) by (simp add: cached_def)
  then have second: "find_process ?G1 p Null = (Some i, True, q, set_in_use i True ?G1)"
    by (rule find_cached [OF one(1)]) (use one(2,4) find(3) in simp)
  let ?G2 = "set_in_use i True ?G1"
  note two = marked [OF one(1,2), of True]
  have kept: "PurgeCachedProcess ?G2 p = Inr (?G2, [])"
    by (rule purge_marked_slot [OF two(1,2)]) (simp add: two(3))
  note three = marked [OF two(1,2), of False]
  have rel: "release (Some i) ?G2 = set_in_use i False ?G2" by (simp add: release_def)
  have idle: "\<not> pc_InUse (NEW_PROCS (set_in_use i False ?G2) ! i)" by (simp add: three(3))
  obtain G3 freed where purge: "PurgeCachedProcess (set_in_use i False ?G2) p = Inr (G3, freed)" "cached G3 p = None"
    "addr (pc_PI (NEW_PROCS (set_in_use i False ?G2) ! i)) \<in> set freed" "driver_ok G3"
    by (rule purge_free_slot [OF three(1,2) idle]) (rule that)
  then have "addr q \<in> set freed" using one(4) two(4) three(4) find(3) by simp
  then show ?thesis using find(4) second kept purge(1,2,4) rel by metis
qed

lemma mark_is_not_counted_witness:
  "\<exists>G slot q G1 G2 G3 freed. find_process G 60 Null = (slot, True, q, G1) \<and> find_process G1 60 Null = (slot, True, q, G2)
    \<and> PurgeCachedProcess (release slot G2) 60 = Inr (G3, freed) \<and> addr q \<in> set freed"
proof -
  let ?PI = "zero_pi\<lparr>pi_tag := PHOEBE\<rparr>"
  have 1: "next_slot started_gc < 32000" "(60 :: u64) \<noteq> 0" "pi_tag ?PI = PHOEBE" "wf_proc ?PI"
    by (simp_all add: wf_proc_def zero_pi_def)
  obtain G freed n where "AddNewProcess ref_rtl started_gc 60 (Ptr page ?PI) = Inr (G, freed)"
    "follows (at_index n started_gc) G" "cached G 60 = (case cached started_gc 60 of None \<Rightarrow> Some (pi_view ?PI) | Some w \<Rightarrow> Some w)"
    by (rule follows_add [OF started_ok 1(2,1) ref_rtl_ample 1(3,4)])
  then have "driver_ok G" "cached G 60 \<noteq> None" by (simp_all add: follows_def)
  from mark_is_not_counted [OF this] show ?thesis by blast
qed

end
