(* ===== verification/MM_Callback_Properties.thy ===== *)
theory MM_Callback_Properties
  imports MM_Callback_Records
begin

text \<open>
  The callbacks of \<open>src/MoonMon/MoonMon.c\<close> from their arguments to what the kernel, the cache and the
  reader of the log get: each theorem covers the lookup of the process, the search of the rule lists, the
  records, and the cleanup. All start from a sound state and give a sound state back.
\<close>

section \<open>Processes\<close>

text \<open>The log has room for the records of an event.\<close>

definition log_room_for :: "GC \<Rightarrow> (u16 \<times> u8 list) list \<Rightarrow> bool" where
  "log_room_for G recs \<longleftrightarrow> log_bytes (gc_L G) + record_bytes recs < 200000000"

lemma log_room_sample: "record_bytes recs < 200000000 \<Longrightarrow> log_room_for started_gc recs"
  by (simp add: log_room_for_def)

lemma logs_appended:
  assumes "logs G b rid ts cs G'" "logged cs = recs"
  shows "log_room_for G recs \<longrightarrow> log_contents G' = log_contents G @ (if b then stamped rid ts recs else [])"
  using logsD [OF assms] by (simp add: log_room_for_def)

text \<open>C3: The creation of a process: the creation status becomes the status of the verdict of the three
  process lists on the new process, including its user; the process is in the cache, as new if it was not
  there; and the log gets the records of the event in order, all with its id and time, unless
  the verdict skips it.\<close>
theorem process_creation_reported:
  assumes "driver_ok G" "pool_ample R" "wf_kernel K" "wf_create (Ptr a ci)"
    and "hPid \<noteq> 0" "next_slot G < 32000" "IoGetCurrentProcess K \<noteq> 0"
    and "NT_SUCCESS (fst (PsLookupProcessByProcessId K hPid))"
    and "created_info R K hPid (Ptr a ci) = (found, PI0)"
  shows "\<exists>PI v G' freed recs. add_user R K (snd (PsLookupProcessByProcessId K hPid)) PI0 = Inr PI
    \<and> v = decide_process (rules_hit (process_holds R PI) G PBL) (rules_hit (process_holds R PI) G PINC)
        (rules_hit (process_holds R PI) G PEXC)
    \<and> recs = creation_records hPid ci found PI v
    \<and> ProcessNotifyCallbackRoutine R K G hPid (Ptr a ci)
        = Inr (Ptr a (ci\<lparr>ci_CreationStatus := in_status v\<rparr>), G', freed)
    \<and> driver_ok G' \<and> cached G' hPid = (case cached G hPid of None \<Rightarrow> Some (pi_view PI) | Some w \<Rightarrow> Some w)
    \<and> (cached G hPid = None \<longrightarrow> IsNewProcess G' hPid)
    \<and> (log_room_for G recs \<longrightarrow> log_contents G' = log_contents G
        @ (if \<not> in_skip v \<or> KEEP_EXCLUDES G
           then stamped (fst (mm_id G)) (KeQuerySystemTimePrecise K) recs else []))"
proof -
  obtain PI G' freed n where spec:
    "add_user R K (snd (PsLookupProcessByProcessId K hPid)) PI0 = Inr PI" "pi_tag PI = PHOEBE"
    "process_created R K G hPid (Ptr a ci)
      = Inr (ci\<lparr>ci_CreationStatus := in_status (creation_verdict R G PI)\<rparr>, G', freed)"
    "follows (at_index n G) G'"
    "cached G' hPid = (case cached G hPid of None \<Rightarrow> Some (pi_view PI) | Some w \<Rightarrow> Some w)"
    "cached G hPid = None \<Longrightarrow> IsNewProcess G' hPid"
    "logs G (\<not> in_skip (creation_verdict R G PI) \<or> KEEP_EXCLUDES G) (fst (mm_id G)) (KeQuerySystemTimePrecise K)
       (creation_calls hPid (Ptr a (ci\<lparr>ci_CreationStatus := in_status (creation_verdict R G PI)\<rparr>)) found PI
         (creation_verdict R G PI)) G'"
    using process_created_spec [OF assms(1-8)] unfolding assms(9) fst_conv snd_conv by metis
  let ?v = "creation_verdict R G PI"
  have "logged (creation_calls hPid (Ptr a (ci\<lparr>ci_CreationStatus := in_status ?v\<rparr>)) found PI ?v)
      = creation_records hPid ci found PI ?v"
    using assms(4) spec(2) by (subst logged_creation) (simp_all add: wf_create_def creation_records_def)
  note log = logs_appended [OF spec(7) this]
  show ?thesis
    by (rule exI [of _ PI], rule exI [of _ ?v], rule exI [of _ G'], rule exI [of _ freed])
       (use spec(1,3-6) log in \<open>simp add: creation_verdict_def ProcessNotifyCallbackRoutine_def follows_def\<close>)
qed

lemma process_creation_reported_witness:
  "\<exists>ci' G' freed. ProcessNotifyCallbackRoutine ref_rtl sample_kernel started_gc 60 (Ptr page sample_create)
      = Inr (Ptr page ci', G', freed)
    \<and> ci_CreationStatus ci' = STATUS_SUCCESS \<and> IsNewProcess G' 60 \<and> cached G' 60 \<noteq> None"
proof -
  have 1: "wf_create (Ptr page sample_create)" by (simp add: wf_create_def sample_create_def)
  have 2: "IoGetCurrentProcess sample_kernel \<noteq> 0" by (simp add: sample_kernel_def)
  have 3: "NT_SUCCESS (fst (PsLookupProcessByProcessId sample_kernel 60))"
    by (simp add: sample_kernel_def NT_SUCCESS_def)
  have 4: "(60 :: u64) \<noteq> 0" by simp
  have 5: "next_slot started_gc < 32000" by simp
  obtain found PI0 where 6: "created_info ref_rtl sample_kernel 60 (Ptr page sample_create) = (found, PI0)" by force
  obtain PI v G' freed where
    "v = decide_process (rules_hit (process_holds ref_rtl PI) started_gc PBL)
       (rules_hit (process_holds ref_rtl PI) started_gc PINC) (rules_hit (process_holds ref_rtl PI) started_gc PEXC)"
    "ProcessNotifyCallbackRoutine ref_rtl sample_kernel started_gc 60 (Ptr page sample_create)
      = Inr (Ptr page (sample_create\<lparr>ci_CreationStatus := in_status v\<rparr>), G', freed)"
    "cached G' 60 = (case cached started_gc 60 of None \<Rightarrow> Some (pi_view PI) | Some w \<Rightarrow> Some w)"
    "cached started_gc 60 = None \<longrightarrow> IsNewProcess G' 60"
    using process_creation_reported [OF started_ok ref_rtl_ample sample_kernel_ok(1) 1 4 5 2 3 6]
    by (elim exE conjE) (rule that)
  then show ?thesis by (simp add: decide_process_def block_status_def)
qed

text \<open>C12: The exit of a process: the log gets the records of the exit, with what the cache knew of the
  process, unless the verdict of its two lists skips the event; the process is forgotten and no other; and
  if it was the client, there is no client any more.\<close>
theorem process_exit_reported:
  assumes "driver_ok G" "pool_ample R" "VALID_PAGE (Ptr (IoGetCurrentProcess K) ())"
    and "PI = (case cached G hPid of None \<Rightarrow> zero_pi | Some w \<Rightarrow> w)"
    and "v = decide_log (rules_hit (process_holds R PI) G PTINC) (rules_hit (process_holds R PI) G PTEXC)"
    and "recs = termination_records hPid (PsGetProcessExitStatus K (IoGetCurrentProcess K))
           (cached G hPid \<noteq> None) PI v"
  shows "\<exists>G' freed. ProcessNotifyCallbackRoutine R K G hPid Null = Inr (Null, G', freed)
    \<and> driver_ok G' \<and> cached G' = (cached G)(hPid := None)
    \<and> clientpid G' = (if hPid = clientpid G then - 1 else clientpid G)
    \<and> (log_room_for G recs \<longrightarrow> log_contents G' = log_contents G
        @ (if \<not> in_skip v \<or> KEEP_EXCLUDES G then stamped (fst (mm_id G)) (PsGetProcessExitTime K) recs else []))"
proof -
  have v: "termination_verdict R G PI = v" by (simp add: termination_verdict_def assms(5))
  obtain G' freed q where spec: "process_terminated R K G hPid = Inr (G', freed)" "follows (client_gone hPid G) G'"
    "cached G' hPid = None" "\<And>r. r \<noteq> hPid \<Longrightarrow> cached G' r = cached G r"
    "cached G hPid \<noteq> None \<Longrightarrow> q \<noteq> Null \<and> pi_tag (deref q) = PHOEBE \<and> source_records (deref q) = source_records PI \<and> wf_proc (deref q)"
    "logs G (\<not> in_skip v \<or> KEEP_EXCLUDES G) (fst (mm_id G)) (PsGetProcessExitTime K)
       (termination_calls K hPid (cached G hPid \<noteq> None) q v) G'"
    by (rule process_terminated_spec [OF assms(1-4), unfolded v]) (rule that)
  have "cached G' = (cached G)(hPid := None)" using spec(3,4) by auto
  moreover have "logged (termination_calls K hPid (cached G hPid \<noteq> None) q v) = recs"
    unfolding assms(6) by (rule logged_termination) (use spec(5) in auto)
  from logs_appended [OF spec(6) this] have "log_room_for G recs \<longrightarrow> log_contents G' = log_contents G
      @ (if \<not> in_skip v \<or> KEEP_EXCLUDES G then stamped (fst (mm_id G)) (PsGetProcessExitTime K) recs else [])" .
  moreover have "driver_ok G'" "clientpid G' = (if hPid = clientpid G then - 1 else clientpid G)"
    using spec(2) by (auto simp: follows_def event_frame_fields(6))
  ultimately show ?thesis using spec(1) by (auto simp: ProcessNotifyCallbackRoutine_def)
qed

lemma process_exit_reported_witness:
  "\<exists>G' freed. ProcessNotifyCallbackRoutine ref_rtl sample_kernel (started_gc\<lparr>clientpid := 60\<rparr>) 60 Null
      = Inr (Null, G', freed) \<and> clientpid G' = - 1 \<and> cached G' 60 = None
    \<and> map fst (log_contents G') = [MATCH_ID, EVENT_TYPE, PID, CREATION_STATUS, EVENT_END]"
proof -
  let ?G = "started_gc\<lparr>clientpid := 60\<rparr>"
  have same: "cached ?G 60 = None" "rules_hit h ?G l = no_match" "log_contents ?G = []" "KEEP_EXCLUDES ?G = False" for h l
    using started_cache(2) [of 60] by (simp_all add: cached_def GetCachedProcess_def rules_hit_def log_contents_def)
  let ?v = "decide_log (rules_hit (process_holds ref_rtl zero_pi) ?G PTINC) (rules_hit (process_holds ref_rtl zero_pi) ?G PTEXC)"
  let ?recs = "termination_records 60 (PsGetProcessExitStatus sample_kernel (IoGetCurrentProcess sample_kernel))
      (cached ?G 60 \<noteq> None) zero_pi ?v"
  have v: "decide_log no_match no_match = \<lparr>in_status = 0, in_skip = False, in_id = 0\<rparr>" by (simp add: decide_log_simps)
  have 1: "VALID_PAGE (Ptr (IoGetCurrentProcess sample_kernel) ())" by (simp add: sample_kernel_def VALID_PAGE_def)
  have 2: "zero_pi = (case cached ?G 60 of None \<Rightarrow> zero_pi | Some w \<Rightarrow> w)" by (simp add: same)
  have ok: "driver_ok ?G" by simp
  have room: "log_room_for ?G ?recs"
    by (simp add: log_room_for_def termination_records_def record_bytes_def same)
  obtain G' freed where exit: "ProcessNotifyCallbackRoutine ref_rtl sample_kernel ?G 60 Null = Inr (Null, G', freed)"
    "cached G' = (cached ?G)(60 := None)" "clientpid G' = (if (60 :: u64) = clientpid ?G then - 1 else clientpid ?G)"
    "log_room_for ?G ?recs \<longrightarrow> log_contents G' = log_contents ?G
        @ (if \<not> in_skip ?v \<or> KEEP_EXCLUDES ?G
           then stamped (fst (mm_id ?G)) (PsGetProcessExitTime sample_kernel) ?recs else [])"
    using process_exit_reported [OF ok ref_rtl_ample 1 2 refl refl] by (elim exE conjE) (rule that)
  show ?thesis
    using exit(1-3) mp [OF exit(4) room] by (simp add: v same termination_records_def stamped_def)
qed

section \<open>Files\<close>

text \<open>C7: A file is created or opened: the request goes on unless the verdict of the block, include and
  exclude lists is a failure, with which it is completed at once; the log gets the records of the event, with
  what the cache knows of the process and the names of the file, unless the verdict skips it; and the
  cache answers as before.\<close>
theorem file_create_answered:
  assumes "driver_ok G" "pool_ample R" "wf_request Data" "p = PsGetCurrentProcessId K"
    and "FI = create_request Data (seen G p)"
    and "v = decide_block (rules_hit (file_create_holds R FI) G FCBL) (rules_hit (file_create_holds R FI) G FCINC)
           (rules_hit (file_create_holds R FI) G FCEXC)"
    and "answer = (if NT_SUCCESS (in_status v) then Data else Data\<lparr>fd_Status := in_status v, fd_Information := 0\<rparr>)"
    and "recs = create_records (if p = 0 then 4 else p) (seen_records G p) answer v"
  shows "\<exists>G'. FsPreCreateCallback R K G Data = Inr (if NT_SUCCESS (in_status v)
        then FLT_PREOP_SUCCESS_NO_CALLBACK else FLT_PREOP_COMPLETE, answer, G')
    \<and> driver_ok G' \<and> cached G' = cached G
    \<and> (log_room_for G recs \<longrightarrow> log_contents G' = log_contents G
        @ (if \<not> in_skip v \<or> KEEP_EXCLUDES G
           then stamped (fst (mm_id G)) (KeQuerySystemTimePrecise K) recs else []))"
proof -
  have v: "v = create_verdict R G (create_request Data (seen G p))" by (simp add: create_verdict_def assms(5,6))
  let ?out = "if NT_SUCCESS (in_status v) then (FLT_PREOP_SUCCESS_NO_CALLBACK, Data)
      else (FLT_PREOP_COMPLETE, Data\<lparr>fd_Status := in_status v, fd_Information := 0\<rparr>)"
  obtain q G' where spec: "FsPreCreateCallback R K G Data = Inr (fst ?out, snd ?out, G')" "follows G G'"
    "\<And>r. cached G' r = cached G r" "same_process G p q"
    "logs G (\<not> in_skip v \<or> KEEP_EXCLUDES G) (fst (mm_id G)) (KeQuerySystemTimePrecise K)
       (create_calls (if p = 0 then 4 else p) (cached G p \<noteq> None) (snd ?out) (request_names Data) q v) G'"
    by (rule file_create_sound [OF assms(1-4) v refl]) (rule that)
  have out: "snd ?out = answer" "request_names Data = request_names answer"
    by (cases "NT_SUCCESS (in_status v)"; simp add: assms(7) request_names_def)+
  have "logged (create_calls (if p = 0 then 4 else p) (cached G p \<noteq> None) (snd ?out) (request_names Data) q v) = recs"
    unfolding out assms(8) by (rule logged_create [OF spec(4)])
  note log = logs_appended [OF spec(5) this]
  have "cached G' = cached G" using spec(3) by auto
  then show ?thesis using spec(1,2) log by (cases "NT_SUCCESS (in_status v)") (simp_all add: follows_def assms(7))
qed

text \<open>A file is opened under its name, parsed by nobody.\<close>

definition sample_names :: flt_names where
  "sample_names = \<lparr>nm_Name = ustr ''f'', nm_Volume = Null, nm_Share = Null, nm_Extension = Null, nm_Stream = Null,
     nm_FinalComponent = Null, nm_ParentDir = Null\<rparr>"

definition sample_request :: flt_data where
  "sample_request = \<lparr>fd_CreateOptions = 0, fd_FileInformationClass = 0,
     fd_InfoBuffer = \<lparr>sb_ChangeTime = 0, sb_CreationTime = 0, sb_AccessFlags = 0, sb_FileName = Ptr page [],
       sb_FileNameLength = 0, sb_DeleteFile = 0, sb_NamedPipeType = 0, sb_NamedPipeConfiguration = 0,
       sb_NamedPipeState = 0, sb_NamedPipeEnd = 0, sb_Protocol = 0, sb_ProtocolMajorVersion = 0,
       sb_ProtocolMinorVersion = 0\<rparr>,
     fd_TargetFileName = Null, fd_NameStatus = STATUS_SUCCESS, fd_ParseStatus = STATUS_SUCCESS, fd_Names = sample_names,
     fd_Status = 0, fd_Information = 0\<rparr>"

lemma sample_request_ok: "wf_request sample_request"
  by (simp add: wf_request_def sample_request_def wf_names_def sample_names_def)

lemma name_record_sample: "name_record type (ustr ''f'') = [(type, [102, 0])]"
  by (simp add: name_record_def ustr_def ustr_bytes_def utf16_def VALID_PAGE_def page_def)

lemma no_rules: "decide_block no_match no_match no_match = \<lparr>in_status = 0, in_skip = False, in_id = 0\<rparr>"
  by (simp add: decide_block_def block_status_def)

lemma seen_records_sample [simp]: "seen_records started_gc p = []"
  by (simp add: seen_records_def)

lemma file_create_answered_witness:
  "\<exists>G'. FsPreCreateCallback ref_rtl sample_kernel started_gc sample_request
      = Inr (FLT_PREOP_SUCCESS_NO_CALLBACK, sample_request, G')
    \<and> map fst (log_contents G') = [MATCH_ID, EVENT_TYPE, PID, CREATION_STATUS, MM_FILE_NAME, EVENT_END]"
proof -
  let ?p = "PsGetCurrentProcessId sample_kernel"
  let ?FI = "create_request sample_request (seen started_gc ?p)"
  let ?hit = "rules_hit (file_create_holds ref_rtl ?FI) started_gc"
  let ?v = "decide_block (?hit FCBL) (?hit FCINC) (?hit FCEXC)"
  let ?answer = "if NT_SUCCESS (in_status ?v) then sample_request
    else sample_request\<lparr>fd_Status := in_status ?v, fd_Information := 0\<rparr>"
  let ?recs = "create_records (if ?p = 0 then 4 else ?p) (seen_records started_gc ?p) ?answer ?v"
  have "NT_SUCCESS 0" by (simp add: NT_SUCCESS_def)
  then have recs: "map fst ?recs = [MATCH_ID, EVENT_TYPE, PID, CREATION_STATUS, MM_FILE_NAME, EVENT_END]"
      "record_bytes ?recs < 200000000"
    by (simp_all add: no_rules create_records_def names_records_def request_names_def sample_request_def
        sample_names_def name_record_sample name_record_def [of _ Null] record_bytes_def)
  obtain G' where created: "FsPreCreateCallback ref_rtl sample_kernel started_gc sample_request = Inr (if NT_SUCCESS (in_status ?v)
        then FLT_PREOP_SUCCESS_NO_CALLBACK else FLT_PREOP_COMPLETE, ?answer, G')"
    "log_room_for started_gc ?recs \<longrightarrow> log_contents G' = log_contents started_gc
        @ (if \<not> in_skip ?v \<or> KEEP_EXCLUDES started_gc
           then stamped (fst (mm_id started_gc)) (KeQuerySystemTimePrecise sample_kernel) ?recs else [])"
    using file_create_answered [OF started_ok ref_rtl_ample sample_request_ok refl refl refl refl refl,
      where K = sample_kernel]
    by (elim exE conjE) (rule that)
  have "map fst (stamped rid ts rs) = map fst rs" for rid ts rs by (auto simp: stamped_def)
  then show ?thesis
    using created(1) mp [OF created(2) log_room_sample [OF recs(2)]] recs(1) \<open>NT_SUCCESS 0\<close> by (simp add: no_rules)
qed

section \<open>The registry\<close>

text \<open>C8: An operation on the registry that the callback looks at, when its arguments can be gathered: it
  gets the status of the verdict of the block, include and exclude lists; the log gets the records of
  the event, with what the cache knows of the process, unless the verdict skips it; the cache answers as
  before.\<close>
theorem registry_operation_answered:
  assumes "driver_ok G" "pool_ample R" "wf_key_names K" "wf_reg_args arg" "cls \<in> set reg_classes"
    and "p = (if PsGetCurrentProcessId K = 0 then 4 else PsGetCurrentProcessId K)"
    and "reg_gather R K G cls arg zero_ri = Inr g"
    and "RI = (rg_RI g)\<lparr>ri_PI := seen G p, notifyClass := cls, ri_tag := UMBRIEL\<rparr>"
    and "v = decide_block (rules_hit (registry_holds R RI) G RBL) (rules_hit (registry_holds R RI) G RINC)
           (rules_hit (registry_holds R RI) G REXC)"
    and "recs = registry_records p (seen_records G p) (rg_value g) RI v"
  shows "\<exists>G' freed. RegistryCallbackRoutine R K G cls arg = Inr (in_status v, G', freed)
    \<and> driver_ok G' \<and> cached G' = cached G
    \<and> (log_room_for G recs \<longrightarrow> log_contents G' = log_contents G
        @ (if \<not> in_skip v \<or> KEEP_EXCLUDES G
           then stamped (fst (mm_id G)) (KeQuerySystemTimePrecise K) recs else []))"
proof -
  have RI: "RI = reg_event cls g (seen G p)" by (simp add: reg_event_def assms(8))
  have v: "v = registry_verdict R G (reg_event cls g (seen G p))" by (simp add: registry_verdict_def assms(9) RI)
  let ?freed = "rg_freed g @ (if RegistryKey (rg_RI g) \<noteq> Null \<and> rg_keyid g then [addr (RegistryKey (rg_RI g))] else [])"
  obtain q G' where spec: "RegistryCallbackRoutine R K G cls arg = Inr (in_status v, G', ?freed)"
    "follows G G'" "\<And>r. cached G' r = cached G r" "same_process G p q"
    "logs G (\<not> in_skip v \<or> KEEP_EXCLUDES G) (fst (mm_id G)) (KeQuerySystemTimePrecise K)
       (registry_calls p (cached G p \<noteq> None) (rg_value g) (reg_event cls g q) v) G'"
    by (rule registry_sound [OF assms(1-7) v]) (rule that)
  have q: "same_process G p (ri_PI (reg_event cls g q))" using spec(4) by (simp only: reg_event_PI)
  have "reg_event cls g q = RI\<lparr>ri_PI := q\<rparr>" by (simp add: RI reg_event_def)
  then have "logged (registry_calls p (cached G p \<noteq> None) (rg_value g) (reg_event cls g q) v) = recs"
    using logged_registry [OF q] by (simp add: assms(10))
  note log = logs_appended [OF spec(5) this]
  have "cached G' = cached G" using spec(3) by auto
  then show ?thesis using spec(1,2) log by (auto simp: follows_def)
qed

definition sample_reg_args :: reg_args where
  "sample_reg_args = \<lparr>ra_Object = 0, ra_CompleteName = ustr ''f'', ra_ValueName = Null, ra_Data = Null,
     ra_DataSize = 0, ra_Type = 0, ra_NewName = Null, ra_NewFileName = Null, ra_OldFileName = Null, ra_FileHandle = 0\<rparr>"

lemma registry_operation_answered_witness:
  "\<exists>G' freed. RegistryCallbackRoutine ref_rtl sample_kernel started_gc RegNtPreCreateKey sample_reg_args
      = Inr (STATUS_SUCCESS, G', freed)
    \<and> map fst (log_contents G') = [MATCH_ID, EVENT_TYPE, PID, REG_OP, CREATION_STATUS, REG_KEY, EVENT_END]"
proof -
  let ?p = "if PsGetCurrentProcessId sample_kernel = 0 then 4 else PsGetCurrentProcessId sample_kernel"
  let ?g = "\<lparr>rg_RI = zero_ri\<lparr>RegistryKey := ra_CompleteName sample_reg_args\<rparr>, rg_value = False,
    rg_keyid = False, rg_freed = []\<rparr>"
  let ?RI = "(rg_RI ?g)\<lparr>ri_PI := seen started_gc ?p, notifyClass := RegNtPreCreateKey, ri_tag := UMBRIEL\<rparr>"
  let ?hit = "rules_hit (registry_holds ref_rtl ?RI) started_gc"
  let ?v = "decide_block (?hit RBL) (?hit RINC) (?hit REXC)"
  let ?recs = "registry_records ?p (seen_records started_gc ?p) (rg_value ?g) ?RI ?v"
  have 1: "wf_reg_args sample_reg_args" by (simp add: wf_reg_args_def sample_reg_args_def)
  have 2: "RegNtPreCreateKey \<in> set reg_classes" by (simp add: reg_classes_def)
  have 3: "reg_gather ref_rtl sample_kernel started_gc RegNtPreCreateKey sample_reg_args zero_ri = Inr ?g"
    by (simp add: reg_gather_def reg_post_classes_def)
  have recs: "map fst ?recs = [MATCH_ID, EVENT_TYPE, PID, REG_OP, CREATION_STATUS, REG_KEY, EVENT_END]"
      "record_bytes ?recs < 200000000"
    by (simp_all add: no_rules registry_records_def sample_reg_args_def zero_ri_def name_record_sample
        name_record_def [of _ Null] record_bytes_def)
  obtain G' freed where reg: "RegistryCallbackRoutine ref_rtl sample_kernel started_gc RegNtPreCreateKey sample_reg_args
      = Inr (in_status ?v, G', freed)"
    "log_room_for started_gc ?recs \<longrightarrow> log_contents G' = log_contents started_gc
        @ (if \<not> in_skip ?v \<or> KEEP_EXCLUDES started_gc
           then stamped (fst (mm_id started_gc)) (KeQuerySystemTimePrecise sample_kernel) ?recs else [])"
    using registry_operation_answered [OF started_ok ref_rtl_ample sample_kernel_ok(2) 1 2 refl 3 refl refl refl]
    by (elim exE conjE) (rule that)
  have "map fst (stamped rid ts rs) = map fst rs" for rid ts rs by (auto simp: stamped_def)
  then show ?thesis
    using reg(1) mp [OF reg(2) log_room_sample [OF recs(2)]] recs(1) by (simp add: no_rules)
qed

section \<open>Handles\<close>

text \<open>C9: A handle to a process or a thread: the callback never adds a right, whatever the rules say; with
  tampering resisted, a handle to the client has no right left; and the callback returns, in a sound state,
  unless tampering is resisted and the kernel itself asks for a handle to the client.\<close>
theorem handle_rights_never_granted:
  assumes "driver_ok G" "pool_ample R" "wf_kernel K" "tpid = PsGetProcessId K (obi_Object ob)"
    and "target \<longleftrightarrow> obi_IsProcess ob \<and> obi_Object ob \<noteq> 0 \<and> tpid = clientpid G"
  shows "(ProcessObjectCallbackPre R K G ob = None \<longleftrightarrow> target \<and> KernelHandle ob \<and> RESIST_TAMPERING G)
    \<and> (\<forall>r. ProcessObjectCallbackPre R K G ob = Some r \<longrightarrow> (\<exists>ob' G' freed killed m. r = Inr (ob', G', freed, killed)
      \<and> driver_ok G' \<and> obi_DesiredAccess ob' = obi_DesiredAccess ob AND m
      \<and> obi_OriginalDesiredAccess ob' = obi_OriginalDesiredAccess ob AND m
      \<and> (target \<and> RESIST_TAMPERING G \<and> 0 < tpid \<longrightarrow> obi_DesiredAccess ob' = 0)))"
proof (cases rule: object_access_sound [OF assms(1-3), of ob])
  case 1
  then show ?thesis using assms(4,5) by (auto simp: protect_client_def Let_def split: if_splits)
next
  case (2 ob' G' freed killed)
  have protected: "\<not> (KernelHandle ob \<and> RESIST_TAMPERING G) \<and> (RESIST_TAMPERING G \<and> 0 < tpid \<longrightarrow> obi_DesiredAccess ob' = 0)"
    if t: target
  proof -
    obtain ob1 kl where p: "protect_client K G ob tpid = Some (ob1, kl)" "masked ob1 ob'"
      using 2(4) t assms(4,5) by auto
    then show ?thesis
      using t assms(5) by (auto simp: protect_client_def Let_def NapTime_None mask_access_def masked_def split: if_splits)
  qed
  obtain m where "obi_DesiredAccess ob' = obi_DesiredAccess ob AND m"
    "obi_OriginalDesiredAccess ob' = obi_OriginalDesiredAccess ob AND m"
    using 2(3) unfolding masked_def by blast
  then show ?thesis using 2(1,2) protected by (auto simp: follows_def)
qed

lemma driver_ok_resist [simp]: "driver_ok (G\<lparr>RESIST_TAMPERING := b\<rparr>) = driver_ok G"
  by (simp add: driver_ok_def config_ok_def cache_ok_def procs_ok_def log_inv_def)

definition sample_handle :: ob_pre_info where
  "sample_handle = \<lparr>obi_IsProcess = True, obi_Object = 5, obi_Operation = OB_OPERATION_HANDLE_CREATE, obi_Flags = 0,
     obi_DesiredAccess = 0x1FFFFF, obi_OriginalDesiredAccess = 0x1FFFFF\<rparr>"

lemma handle_rights_never_granted_witness:
  "\<exists>ob' G' freed killed. ProcessObjectCallbackPre ref_rtl sample_kernel
      (started_gc\<lparr>clientpid := 44, RESIST_TAMPERING := True\<rparr>) sample_handle = Some (Inr (ob', G', freed, killed))
    \<and> obi_DesiredAccess ob' = 0"
proof -
  let ?G = "started_gc\<lparr>clientpid := 44, RESIST_TAMPERING := True\<rparr>"
  let ?pre = "ProcessObjectCallbackPre ref_rtl sample_kernel ?G sample_handle"
  have ok: "driver_ok ?G" by simp
  have t: "True \<longleftrightarrow> obi_IsProcess sample_handle \<and> obi_Object sample_handle \<noteq> 0
      \<and> PsGetProcessId sample_kernel (obi_Object sample_handle) = clientpid ?G"
    by (simp add: sample_handle_def sample_kernel_def)
  note access = handle_rights_never_granted [OF ok ref_rtl_ample sample_kernel_ok(1) refl t]
  have "\<not> KernelHandle sample_handle" by (simp add: KernelHandle_def sample_handle_def)
  with access obtain r where r: "?pre = Some r" by (cases ?pre) auto
  then show ?thesis using access by (auto simp: sample_kernel_def)
qed

section \<open>The network\<close>

lemma seen_same:
  assumes "same_process G p q"
  shows "seen G p \<noteq> Null \<longleftrightarrow> q \<noteq> Null"
    "seen G p \<noteq> Null \<Longrightarrow> ImageFileName (deref (seen G p)) = ImageFileName (deref q)"
  using assms by (auto simp: same_process_def seen_def pi_view_def split: option.splits)

text \<open>C15: An event of the filtering platform, at any layer. When all positions that the callback reads at that
  layer are within the event's array of values, the event is gathered without a fault, and each member of what
  is gathered is the value at its position, with the addresses of an outbound IPv4 packet swapped; the event is
  inspected; the log gets its records, with what the cache knows of the process the platform names, unless the
  verdict of the include and exclude lists skips it; the cache answers as before. When one of them is not, as at
  the layers for listening and for datagrams, where the callback uses the positions of the connect layer, it
  reads outside the array. The values are well formed, and no allocation fails.\<close>
theorem network_event_reported:
  assumes "driver_ok G" "pool_ample R" "wf_net_event ev" "net_process K ev = (pid, p)"
  shows "if fields_there H ev then (\<exists>g NI v recs G'. net_gather H ev = Inr g \<and> g = net_expected H ev
    \<and> NI = (ng_NI g)\<lparr>wfp_PI := seen G p, wfp_layer := ne_layerId ev\<rparr>
    \<and> v = decide_log (rules_hit (network_holds R (ng_littleEndian g) NI) G WINC)
        (rules_hit (network_holds R (ng_littleEndian g) NI) G WEXC)
    \<and> recs = network_records pid (ne_layerId ev) (seen_records G p) (g\<lparr>ng_NI := NI\<rparr>) v
    \<and> NetClassifyCallback R K H G ev = Inr G' \<and> driver_ok G' \<and> cached G' = cached G
    \<and> (log_room_for G recs \<longrightarrow> log_contents G' = log_contents G
        @ (if \<not> in_skip v \<or> KEEP_EXCLUDES G
           then stamped (fst (mm_id G)) (KeQuerySystemTimePrecise K) recs else [])))
    else NetClassifyCallback R K H G ev = Inl OutOfBounds"
proof (cases "fields_there H ev")
  case False
  then show ?thesis using network_outside(2) [OF assms(3)] by simp
next
  case there: True
  obtain g q v G' where spec: "net_gather H ev = Inr g" "v = network_verdict R G (network_event ev g (seen G p))"
    "NetClassifyCallback R K H G ev = Inr G'" "follows G G'" "\<And>r. cached G' r = cached G r" "same_process G p q"
    "logs G (\<not> in_skip v \<or> KEEP_EXCLUDES G) (fst (mm_id G)) (KeQuerySystemTimePrecise K)
       (network_calls pid (ne_layerId ev) (cached G p \<noteq> None) (network_event ev g q) v) G'"
    by (rule network_sound [OF assms(1-3) there assms(4)]) (rule that)
  have q: "same_process G p (wfp_PI (ng_NI (network_event ev g q)))" using spec(6) by simp
  have "network_records pid (ne_layerId ev) (seen_records G p) (network_event ev g q) v
      = network_records pid (ne_layerId ev) (seen_records G p) (network_event ev g (seen G p)) v"
    using seen_same [OF spec(6)] by (cases "q = Null") (auto simp: network_records_def network_event_def Let_def)
  then have "logged (network_calls pid (ne_layerId ev) (cached G p \<noteq> None) (network_event ev g q) v)
      = network_records pid (ne_layerId ev) (seen_records G p) (network_event ev g (seen G p)) v"
    using logged_network [OF q] by simp
  note log = logs_appended [OF spec(7) this]
  have "cached G' = cached G" using spec(5) by auto
  then show ?thesis
    using there spec(1-4) log net_gather_expected [OF spec(1)]
    by (simp add: follows_def network_verdict_def network_event_def del: not_None_eq)
qed

text \<open>An outgoing connection over IPv4 of a process that is not in the cache, and a socket that starts to
  listen. The array of the first has the fields of the connect layer, that of the second is shorter: there
  the interface of arrival, at position 17 of the connect layer, is outside.\<close>

definition sample_headers :: wfp_headers where
  "sample_headers = \<lparr>FWPS_LAYER = \<lambda>l. case l of ALE_AUTH_CONNECT_V4 \<Rightarrow> 48 | ALE_AUTH_LISTEN_V4 \<Rightarrow> 40 | _ \<Rightarrow> 0,
     FWPS_FIELD = \<lambda>_ f. case f of ALE_APP_ID \<Rightarrow> 0 | IP_LOCAL_ADDRESS \<Rightarrow> 2 | IP_LOCAL_ADDRESS_TYPE \<Rightarrow> 3
       | IP_LOCAL_PORT \<Rightarrow> 4 | IP_PROTOCOL \<Rightarrow> 5 | IP_REMOTE_ADDRESS \<Rightarrow> 6 | IP_REMOTE_PORT \<Rightarrow> 7 | ALE_PROMISCUOUS_MODE \<Rightarrow> 8
       | IP_LOCAL_INTERFACE \<Rightarrow> 11 | INTERFACE_TYPE \<Rightarrow> 13 | IP_ARRIVAL_INTERFACE \<Rightarrow> 17 | ARRIVAL_INTERFACE_TYPE \<Rightarrow> 18\<rparr>"

definition sample_connection :: net_event where
  "sample_connection = \<lparr>ne_layerId = 48, ne_incomingValue =
     [FWP_EMPTY, FWP_EMPTY, FWP_UINT32 0x0A000001, FWP_EMPTY, FWP_UINT16 50000, FWP_UINT8 6, FWP_UINT32 0x08080808,
      FWP_UINT16 443, FWP_EMPTY, FWP_EMPTY, FWP_EMPTY, FWP_UINT64 (Ptr page 9), FWP_EMPTY, FWP_UINT32 6, FWP_EMPTY,
      FWP_EMPTY, FWP_EMPTY, FWP_EMPTY, FWP_EMPTY], ne_processId = Some 60, ne_packetDirection = None\<rparr>"

definition sample_listening :: net_event where
  "sample_listening = \<lparr>ne_layerId = 40, ne_incomingValue =
     [FWP_EMPTY, FWP_EMPTY, FWP_UINT32 0x0A000001, FWP_EMPTY, FWP_UINT16 50000, FWP_UINT64 (Ptr page 9), FWP_EMPTY,
      FWP_UINT32 6, FWP_EMPTY, FWP_EMPTY, FWP_EMPTY], ne_processId = Some 60, ne_packetDirection = None\<rparr>"

lemma network_event_reported_witness:
  "NetClassifyCallback ref_rtl sample_kernel sample_headers started_gc sample_listening = Inl OutOfBounds
   \<and> (\<exists>G' fs. NetClassifyCallback ref_rtl sample_kernel sample_headers started_gc sample_connection = Inr G'
    \<and> driver_ok G' \<and> log_contents G' = fs \<and> MM_NET_IP_PROTOCOL \<in> set (map fst fs))"
proof -
  have 1: "wf_net_event sample_connection" "wf_net_event sample_listening"
    by (simp_all add: wf_net_event_def sample_connection_def sample_listening_def wf_value_def)
  have 2: "net_process sample_kernel sample_connection = (60, 60)" "net_process sample_kernel sample_listening = (60, 60)"
    by (simp_all add: net_process_def sample_connection_def sample_listening_def)
  have 3: "fields_there sample_headers sample_connection" "\<not> fields_there sample_headers sample_listening"
    by code_simp+
  note net = network_event_reported [OF started_ok ref_rtl_ample 1(1) 2(1), of sample_headers, unfolded if_P [OF 3(1)]]
  have listening: "NetClassifyCallback ref_rtl sample_kernel sample_headers started_gc sample_listening = Inl OutOfBounds"
    using network_event_reported [OF started_ok ref_rtl_ample 1(2) 2(2), of sample_headers] 3(2) by simp
  have conn: "case net_gather sample_headers sample_connection of Inr g \<Rightarrow> ng_netconn g | Inl e \<Rightarrow> False" by code_simp
  obtain g NI v recs G' where got: "net_gather sample_headers sample_connection = Inr g" "g = net_expected sample_headers sample_connection"
    "NI = (ng_NI g)\<lparr>wfp_PI := seen started_gc 60, wfp_layer := ne_layerId sample_connection\<rparr>"
    "v = decide_log (rules_hit (network_holds ref_rtl (ng_littleEndian g) NI) started_gc WINC)
        (rules_hit (network_holds ref_rtl (ng_littleEndian g) NI) started_gc WEXC)"
    "recs = network_records 60 (ne_layerId sample_connection) (seen_records started_gc 60) (g\<lparr>ng_NI := NI\<rparr>) v"
    "NetClassifyCallback ref_rtl sample_kernel sample_headers started_gc sample_connection = Inr G'" "driver_ok G'"
    "log_room_for started_gc recs \<longrightarrow> log_contents G' = log_contents started_gc
        @ (if \<not> in_skip v \<or> KEEP_EXCLUDES started_gc
           then stamped (fst (mm_id started_gc)) (KeQuerySystemTimePrecise sample_kernel) recs else [])"
    using net by (elim exE conjE) (rule that)
  have v: "v = \<lparr>in_status = 0, in_skip = False, in_id = 0\<rparr>" using got(4) by (simp add: decide_log_simps)
  have c: "ng_netconn g" using conn got(1) by simp
  have "seen started_gc 60 = Null" by (simp add: seen_def)
  then have room: "log_room_for started_gc recs"
    using c by (simp add: log_room_for_def got(3,5) network_records_def record_bytes_def addr_record_def Let_def min_def)
  show ?thesis
    using listening got(6,7) mp [OF got(8) room] c v by (simp add: got(5) network_records_def stamped_def Let_def)
qed

end
