(* ===== verification/MM_Request_Properties.thy ===== *)
theory MM_Request_Properties
  imports MM_Callback_Properties
begin

text \<open>
  The callback for loaded images and the callback for changes of a file, from their arguments to what the
  kernel and the reader of the log get.
\<close>

section \<open>Images\<close>

definition image_records ::
  "u64 \<Rightarrow> (u16 \<times> u8 list) list \<Rightarrow> UNICODE_STRING ptr \<Rightarrow> u32 \<Rightarrow> inspection \<Rightarrow> (u16 \<times> u8 list) list" where
  "image_records pid who img properties v =
     [(MATCH_ID, le_bytes 4 (unat (in_id v))), (EVENT_TYPE, le_bytes 2 (unat (IMAGE_LOADED :: u16))),
      (PID, le_bytes 8 (unat pid))] @ name_record LOADED_MODULE img
     @ [(MODULE_PROPERTIES, le_bytes 4 (unat properties))] @ who
     @ [(EVENT_END, le_bytes 2 (unat (IMAGE_LOADED :: u16)))]"

lemma logged_image:
  assumes "known_process W q" "W \<noteq> None \<Longrightarrow> found"
  shows "logged (image_calls pid found (image_event ev img q) v)
    = image_records pid (case W of None \<Rightarrow> [] | Some w \<Rightarrow> source_records w) img (ie_Properties ev) v"
proof -
  have name: "logged [log_when (img \<noteq> Null \<and> Buffer (deref img) \<noteq> Null) (log_str LOADED_MODULE img)]
      = name_record LOADED_MODULE img"
    by (cases "Buffer (deref img)") (auto simp: name_record_def logged_log_str)
  have who: "logged (if found then PCacheLogEntries q False else []) = (case W of None \<Rightarrow> [] | Some w \<Rightarrow> source_records w)"
    by (rule known_calls) (use assms in auto)
  have two: "logged [x, y] = logged [x] @ logged [y]" for x y using logged_Cons [of x "[y]"] by simp
  show ?thesis
    unfolding image_calls_def Let_def logged_append
    by (simp only: image_event_def MODULE_INFO.simps who logged_numbers name two image_records_def
        append.simps append_assoc logged.simps(1))
qed

text \<open>C17: A loaded image: the verdict is that of the module include and exclude lists on the image and on what
  the cache knows of the process, also when the process has been read because the cache does not know it; unless
  the verdict skips the event, the log gets its records; it gets one more end of event in any case. When no
  name of the image could be had, the callback gives an address on its own stack back to the pool.\<close>
theorem image_load_reported:
  assumes "driver_ok G" "pool_ample R" "wf_kernel K" "wf_file_names K" "wf_str (ie_FullImageName ev)"
    and "pid = (if hProcess = 0 then 4 else hProcess)"
    and "W = (if 5 < pid \<and> NT_SUCCESS (fst (PsLookupProcessByProcessId K hProcess)) then cached G hProcess else None)"
    and "image_name R K ev = (obInfo, img)"
    and "v = image_verdict R G (image_event ev img (known W))"
    and "recs = (if \<not> in_skip v \<or> KEEP_EXCLUDES G
           then image_records pid (case W of None \<Rightarrow> [] | Some w \<Rightarrow> source_records w) img (ie_Properties ev) v else [])
         @ [(EVENT_END, le_bytes 2 (unat (IMAGE_LOADED :: u16)))]"
  shows "\<exists>G' freed. ImageLoadCallbackRoutine R K G hProcess ev = Inr (G', freed)
    \<and> driver_ok G' \<and> cached G' = cached G
    \<and> (log_room_for G recs \<longrightarrow> log_contents G' = log_contents G
        @ stamped (fst (mm_id G)) (KeQuerySystemTimePrecise K) recs)
    \<and> (obInfo = Null \<and> img = local empty_ustr \<longrightarrow> stack \<in> set freed)"
proof -
  obtain G' found q fr where spec: "ImageLoadCallbackRoutine R K G hProcess ev = Inr (G',
      (case obInfo of Ptr a _ \<Rightarrow> [a] | Null \<Rightarrow> snd (DeallocateAndDestroyUnicodeString img)) @ fr)"
    "follows G G'" "\<And>r. cached G' r = cached G r" "known_process W q" "W \<noteq> None \<Longrightarrow> found"
    "logs G True (fst (mm_id G)) (KeQuerySystemTimePrecise K)
      ((if \<not> in_skip v \<or> KEEP_EXCLUDES G then image_calls pid found (image_event ev img q) v else [])
       @ [log_u16 EVENT_END IMAGE_LOADED]) G'"
    by (rule image_load_sound [OF assms(1-5) assms(7) [unfolded assms(6)] assms(8,9), folded assms(6)]) (rule that)
  have "logged (image_calls pid found (image_event ev img q) v)
      = image_records pid (case W of None \<Rightarrow> [] | Some w \<Rightarrow> source_records w) img (ie_Properties ev) v"
    by (rule logged_image) (use spec(4,5) in auto)
  then have "logged ((if \<not> in_skip v \<or> KEEP_EXCLUDES G then image_calls pid found (image_event ev img q) v else [])
       @ [log_u16 EVENT_END IMAGE_LOADED]) = recs"
    by (simp add: assms(10))
  note log = logs_appended [OF spec(6) this]
  have "cached G' = cached G" using spec(3) by auto
  moreover have "stack \<in> set (snd (DeallocateAndDestroyUnicodeString (local empty_ustr)))"
    by (simp add: DeallocateAndDestroyUnicodeString_def empty_ustr_def VALID_PAGE_def stack_def)
  ultimately show ?thesis using spec(1,2) log by (auto simp: follows_def)
qed

text \<open>An image without a name, loaded by the system process.\<close>

definition nameless_image :: image_event where
  "nameless_image = \<lparr>ie_FullImageName = Null, ie_ExtendedInfoPresent = False, ie_FileObject = 0, ie_Properties = 3\<rparr>"

lemma image_load_reported_witness:
  "\<exists>G' freed. ImageLoadCallbackRoutine ref_rtl sample_kernel started_gc 0 nameless_image = Inr (G', freed)
    \<and> stack \<in> set freed
    \<and> map fst (log_contents G') = [MATCH_ID, EVENT_TYPE, PID, MODULE_PROPERTIES, EVENT_END, EVENT_END]"
proof -
  have 1: "wf_file_names sample_kernel" by (simp add: wf_file_names_def sample_kernel_def)
  have 2: "wf_str (ie_FullImageName nameless_image)" by (simp add: nameless_image_def)
  have 3: "None = (if 5 < (4 :: u64) \<and> NT_SUCCESS (fst (PsLookupProcessByProcessId sample_kernel 0))
      then cached started_gc 0 else None)" by simp
  have 4: "(4 :: u64) = (if (0 :: u64) = 0 then 4 else 0)" by simp
  have 5: "image_name ref_rtl sample_kernel nameless_image = (Null, local empty_ustr)"
    by (simp add: image_name_def nameless_image_def)
  let ?v = "image_verdict ref_rtl started_gc (image_event nameless_image (local empty_ustr) (known None))"
  let ?recs = "(if \<not> in_skip ?v \<or> KEEP_EXCLUDES started_gc
      then image_records 4 (case None of None \<Rightarrow> [] | Some w \<Rightarrow> source_records w) (local empty_ustr)
        (ie_Properties nameless_image) ?v else []) @ [(EVENT_END, le_bytes 2 (unat (IMAGE_LOADED :: u16)))]"
  have v: "\<not> in_skip ?v" by (simp add: image_verdict_def decide_log_simps)
  have "name_record t (local empty_ustr) = []" for t by (simp add: name_record_def empty_ustr_def)
  then have recs: "map fst ?recs = [MATCH_ID, EVENT_TYPE, PID, MODULE_PROPERTIES, EVENT_END, EVENT_END]"
    "record_bytes ?recs < 200000000"
    using v by (simp_all add: image_records_def record_bytes_def)
  obtain G' freed where load: "ImageLoadCallbackRoutine ref_rtl sample_kernel started_gc 0 nameless_image = Inr (G', freed)"
    "log_room_for started_gc ?recs \<longrightarrow> log_contents G' = log_contents started_gc
        @ stamped (fst (mm_id started_gc)) (KeQuerySystemTimePrecise sample_kernel) ?recs"
    "(Null :: UNICODE_STRING ptr) = Null \<and> local empty_ustr = local empty_ustr \<longrightarrow> stack \<in> set freed"
    using image_load_reported [OF started_ok ref_rtl_ample sample_kernel_ok(1) 1 2 4 3 5 refl refl] by (elim exE conjE) (rule that)
  have "map fst (stamped rid ts rs) = map fst rs" for rid ts rs by (auto simp: stamped_def)
  then show ?thesis
    using load(1,3) mp [OF load(2) log_room_sample [OF recs(2)]] recs(1) by simp
qed

section \<open>Changes of files\<close>

definition record_if :: "bool \<Rightarrow> u16 \<Rightarrow> u8 list \<Rightarrow> (u16 \<times> u8 list) list" where
  "record_if b type bs = (if b then [(type, bs)] else [])"

definition set_records ::
  "u64 \<Rightarrow> (u16 \<times> u8 list) list \<Rightarrow> flt_data \<Rightarrow> FILE_SET_INFO \<Rightarrow> inspection \<Rightarrow> (u16 \<times> u8 list) list" where
  "set_records pid who Data FI v = (let op = fs_Operation FI; remote = (op = FileRemoteProtocolInformation);
       pipe = (op = FilePipeLocalInformation) in
     [(MATCH_ID, le_bytes 4 (unat (in_id v))), (EVENT_TYPE, le_bytes 2 (unat (MM_FILE_SET_INFO :: u16))),
      (PID, le_bytes 8 (unat pid)), (MM_FILE_OPERATION, le_bytes 4 (unat op)),
      (CREATION_STATUS, le_bytes 4 (unat (fd_Status Data)))]
     @ who @ names_records (request_names Data)
     @ record_if (0 <s CreationTime FI) MM_FILE_CREATION_TIME (le_bytes 8 (unat (CreationTime FI)))
     @ record_if (0 <s ChangeTime FI) MM_FILE_CHANGE_TIME (le_bytes 8 (unat (ChangeTime FI)))
     @ record_if (AccessFlags FI \<noteq> 0) MM_FILE_ACCESS_FLAGS (le_bytes 4 (unat (AccessFlags FI)))
     @ (if set_newname op then name_record MM_FILE_NEW_NAME (NewName FI) else [])
     @ record_if (remote \<and> Protocol FI \<noteq> 0) MM_FILE_NETWORK_PROTOCOL (le_bytes 4 (unat (Protocol FI)))
     @ record_if (remote \<and> ProtocolMajorVersion FI \<noteq> 0) MM_FILE_NETWORK_PROTOCOL_VERSION_MAJOR
         (le_bytes 2 (unat (ProtocolMajorVersion FI)))
     @ record_if (remote \<and> ProtocolMinorVersion FI \<noteq> 0) MM_FILE_NETWORK_PROTOCOL_VERSION_MINOR
         (le_bytes 2 (unat (ProtocolMinorVersion FI)))
     @ record_if (pipe \<and> NamedPipeType FI \<noteq> 0) MM_NAMED_PIPE_TYPE (le_bytes 4 (unat (NamedPipeType FI)))
     @ record_if (pipe \<and> NamedPipeConfiguration FI \<noteq> 0) MM_NAMED_PIPE_CONFIG (le_bytes 4 (unat (NamedPipeConfiguration FI)))
     @ record_if (pipe \<and> NamedPipeState FI \<noteq> 0) MM_NAMED_PIPE_STATE (le_bytes 4 (unat (NamedPipeState FI)))
     @ record_if (pipe \<and> NamedPipeEnd FI \<noteq> 0) MM_NAMED_PIPE_END (le_bytes 4 (unat (NamedPipeEnd FI)))
     @ record_if (DeleteFile FI = 1) MM_FILE_DELETION [1]
     @ [(EVENT_END, le_bytes 2 (unat (MM_FILE_SET_INFO :: u16)))])"

lemma logged_set:
  assumes "same_process G p q"
  shows "logged (set_calls pid (cached G p \<noteq> None) Data (request_names Data) (FI\<lparr>fs_PI := q\<rparr>) v)
    = set_records pid (seen_records G p) Data FI v"
proof -
  have num: "logged (log_when b (log_u8 t x) # cs) = record_if b t (le_bytes 1 (unat x)) @ logged cs"
    "logged (log_when b (log_u16 t y) # cs) = record_if b t (le_bytes 2 (unat y)) @ logged cs"
    "logged (log_when b (log_u32 t z) # cs) = record_if b t (le_bytes 4 (unat z)) @ logged cs"
    "logged (log_when b (log_u64 t w) # cs) = record_if b t (le_bytes 8 (unat w)) @ logged cs"
    for b t x y z w cs
    using logged_Cons [of "log_when b _" cs] by (simp_all add: record_if_def log_when_def)
  have name: "logged (log_when (b \<and> s \<noteq> Null) (log_str t s) # cs)
      = (if b then name_record t s else []) @ logged cs" for b s t cs
    using logged_Cons [of "log_when (b \<and> s \<noteq> Null) (log_str t s)" cs]
    by (auto simp: log_when_def name_record_def logged_log_str)
  have who: "logged (if cached G p \<noteq> None then PCacheLogEntries (fs_PI (FI\<lparr>fs_PI := q\<rparr>)) False else []) = seen_records G p"
  proof -
    have "fs_PI (FI\<lparr>fs_PI := q\<rparr>) = q" by simp
    then show ?thesis using same_process_calls(2) [OF assms] by (simp only:)
  qed
  have one: "record_if (x = 1) t (le_bytes 1 (unat x)) = record_if (x = 1) t [1]" for x :: u8 and t
    by (auto simp: record_if_def)
  show ?thesis
    unfolding set_calls_def Let_def logged_append who logged_names num name logged_numbers one set_records_def
    by (simp add: word_gt_0)
qed

text \<open>C16: A change to a file: a request of a class the callback does not know, or one that clears the deletion
  flag, goes on untouched. Any other goes on unless the verdict of the inspection is a failure, with which it is completed
  at once; the log gets the records of the change, with what the cache knows of the process, the names of the file and
  the fields of its class, unless the verdict skips it; and the cache answers as before.\<close>
theorem file_set_answered:
  assumes "driver_ok G" "pool_ample R" "wf_request Data" "p = PsGetCurrentProcessId K"
  shows "case set_gather Data of
      None \<Rightarrow> FsPreSetInformationCallback R K G Data = Inr (FLT_PREOP_SUCCESS_NO_CALLBACK, Data, G)
    | Some FI \<Rightarrow> \<exists>v answer recs G'. InspectFsSetEvent R G (set_request Data FI (seen G p)) = Inr v
        \<and> answer = (if NT_SUCCESS (in_status v) then Data else Data\<lparr>fd_Status := in_status v\<rparr>)
        \<and> recs = set_records (if p = 0 then 4 else p) (seen_records G p) answer (set_request Data FI (seen G p)) v
        \<and> FsPreSetInformationCallback R K G Data = Inr (if NT_SUCCESS (in_status v)
            then FLT_PREOP_SUCCESS_NO_CALLBACK else FLT_PREOP_COMPLETE, answer, G')
        \<and> driver_ok G' \<and> cached G' = cached G
        \<and> (log_room_for G recs \<longrightarrow> log_contents G' = log_contents G
            @ (if \<not> in_skip v \<or> KEEP_EXCLUDES G
               then stamped (fst (mm_id G)) (KeQuerySystemTimePrecise K) recs else []))"
proof (cases "set_gather Data")
  case None
  then show ?thesis by (simp add: file_set_other)
next
  case (Some FI)
  obtain q v G' answer where spec: "InspectFsSetEvent R G (set_request Data FI (seen G p)) = Inr v"
    "answer = (if NT_SUCCESS (in_status v) then (FLT_PREOP_SUCCESS_NO_CALLBACK, Data)
      else (FLT_PREOP_COMPLETE, Data\<lparr>fd_Status := in_status v\<rparr>))"
    "FsPreSetInformationCallback R K G Data = Inr (fst answer, snd answer, G')" "follows G G'"
    "\<And>r. cached G' r = cached G r" "same_process G p q"
    "logs G (\<not> in_skip v \<or> KEEP_EXCLUDES G) (fst (mm_id G)) (KeQuerySystemTimePrecise K)
       (set_calls (if p = 0 then 4 else p) (cached G p \<noteq> None) (snd answer) (request_names Data)
         (set_request Data FI q) v) G'"
    by (rule file_set_sound [OF assms(1-3) Some assms(4)]) (rule that)
  have out: "request_names Data = request_names (snd answer)" "set_request Data FI q = (set_request Data FI (seen G p))\<lparr>fs_PI := q\<rparr>"
    by (cases "NT_SUCCESS (in_status v)"; simp add: spec(2) request_names_def) (simp add: set_request_def Let_def)
  have "logged (set_calls (if p = 0 then 4 else p) (cached G p \<noteq> None) (snd answer) (request_names Data)
         (set_request Data FI q) v)
      = set_records (if p = 0 then 4 else p) (seen_records G p) (snd answer) (set_request Data FI (seen G p)) v"
    unfolding out by (rule logged_set [OF spec(6)])
  note log = logs_appended [OF spec(7) this]
  have "cached G' = cached G" using spec(5) by auto
  then show ?thesis
    using spec(1-4) log by (cases "NT_SUCCESS (in_status v)") (simp_all add: Some follows_def)
qed

text \<open>A file is renamed to \<open>g\<close>.\<close>

definition sample_rename :: flt_data where
  "sample_rename = sample_request\<lparr>fd_FileInformationClass := FileRenameInformation,
     fd_InfoBuffer := (fd_InfoBuffer sample_request)\<lparr>sb_FileName := Ptr page (utf16 ''g''), sb_FileNameLength := 2\<rparr>\<rparr>"

lemma file_set_answered_witness:
  "\<exists>G'. FsPreSetInformationCallback ref_rtl sample_kernel started_gc sample_rename
      = Inr (FLT_PREOP_SUCCESS_NO_CALLBACK, sample_rename, G')
    \<and> map fst (log_contents G') = [MATCH_ID, EVENT_TYPE, PID, MM_FILE_OPERATION, CREATION_STATUS, MM_FILE_NAME,
        MM_FILE_NEW_NAME, EVENT_END]"
proof -
  have 1: "wf_request sample_rename"
    using sample_request_ok by (simp add: wf_request_def sample_rename_def utf16_def)
  let ?gathered = "set_new_name (fd_InfoBuffer sample_rename) (zero_fs\<lparr>fs_Operation := FileRenameInformation\<rparr>)"
  let ?p = "PsGetCurrentProcessId sample_kernel"
  let ?FI = "set_request sample_rename ?gathered (seen started_gc ?p)"
  have g: "set_gather sample_rename = Some ?gathered" by (simp add: set_gather_def sample_rename_def)
  obtain v answer recs G' where set: "InspectFsSetEvent ref_rtl started_gc ?FI = Inr v"
    "answer = (if NT_SUCCESS (in_status v) then sample_rename else sample_rename\<lparr>fd_Status := in_status v\<rparr>)"
    "recs = set_records (if ?p = 0 then 4 else ?p) (seen_records started_gc ?p) answer ?FI v"
    "FsPreSetInformationCallback ref_rtl sample_kernel started_gc sample_rename = Inr (if NT_SUCCESS (in_status v)
       then FLT_PREOP_SUCCESS_NO_CALLBACK else FLT_PREOP_COMPLETE, answer, G')"
    "log_room_for started_gc recs \<longrightarrow> log_contents G' = log_contents started_gc
        @ (if \<not> in_skip v \<or> KEEP_EXCLUDES started_gc
           then stamped (fst (mm_id started_gc)) (KeQuerySystemTimePrecise sample_kernel) recs else [])"
    using file_set_answered [OF started_ok ref_rtl_ample 1 refl, of sample_kernel] unfolding g option.case
    by (elim exE conjE) (rule that)
  have v: "v = \<lparr>in_status = 0, in_skip = False, in_id = 0\<rparr>"
    using set(1) by (simp add: InspectFsSetEvent_def)
  have "NT_SUCCESS 0" by (simp add: NT_SUCCESS_def)
  then have answer: "answer = sample_rename" using set(2) by (simp add: v)
  have FI: "fs_Operation ?FI = FileRenameInformation" "NewName ?FI = local \<lparr>Length = 2, MaximumLength = 2, Buffer = Ptr page (utf16 ''g'')\<rparr>"
    "CreationTime ?FI = 0" "ChangeTime ?FI = 0" "AccessFlags ?FI = 0" "DeleteFile ?FI = 0"
    by (simp_all add: set_request_def set_new_name_def sample_rename_def zero_fs_def Let_def)
  have names: "name_record MM_FILE_NEW_NAME
      (local \<lparr>Length = 2, MaximumLength = 2, Buffer = Ptr page (utf16 ''g'')\<rparr>) = [(MM_FILE_NEW_NAME, [103, 0])]"
    by (simp add: name_record_def ustr_bytes_def utf16_def VALID_PAGE_def page_def)
  have req: "names_records (request_names sample_rename) = [(MM_FILE_NAME, [102, 0])]"
    by (simp add: request_names_def names_records_def sample_rename_def sample_request_def sample_names_def NT_SUCCESS_def
        name_record_sample name_record_def [of _ Null])
  have "map fst recs = [MATCH_ID, EVENT_TYPE, PID, MM_FILE_OPERATION, CREATION_STATUS, MM_FILE_NAME, MM_FILE_NEW_NAME, EVENT_END]"
    "record_bytes recs < 200000000"
    unfolding set(3) answer set_records_def Let_def req FI
    by (simp_all add: names record_if_def set_newname_def record_bytes_def)
  moreover have "map fst (stamped rid ts rs) = map fst rs" for rid ts rs by (auto simp: stamped_def)
  ultimately show ?thesis
    using set(4) mp [OF set(5) log_room_sample] by (simp add: v answer \<open>NT_SUCCESS 0\<close>)
qed

end
