(* ===== verification/MM_Driver_Events.thy ===== *)
theory MM_Driver_Events
  imports MM_Registry_Network_Soundness MM_Network_Soundness
begin

text \<open>
  The running driver: the kernel calls its entry points one after the other, each with the answers it
  gives during the call, and \<open>run_driver\<close> is what becomes of the context. Two kinds of calls stop the
  machine, whatever the context is: the load of an image whose name cannot be had, and a network event at a
  layer that has fewer fields than the callback reads. From a sound context a run faults at the first of
  these \<open>hazard\<close>s; without one it ends, and the configuration stays what has been loaded.
\<close>

section \<open>Events\<close>

datatype driver_event =
    ProcessNotify u64 "create_info ptr"
  | ThreadNotify u64 u64 bool
  | ImageLoad u64 image_event
  | HandleOperation ob_pre_info
  | RegistryOperation u32 reg_args
  | FileCreate flt_data
  | FileSetInformation flt_data
  | NetClassify net_event
  | ClientOpen
  | ClientClose
  | ClientRead u32 bool

text \<open>An event with the runtime, the kernel and the platform's headers during its call.\<close>

record driver_call =
  dc_rtl :: rtl
  dc_kernel :: kernel
  dc_headers :: wfp_headers
  dc_event :: driver_event

text \<open>The context after a call; \<open>None\<close> when the call never returns. The context is at address 1. The callback
  for images may hand the address of one of its locals to \<open>ExFreePool\<close>, which is no memory of the pool:
  the kernel stops there.\<close>

definition driver_step :: "driver_call \<Rightarrow> GC \<Rightarrow> GC res option" where
  "driver_step c G = (let R = dc_rtl c; K = dc_kernel c in
     case dc_event c of
       ProcessNotify hPid pInfo \<Rightarrow>
         Some (andthen (ProcessNotifyCallbackRoutine R K G hPid pInfo) (\<lambda>(_, G, _). Inr G))
     | ThreadNotify hProcess hThread bCreate \<Rightarrow>
         Some (andthen (ThreadNotifyCallbackRoutine R K G hProcess hThread bCreate) (\<lambda>(G, _). Inr G))
     | ImageLoad hProcess ev \<Rightarrow> Some (andthen (ImageLoadCallbackRoutine R K G hProcess ev)
         (\<lambda>(G, freed). if stack \<in> set freed then Inl BadFree else Inr G))
     | HandleOperation ob \<Rightarrow>
         map_option (\<lambda>r. andthen r (\<lambda>(_, G, _, _). Inr G)) (ProcessObjectCallbackPre R K G ob)
     | RegistryOperation cls arg \<Rightarrow>
         Some (andthen (RegistryCallbackRoutine R K G cls arg) (\<lambda>(_, G, _). Inr G))
     | FileCreate Data \<Rightarrow> Some (andthen (FsPreCreateCallback R K G Data) (\<lambda>(_, _, G). Inr G))
     | FileSetInformation Data \<Rightarrow> Some (andthen (FsPreSetInformationCallback R K G Data) (\<lambda>(_, _, G). Inr G))
     | NetClassify ev \<Rightarrow> Some (NetClassifyCallback R K (dc_headers c) G ev)
     | ClientOpen \<Rightarrow> Some (andthen (MoonMonDispatchCreate K (Ptr 1 G)) (\<lambda>(_, _, q). Inr (deref q)))
     | ClientClose \<Rightarrow> Some (andthen (MoonMonDispatchClose K (Ptr 1 G)) (\<lambda>(_, _, q). Inr (deref q)))
     | ClientRead len mapped \<Rightarrow> Some (Inr (deref (snd (ReadLogEntry (Ptr 1 G) len mapped)))))"

fun run_driver :: "driver_call list \<Rightarrow> GC \<Rightarrow> GC res option" where
  "run_driver [] G = Some (Inr G)"
| "run_driver (c # cs) G =
     (case driver_step c G of Some (Inr G') \<Rightarrow> run_driver cs G' | stuck \<Rightarrow> stuck)"

section \<open>Well-formed events\<close>

text \<open>What the pool and the file systems give out is not on the stack of a callback.\<close>

definition off_stack :: "rtl \<Rightarrow> kernel \<Rightarrow> bool" where
  "off_stack R K \<longleftrightarrow> (\<forall>k n. ExAllocatePool2 R k n \<noteq> stack)
     \<and> (\<forall>f. case snd (IoQueryFileDosDeviceName K f) of Null \<Rightarrow> True | Ptr a _ \<Rightarrow> a \<noteq> stack)"

text \<open>What the kernel promises of the arguments of a call: strings, buffers and values are what their types
  say, a process that is created or that exits has a handle, and allocations succeed. Of the number of values of a network
  event nothing is promised.\<close>

definition event_ok :: "driver_call \<Rightarrow> bool" where
  "event_ok c \<longleftrightarrow> pool_ample (dc_rtl c) \<and> wf_kernel (dc_kernel c) \<and>
     (case dc_event c of
        ProcessNotify hPid pInfo \<Rightarrow> hPid \<noteq> 0 \<and> (pInfo \<noteq> Null \<longrightarrow> wf_create pInfo)
      | ImageLoad _ ev \<Rightarrow> wf_file_names (dc_kernel c) \<and> wf_str (ie_FullImageName ev)
          \<and> off_stack (dc_rtl c) (dc_kernel c)
      | RegistryOperation _ arg \<Rightarrow> wf_key_names (dc_kernel c) \<and> wf_reg_args arg
      | FileCreate Data \<Rightarrow> wf_request Data
      | FileSetInformation Data \<Rightarrow> wf_request Data
      | NetClassify ev \<Rightarrow> wf_net_event ev
      | _ \<Rightarrow> True)"

text \<open>The calls that fault, with the fault: an image without a name, for which the callback frees its own
  local, and a network event without all the fields that the callback reads.\<close>

definition hazard :: "driver_call \<Rightarrow> fault option" where
  "hazard c = (case dc_event c of
     ImageLoad _ ev \<Rightarrow>
       if image_name (dc_rtl c) (dc_kernel c) ev = (Null, local empty_ustr) then Some BadFree else None
   | NetClassify ev \<Rightarrow> if fields_there (dc_headers c) ev then None else Some OutOfBounds
   | _ \<Rightarrow> None)"

fun first_hazard :: "driver_call list \<Rightarrow> fault option" where
  "first_hazard [] = None"
| "first_hazard (c # cs) = (case hazard c of None \<Rightarrow> first_hazard cs | Some e \<Rightarrow> Some e)"

text \<open>Only a creation uses up a slot of the table.\<close>

definition creates :: "driver_call \<Rightarrow> bool" where
  "creates c = (case dc_event c of ProcessNotify _ pInfo \<Rightarrow> pInfo \<noteq> Null | _ \<Rightarrow> False)"

text \<open>A handle of the kernel to the client, with tampering resisted: the callback naps for ever.\<close>

definition naps :: "driver_call \<Rightarrow> GC \<Rightarrow> bool" where
  "naps c G = (case dc_event c of
     HandleOperation ob \<Rightarrow> obi_IsProcess ob \<and> obi_Object ob \<noteq> 0 \<and> KernelHandle ob \<and> RESIST_TAMPERING G
       \<and> PsGetProcessId (dc_kernel c) (obi_Object ob) = clientpid G
   | _ \<Rightarrow> False)"

text \<open>What may change besides the log, the table and the ids: the client and the index.\<close>

definition only_session :: "GC \<Rightarrow> GC \<Rightarrow> bool" where
  "only_session G G' \<longleftrightarrow> (\<exists>c n. event_frame (G\<lparr>clientpid := c, NEW_PROCS_INDEX := n\<rparr>) G')"

lemma only_session_fields:
  assumes "only_session G G'"
  shows "gc_list G' = gc_list G" "gc_COUNT G' = gc_COUNT G" "flags G' = flags G" "gc_tag G' = gc_tag G"
    "gc_State G' = gc_State G" "KEEP_EXCLUDES G' = KEEP_EXCLUDES G" "RESIST_TAMPERING G' = RESIST_TAMPERING G"
    "REG_DATA_MAX_SIZE G' = REG_DATA_MAX_SIZE G"
  using assms by (auto simp: only_session_def event_frame_def flags_def)

lemma only_sessionI:
  "follows (G\<lparr>clientpid := c\<rparr>) G' \<Longrightarrow> only_session G G'" "follows (at_index n G) G' \<Longrightarrow> only_session G G'"
  "follows G G' \<Longrightarrow> only_session G G'" "follows (client_gone p G) G' \<Longrightarrow> only_session G G'"
proof -
  have c: "only_session G G'" if "follows (G\<lparr>clientpid := c\<rparr>) G'" for c
  proof -
    have "G\<lparr>clientpid := c, NEW_PROCS_INDEX := NEW_PROCS_INDEX G\<rparr> = G\<lparr>clientpid := c\<rparr>" by (cases G) simp
    then show ?thesis using that unfolding only_session_def follows_def by metis
  qed
  have same: "G\<lparr>clientpid := clientpid G\<rparr> = G" by simp
  show "follows (G\<lparr>clientpid := c\<rparr>) G' \<Longrightarrow> only_session G G'" by (rule c)
  show "follows G G' \<Longrightarrow> only_session G G'" using c [of "clientpid G"] same by simp
  then show "follows (client_gone p G) G' \<Longrightarrow> only_session G G'"
    using c [of "- 1"] by (simp add: client_gone_def split: if_splits)
  show "only_session G G'" if "follows (at_index n G) G'"
  proof -
    have "G\<lparr>clientpid := clientpid G, NEW_PROCS_INDEX := n\<rparr> = at_index n G" by (simp add: at_index_def)
    then show ?thesis using that unfolding only_session_def follows_def by metis
  qed
qed

lemma only_session_trans: "only_session G G' \<Longrightarrow> only_session G' G'' \<Longrightarrow> only_session G G''"
proof -
  assume "only_session G G'" "only_session G' G''"
  then obtain c n c' n' where "event_frame (G\<lparr>clientpid := c, NEW_PROCS_INDEX := n\<rparr>) G'"
    "event_frame (G'\<lparr>clientpid := c', NEW_PROCS_INDEX := n'\<rparr>) G''"
    by (auto simp: only_session_def)
  then have "event_frame (G\<lparr>clientpid := c', NEW_PROCS_INDEX := n'\<rparr>) G''"
    unfolding event_frame_def by (elim exE) (intro exI, cases G, simp)
  then show ?thesis unfolding only_session_def by blast
qed

section \<open>The client\<close>

text \<open>How the client changes: by opening when there is none, by closing, and when its process exits.\<close>

inductive client_moves :: "u64 \<Rightarrow> driver_call \<Rightarrow> u64 \<Rightarrow> bool" where
  opened: "dc_event c = ClientOpen \<Longrightarrow> \<not> 0 <s p \<Longrightarrow> client_moves p c (PsGetCurrentProcessId (dc_kernel c))"
| denied: "dc_event c = ClientOpen \<Longrightarrow> 0 <s p \<Longrightarrow> client_moves p c p"
| closed: "dc_event c = ClientClose \<Longrightarrow> client_moves p c (- 1)"
| exited: "dc_event c = ProcessNotify p Null \<Longrightarrow> client_moves p c (- 1)"
| other: "dc_event c \<noteq> ClientOpen \<Longrightarrow> dc_event c \<noteq> ClientClose \<Longrightarrow> dc_event c \<noteq> ProcessNotify p Null
    \<Longrightarrow> client_moves p c p"

inductive_simps client_moves_open: "client_moves p \<lparr>dc_rtl = R, dc_kernel = K, dc_headers = H, dc_event = ClientOpen\<rparr> q"
inductive_simps client_moves_close: "client_moves p \<lparr>dc_rtl = R, dc_kernel = K, dc_headers = H, dc_event = ClientClose\<rparr> q"
inductive_cases client_moves_cases: "client_moves p c q"

inductive client_path :: "u64 \<Rightarrow> driver_call list \<Rightarrow> u64 \<Rightarrow> bool" where
  stays: "client_path p [] p"
| moves: "client_moves p c q \<Longrightarrow> client_path q cs r \<Longrightarrow> client_path p (c # cs) r"

text \<open>A client keeps its place until it closes, or anyone does, or its process exits.\<close>

definition ends_session :: "u64 \<Rightarrow> driver_call \<Rightarrow> bool" where
  "ends_session p c \<longleftrightarrow> dc_event c = ClientClose \<or> dc_event c = ProcessNotify p Null"

lemma client_kept:
  assumes "client_path p cs q" "0 <s p" "list_all (\<lambda>c. \<not> ends_session p c) cs"
  shows "q = p"
  using assms
proof (induction rule: client_path.induct)
  case (moves p c q cs r)
  then have "q = p" by (auto simp: ends_session_def elim: client_moves_cases)
  then show ?case using moves by simp
qed simp

section \<open>What the callback for images frees\<close>

lemma copy_off_stack:
  assumes "\<And>k n. ExAllocatePool2 R k n \<noteq> stack"
  shows "AllocateAndCopyUnicodeString R s d = d
    \<or> stack \<notin> set (snd (DeallocateAndDestroyUnicodeString (AllocateAndCopyUnicodeString R s d)))"
  using assms assms [symmetric]
  by (auto simp: AllocateAndCopyUnicodeString_def DeallocateAndDestroyUnicodeString_def Let_def split: ptr.split)

lemma dealloc_Null [simp]: "DeallocateAndDestroyUnicodeString Null = (Null, [])"
  by (simp add: DeallocateAndDestroyUnicodeString_def)

lemma copy_Null_off_stack:
  assumes "\<And>k n. ExAllocatePool2 R k n \<noteq> stack"
  shows "stack \<notin> set (snd (DeallocateAndDestroyUnicodeString (AllocateAndCopyUnicodeString R s Null)))"
  using copy_off_stack [OF assms, of s Null] by auto

text \<open>The information of a process that has only been read is made of copies.\<close>

lemma probe_off_stack:
  assumes "\<And>k n. ExAllocatePool2 R k n \<noteq> stack"
    and "probe R K proc = (found, PI)" "discard None found PI = Inr fr"
  shows "stack \<notin> set fr"
proof -
  note c = copy_Null_off_stack [OF assms(1)]
  obtain v where v: "processInfoInit R (process_peb K proc) proc zero_pi Null False = (found, v)" "PI = local v"
    using assms(2) by (auto simp: probe_def split: prod.splits)
  have "\<forall>s \<in> {ImageFileName v, ParentImageFileName v, CommandLine v, ParentCommandLine v, WindowTitle v, CWD v}.
      stack \<notin> set (snd (DeallocateAndDestroyUnicodeString s))" "pi_UI v = Null"
    using v(1) c by (auto simp: processInfoInit_def zero_pi_def Let_def split: if_splits peb_view.splits)
  then show ?thesis
    using assms(3) v(2) by (auto simp: discard_def processInfoDelete_def Let_def split: if_splits prod.splits)
qed

lemma find_or_probe_miss: "find_or_probe R K G p proc = (None, found, PI, G') \<Longrightarrow> probe R K proc = (found, PI)"
  by (auto simp: find_or_probe_def split: prod.splits option.splits)

text \<open>Of the name: the memory of the answer, or a copy, or the local itself.\<close>

lemma image_name_cases:
  assumes "image_name R K ev = (obInfo, img)"
  shows "(obInfo = Null \<or> obInfo = snd (IoQueryFileDosDeviceName K (ie_FileObject ev)))
    \<and> (img = obInfo \<or> img = local empty_ustr \<or> (\<exists>s. img = AllocateAndCopyUnicodeString R s (local empty_ustr)))"
proof -
  obtain s1 n s2 ob where "FltGetFileNameInformationUnsafe K (ie_FileObject ev) = (s1, n)"
    "IoQueryFileDosDeviceName K (ie_FileObject ev) = (s2, ob)" by (metis prod.exhaust)
  note image_name_def [of R K ev, unfolded this prod.case Let_def]
  then show ?thesis
    unfolding assms
    by (cases "ie_ExtendedInfoPresent ev"; cases "NT_SUCCESS s1"; cases "NT_SUCCESS s2"; cases "ie_FullImageName ev = Null")
       (simp_all add: \<open>IoQueryFileDosDeviceName K (ie_FileObject ev) = (s2, ob)\<close>, blast+)
qed

lemma name_frees:
  assumes "off_stack R K" "image_name R K ev = (obInfo, img)"
  shows "stack \<in> set (case obInfo of Ptr a _ \<Rightarrow> [a] | Null \<Rightarrow> snd (DeallocateAndDestroyUnicodeString img))
    \<longleftrightarrow> obInfo = Null \<and> img = local empty_ustr"
proof -
  have local: "stack \<in> set (snd (DeallocateAndDestroyUnicodeString (local empty_ustr)))"
    by (simp add: DeallocateAndDestroyUnicodeString_def empty_ustr_def VALID_PAGE_def stack_def)
  have copy: "AllocateAndCopyUnicodeString R s (local empty_ustr) = local empty_ustr
    \<or> stack \<notin> set (snd (DeallocateAndDestroyUnicodeString (AllocateAndCopyUnicodeString R s (local empty_ustr))))" for s
    by (rule copy_off_stack) (use assms(1) in \<open>simp add: off_stack_def\<close>)
  have ob: "a \<noteq> stack" if "snd (IoQueryFileDosDeviceName K f) = Ptr a v" for f a v
  proof -
    have "case snd (IoQueryFileDosDeviceName K f) of Null \<Rightarrow> True | Ptr a _ \<Rightarrow> a \<noteq> stack"
      using assms(1) by (simp add: off_stack_def)
    then show ?thesis by (simp add: that)
  qed
  note cases = image_name_cases [OF assms(2)]
  have "a \<noteq> stack" if "obInfo = Ptr a v" for a v
    using cases that ob [of "ie_FileObject ev" a v] by simp
  moreover have "img = local empty_ustr \<or> stack \<notin> set (snd (DeallocateAndDestroyUnicodeString img))" if "obInfo = Null"
    using cases that copy by auto
  ultimately show ?thesis using local by (cases obInfo) auto
qed

lemma image_frees:
  assumes "off_stack R K" "ImageLoadCallbackRoutine R K G hProcess ev = Inr (G', freed)"
  shows "stack \<in> set freed \<longleftrightarrow> image_name R K ev = (Null, local empty_ustr)"
proof -
  have pool: "ExAllocatePool2 R k n \<noteq> stack" for k n using assms(1) by (simp add: off_stack_def)
  obtain obInfo img where im: "image_name R K ev = (obInfo, img)" by force
  obtain rid G1 where mm: "mm_id G = (rid, G1)" by force
  obtain status targp where lk: "PsLookupProcessByProcessId K hProcess = (status, targp)" by force
  obtain slot found PI G2 where look: "(if 5 < (if hProcess = 0 then 4 else hProcess) \<and> NT_SUCCESS status
      then find_or_probe R K G1 hProcess targp else (None, False, local zero_pi, G1)) = (slot, found, PI, G2)"
    using prod_cases4 by blast
  obtain fr where d: "discard slot found PI = Inr fr"
    "freed = (case obInfo of Ptr a _ \<Rightarrow> [a] | Null \<Rightarrow> snd (DeallocateAndDestroyUnicodeString img)) @ fr"
    using assms(2) unfolding ImageLoadCallbackRoutine_def Let_def im mm lk look prod.case by (auto simp: andthen_Inr_iff)
  have "stack \<notin> set fr"
  proof (cases "slot = None \<and> found")
    case True
    then have "probe R K targp = (found, PI)" using look by (auto split: if_splits dest: find_or_probe_miss)
    then show ?thesis using d(1) True probe_off_stack [OF pool] by blast
  next
    case False
    then show ?thesis using d(1) by (auto simp: discard_def)
  qed
  then show ?thesis using d(2) name_frees [OF assms(1) im] im by simp
qed

section \<open>Each call\<close>

text \<open>A call is sound when it leads to a sound context, keeps the configuration, moves the client as
  above, and moves the index on by at most one, if it creates a process.\<close>

definition sound_call :: "driver_call \<Rightarrow> GC \<Rightarrow> bool" where
  "sound_call c G \<longleftrightarrow> (\<exists>G'. driver_step c G = Some (Inr G') \<and> driver_ok G' \<and> only_session G G'
     \<and> client_moves (clientpid G) c (clientpid G')
     \<and> unat (NEW_PROCS_INDEX G') \<le> unat (NEW_PROCS_INDEX G) + of_bool (creates c))"

lemma sound_callI:
  assumes "driver_step c G = Some (Inr G')" "follows G G'"
    and "dc_event c \<noteq> ClientOpen" "dc_event c \<noteq> ClientClose" "\<And>p. dc_event c \<noteq> ProcessNotify p Null"
  shows "sound_call c G"
  using assms only_sessionI(3) [OF assms(2)] client_moves.other [OF assms(3-5)] unfolding sound_call_def
  by (auto simp: follows_def event_frame_fields)

lemma process_created_sound:
  assumes ok: "driver_ok G" and env: "pool_ample R" "wf_kernel K" "wf_create (Ptr a ci)"
    and p: "hPid \<noteq> 0" "next_slot G < 32000"
  obtains ci' G' freed n where "process_created R K G hPid (Ptr a ci) = Inr (ci', G', freed)"
    "follows (at_index n G) G'" "unat n \<le> Suc (unat (NEW_PROCS_INDEX G))"
proof -
  obtain rid G1 where mm: "mm_id G = (rid, G1)" by force
  have f1: "follows G G1" using follows_id [OF ok] mm by simp
  have idx: "unat (NEW_PROCS_INDEX G) \<le> Suc (unat (NEW_PROCS_INDEX G))" by simp
  consider (none) "IoGetCurrentProcess K = 0"
    | (gone) "IoGetCurrentProcess K \<noteq> 0" "\<not> NT_SUCCESS (fst (PsLookupProcessByProcessId K hPid))"
    | (there) "IoGetCurrentProcess K \<noteq> 0" "NT_SUCCESS (fst (PsLookupProcessByProcessId K hPid))" by blast
  then show thesis
  proof cases
    case none
    then show ?thesis
      using that [of ci G1 "[]" "NEW_PROCS_INDEX G"] f1 idx by (simp add: process_created_def mm)
  next
    case there
    then show ?thesis using process_created_spec [OF ok env p] that by metis
  next
    case gone
    obtain found PI where c: "created_info R K hPid (Ptr a ci) = (found, PI)" by force
    note w = created_info_wf [OF env(2,3) c]
    obtain status targp where lk: "PsLookupProcessByProcessId K hPid = (status, targp)" by force
    have ok1: "driver_ok G1" using f1 by (simp add: follows_def)
    obtain v where v: "InspectProcessCreation R G1 PI = Inr v"
      using creation_decides config_ok_rules [OF driver_okD(1) [OF ok1]] by blast
    let ?ci = "ci\<lparr>ci_CreationStatus := in_status v\<rparr>"
    have "wf_create (Ptr a ?ci)" using env(3) by (simp add: wf_create_def)
    note calls = creation_calls_ok(1) [OF this w(1), of hPid found v]
    let ?b = "\<not> in_skip v \<or> KEEP_EXCLUDES G1"
    obtain G2 where g2: "(if ?b then log_all R (MM_Genrand K) 0 rid (KeQuerySystemTimePrecise K)
        (creation_calls hPid (Ptr a ?ci) found PI v) G1 else Inr G1) = Inr G2" "follows G1 G2"
      using report_spec [OF ok1 env(1), of ?b] calls by metis
    have "process_created R K G hPid (Ptr a ci) = Inr (?ci, G2, [])"
      using gone g2(1) by (auto simp: process_created_def mm c cache_created_def lk v Let_def split: if_splits)
    then show ?thesis
      using that [of ?ci G2 "[]" "NEW_PROCS_INDEX G"] follows_trans [OF f1 g2(2)] idx by simp
  qed
qed

lemma process_terminated_sound:
  assumes ok: "driver_ok G" and pool: "pool_ample R"
  obtains G' freed where "process_terminated R K G hPid = Inr (G', freed)" "follows (client_gone hPid G) G'"
proof (cases "VALID_PAGE (Ptr (IoGetCurrentProcess K) ())")
  case True
  show thesis by (rule process_terminated_spec [OF ok pool True refl]) (rule that)
next
  case False
  obtain rid G1 where mm: "mm_id (client_gone hPid G) = (rid, G1)" by force
  have f1: "follows (client_gone hPid G) G1" using follows_id [of "client_gone hPid G"] ok mm by simp
  then have "driver_ok G1" by (simp add: follows_def)
  then obtain G' freed where "PurgeCachedProcess G1 hPid = Inr (G', freed)" "follows G1 G'"
    by (rule follows_purge)
  then show thesis
    using that follows_trans [OF f1] mm False
    by (simp add: process_terminated_def report_termination_def client_gone_def [symmetric] release_def Let_def)
qed

lemma read_loop_frame: "log_frame G (snd (snd (snd (read_loop len out copied G))))"
proof (induction len out copied G rule: read_loop.induct)
  case (1 len out copied G)
  show ?case
  proof (cases "gc_L G")
    case Nil
    then show ?thesis by (subst read_loop.simps) simp
  next
    case (Cons e es)
    have del: "log_frame G (DeleteLogEntry (G\<lparr>gc_L := es\<rparr>) e)"
      by (auto simp: DeleteLogEntry_def Let_def intro: log_frame_update [OF log_frame_refl])
    have drop: "log_frame G (G\<lparr>gc_L := es\<rparr>)"
      by (rule log_frameI [where L = es and b = "L_SIZE_BYTES G"]) simp
    show ?thesis
      using 1 [OF Cons] del drop log_frame_trans [OF del]
      by (subst read_loop.simps) (simp add: Cons Let_def)
  qed
qed

lemma read_sound:
  assumes "driver_ok G"
  shows "follows G (deref (snd (ReadLogEntry (Ptr 1 G) len mapped)))"
proof (cases "gc_State G = INITIALIZED \<and> gc_L G \<noteq> [] \<and> mapped")
  case False
  then have "snd (ReadLogEntry (Ptr 1 G) len mapped) = Ptr 1 G" by (auto simp: ReadLogEntry_def)
  then show ?thesis using assms by (simp add: follows_refl)
next
  case True
  then have ok: "log_ok G" using driver_okD(4,5) [OF assms] by (simp add: log_ok_def)
  define G' where "G' = snd (snd (snd (read_loop len [] False G)))"
  have read: "deref (snd (ReadLogEntry (Ptr 1 G) len mapped)) = G'"
    using True driver_okD(5) [OF assms] by (simp add: ReadLogEntry_def G'_def Let_def split: prod.split)
  obtain G2 where "ReadLogEntry (Ptr 1 G) len True = (fst (ReadLogEntry (Ptr 1 G) len True), Ptr 1 G2)" "log_ok G2"
    using ReadLogEntry_spec [OF ok, of 1 len] True by auto
  then have "log_inv G'" using read True by (simp add: log_ok_def) (metis ptr.sel(2) snd_conv)
  moreover have frame: "log_frame G G'" unfolding G'_def by (rule read_loop_frame)
  ultimately show ?thesis
    unfolding read by (intro driver_ok_slots [OF assms event_frame_steps(1)] log_frame_fields(1))
qed

text \<open>Opening and closing set the client and mark its slot.\<close>

lemma client_found:
  assumes "driver_ok G" "find_process (G\<lparr>clientpid := c\<rparr>) p Null = (slot, found, q, G')"
  shows "follows (G\<lparr>clientpid := c\<rparr>) G'"
  using find_process_spec [of "G\<lparr>clientpid := c\<rparr>"] assms by simp

lemma client_found_fields:
  "follows (G\<lparr>clientpid := c\<rparr>) G' \<Longrightarrow> NEW_PROCS_INDEX G' = NEW_PROCS_INDEX G \<and> clientpid G' = c"
  by (auto simp: follows_def event_frame_def)

lemma client_opens:
  assumes "driver_ok G" "dc_event c = ClientOpen"
  shows "sound_call c G"
proof (cases "0 <s clientpid G")
  case True
  then have "driver_step c G = Some (Inr G)"
    using assms(2) by (simp add: driver_step_def MoonMonDispatchCreate_def Let_def)
  then show ?thesis
    using assms client_moves.denied [OF assms(2) True] only_sessionI(3) [OF follows_refl [OF assms(1)]]
    by (auto simp: sound_call_def)
next
  case False
  obtain s f q G1 where one: "find_process (G\<lparr>clientpid := PsGetCurrentProcessId (dc_kernel c)\<rparr>)
      (PsGetCurrentProcessId (dc_kernel c)) Null = (s, f, q, G1)" using prod_cases4 by blast
  note f = client_found [OF assms(1) one]
  have "driver_step c G = Some (Inr G1)"
    using assms(2) False one by (simp add: driver_step_def MoonMonDispatchCreate_def Let_def)
  then show ?thesis
    using f client_moves.opened [OF assms(2) False] only_sessionI(1) [OF f] client_found_fields [OF f]
    by (auto simp: sound_call_def follows_def)
qed

lemma client_closes:
  assumes "driver_ok G" "dc_event c = ClientClose"
  shows "sound_call c G"
proof -
  obtain s f q G1 where one: "find_process (G\<lparr>clientpid := - 1\<rparr>)
      (PsGetCurrentProcessId (dc_kernel c)) Null = (s, f, q, G1)" using prod_cases4 by blast
  note f = client_found [OF assms(1) one]
  have "driver_step c G = Some (Inr G1)"
    using assms(2) one by (simp add: driver_step_def MoonMonDispatchClose_def Let_def)
  then show ?thesis
    using f client_moves.closed [OF assms(2)] only_sessionI(1) [OF f] client_found_fields [OF f]
    by (auto simp: sound_call_def follows_def)
qed

lemma process_notify_sound:
  assumes "driver_ok G" "event_ok c" "creates c \<Longrightarrow> next_slot G < 32000" "dc_event c = ProcessNotify hPid pInfo"
  shows "sound_call c G"
proof (cases pInfo)
  case Null
  have pool: "pool_ample (dc_rtl c)" using assms(2) by (simp add: event_ok_def)
  obtain G' freed where t: "process_terminated (dc_rtl c) (dc_kernel c) G hPid = Inr (G', freed)"
    "follows (client_gone hPid G) G'"
    by (rule process_terminated_sound [OF assms(1) pool])
  then have "driver_step c G = Some (Inr G')"
    by (simp add: driver_step_def Let_def assms(4) ProcessNotifyCallbackRoutine_def Null)
  moreover have same: "NEW_PROCS_INDEX G' = NEW_PROCS_INDEX G" "clientpid G' = (if hPid = clientpid G then - 1 else clientpid G)"
    using t(2) by (auto simp: follows_def event_frame_def client_gone_def split: if_splits)
  moreover have "client_moves (clientpid G) c (clientpid G')"
    using assms(4) Null same(2) by (auto intro: client_moves.intros)
  ultimately show ?thesis using t(2) only_sessionI(4) [OF t(2)] by (simp add: sound_call_def follows_def)
next
  case (Ptr a ci)
  then have cr: "creates c" using assms(4) by (simp add: creates_def)
  have env: "pool_ample (dc_rtl c)" "wf_kernel (dc_kernel c)" "wf_create (Ptr a ci)" "hPid \<noteq> 0"
    using assms(2,4) Ptr by (simp_all add: event_ok_def)
  obtain ci' G' freed n where t: "process_created (dc_rtl c) (dc_kernel c) G hPid (Ptr a ci) = Inr (ci', G', freed)"
    "follows (at_index n G) G'" "unat n \<le> Suc (unat (NEW_PROCS_INDEX G))"
    by (rule process_created_sound [OF assms(1) env assms(3) [OF cr]])
  then have "driver_step c G = Some (Inr G')"
    by (simp add: driver_step_def Let_def assms(4) ProcessNotifyCallbackRoutine_def Ptr)
  moreover have "NEW_PROCS_INDEX G' = n" "clientpid G' = clientpid G"
    using t(2) by (auto simp: follows_def event_frame_def at_index_def)
  moreover have "client_moves (clientpid G) c (clientpid G)"
    by (rule client_moves.other) (simp_all add: assms(4) Ptr)
  ultimately show ?thesis using t(2,3) only_sessionI(2) [OF t(2)] cr by (simp add: sound_call_def follows_def)
qed

lemma handle_sound:
  assumes "driver_ok G" "event_ok c" "\<not> naps c G" "dc_event c = HandleOperation ob"
  shows "sound_call c G"
proof -
  have env: "pool_ample (dc_rtl c)" "wf_kernel (dc_kernel c)" using assms(2) by (simp_all add: event_ok_def)
  have "protect_client (dc_kernel c) G ob (PsGetProcessId (dc_kernel c) (obi_Object ob)) \<noteq> None"
    if "obi_IsProcess ob" "obi_Object ob \<noteq> 0"
    using assms(3,4) that by (auto simp: naps_def protect_client_def Let_def)
  then show ?thesis
    by (cases rule: object_access_sound [OF assms(1) env, of ob])
       (simp, intro sound_callI, simp_all add: driver_step_def Let_def assms(4))
qed

lemma callback_sound:
  assumes "driver_ok G" "event_ok c" "\<not> naps c G" "creates c \<Longrightarrow> next_slot G < 32000" "hazard c = None"
  shows "sound_call c G"
proof -
  note ok = assms(1)
  have env: "pool_ample (dc_rtl c)" "wf_kernel (dc_kernel c)" using assms(2) by (simp_all add: event_ok_def)
  show ?thesis
  proof (cases "dc_event c")
    case (ProcessNotify hPid pInfo)
    show ?thesis by (rule process_notify_sound [OF ok assms(2,4) ProcessNotify])
  next
    case (ThreadNotify hProcess hThread bCreate)
    obtain G' freed where "ThreadNotifyCallbackRoutine (dc_rtl c) (dc_kernel c) G hProcess hThread bCreate = Inr (G', freed)"
      "follows G G'" by (rule thread_notify_sound [OF ok env])
    then show ?thesis by (intro sound_callI) (simp_all add: driver_step_def Let_def ThreadNotify)
  next
    case (ImageLoad hProcess ev)
    then have off: "off_stack (dc_rtl c) (dc_kernel c)" and named: "image_name (dc_rtl c) (dc_kernel c) ev \<noteq> (Null, local empty_ustr)"
      using assms(2,5) by (auto simp: event_ok_def hazard_def split: if_splits)
    have "wf_file_names (dc_kernel c)" "wf_str (ie_FullImageName ev)" using assms(2) ImageLoad by (simp_all add: event_ok_def)
    moreover obtain obInfo img where "image_name (dc_rtl c) (dc_kernel c) ev = (obInfo, img)" by force
    ultimately obtain G' freed where "ImageLoadCallbackRoutine (dc_rtl c) (dc_kernel c) G hProcess ev = Inr (G', freed)"
      "follows G G'" by (rule image_load_sound [OF ok env _ _ refl _ refl])
    moreover have "stack \<notin> set freed" using image_frees [OF off calculation(1)] named by simp
    ultimately show ?thesis by (intro sound_callI) (simp_all add: driver_step_def Let_def ImageLoad)
  next
    case (HandleOperation ob)
    show ?thesis by (rule handle_sound [OF ok assms(2,3) HandleOperation])
  next
    case (RegistryOperation cls arg)
    then have wf: "wf_key_names (dc_kernel c)" "wf_reg_args arg" using assms(2) by (simp_all add: event_ok_def)
    have "\<exists>s G' fr. RegistryCallbackRoutine (dc_rtl c) (dc_kernel c) G cls arg = Inr (s, G', fr) \<and> follows G G'"
    proof (cases "cls \<in> set reg_classes")
      case False
      then show ?thesis using follows_refl [OF ok] by (simp add: RegistryCallbackRoutine_def)
    next
      case True
      show ?thesis
      proof (cases "reg_gather (dc_rtl c) (dc_kernel c) G cls arg zero_ri")
        case (Inl freed)
        show ?thesis by (rule registry_no_memory [OF ok env(1) True Inl]) blast
      next
        case (Inr g)
        show ?thesis by (rule registry_sound [OF ok env(1) wf True refl Inr refl]) blast
      qed
    qed
    then show ?thesis by (elim exE conjE, intro sound_callI) (simp_all add: driver_step_def Let_def RegistryOperation)
  next
    case (FileCreate Data)
    then have wf: "wf_request Data" using assms(2) by (simp add: event_ok_def)
    have "\<exists>s D G'. FsPreCreateCallback (dc_rtl c) (dc_kernel c) G Data = Inr (s, D, G') \<and> follows G G'"
      using file_create_sound [OF ok env(1) wf refl refl refl] by metis
    then show ?thesis by (elim exE conjE, intro sound_callI) (simp_all add: driver_step_def Let_def FileCreate)
  next
    case (FileSetInformation Data)
    then have wf: "wf_request Data" using assms(2) by (simp add: event_ok_def)
    have "\<exists>s D G'. FsPreSetInformationCallback (dc_rtl c) (dc_kernel c) G Data = Inr (s, D, G') \<and> follows G G'"
    proof (cases "set_gather Data")
      case None
      then show ?thesis using file_set_other follows_refl [OF ok] by blast
    next
      case (Some FI)
      show ?thesis by (rule file_set_sound [OF ok env(1) wf Some refl]) blast
    qed
    then show ?thesis by (elim exE conjE, intro sound_callI) (simp_all add: driver_step_def Let_def FileSetInformation)
  next
    case (NetClassify ev)
    then have wf: "wf_net_event ev" "fields_there (dc_headers c) ev"
      using assms(2,5) by (auto simp: event_ok_def hazard_def split: if_splits)
    obtain pid p where "net_process (dc_kernel c) ev = (pid, p)" by force
    then have "\<exists>G'. NetClassifyCallback (dc_rtl c) (dc_kernel c) (dc_headers c) G ev = Inr G' \<and> follows G G'"
      using network_sound [OF ok env(1) wf] by metis
    then show ?thesis by (elim exE conjE, intro sound_callI) (simp_all add: driver_step_def Let_def NetClassify)
  next
    case (ClientRead len mapped)
    show ?thesis by (rule sound_callI [OF _ read_sound [OF ok]]) (simp_all add: driver_step_def Let_def ClientRead)
  qed (use client_opens [OF ok] client_closes [OF ok] in simp_all)
qed

section \<open>Runs\<close>

definition creations :: "driver_call list \<Rightarrow> nat" where
  "creations cs = length (filter creates cs)"

definition kernel_handle :: "driver_call \<Rightarrow> bool" where
  "kernel_handle c = (case dc_event c of HandleOperation ob \<Rightarrow> KernelHandle ob | _ \<Rightarrow> False)"

lemma not_naps: "\<not> RESIST_TAMPERING G \<or> \<not> kernel_handle c \<Longrightarrow> \<not> naps c G"
  by (auto simp: naps_def kernel_handle_def split: driver_event.splits)

lemma next_slot_bound: "unat (NEW_PROCS_INDEX G) + 1 < 32000 \<Longrightarrow> next_slot G < 32000"
  by (simp add: next_slot_def)

text \<open>A hazard is one in every sound context.\<close>

lemma callback_hazard:
  assumes "driver_ok G" "event_ok c" "hazard c = Some e"
  shows "driver_step c G = Some (Inl e)"
proof (cases "dc_event c")
  case (ImageLoad hProcess ev)
  have wf: "pool_ample (dc_rtl c)" "wf_kernel (dc_kernel c)" "wf_file_names (dc_kernel c)" "wf_str (ie_FullImageName ev)"
    "off_stack (dc_rtl c) (dc_kernel c)" using assms(2) ImageLoad by (simp_all add: event_ok_def)
  have h: "image_name (dc_rtl c) (dc_kernel c) ev = (Null, local empty_ustr)" "e = BadFree"
    using assms(3) ImageLoad by (auto simp: hazard_def split: if_splits)
  obtain G' freed where "ImageLoadCallbackRoutine (dc_rtl c) (dc_kernel c) G hProcess ev = Inr (G', freed)"
    by (rule image_load_sound [OF assms(1) wf(1-4) refl h(1) refl])
  moreover from this have "stack \<in> set freed" using image_frees [OF wf(5)] h(1) by blast
  ultimately show ?thesis by (simp add: driver_step_def Let_def ImageLoad h(2))
next
  case (NetClassify ev)
  then have "wf_net_event ev" "\<not> fields_there (dc_headers c) ev" "e = OutOfBounds"
    using assms(2,3) by (auto simp: event_ok_def hazard_def split: if_splits)
  then show ?thesis by (simp add: driver_step_def Let_def NetClassify network_outside(2))
qed (use assms(3) in \<open>simp_all add: hazard_def\<close>)

definition run_sound :: "driver_call list \<Rightarrow> GC \<Rightarrow> bool" where
  "run_sound cs G \<longleftrightarrow> (\<exists>G'. run_driver cs G = Some (Inr G') \<and> driver_ok G' \<and> only_session G G'
     \<and> client_path (clientpid G) cs (clientpid G')
     \<and> unat (NEW_PROCS_INDEX G') \<le> unat (NEW_PROCS_INDEX G) + creations cs)"

lemma run_driver_outcome:
  assumes "driver_ok G" "list_all event_ok cs" "unat (NEW_PROCS_INDEX G) + creations cs < 32000"
    and "RESIST_TAMPERING G \<Longrightarrow> list_all (\<lambda>c. \<not> kernel_handle c) cs"
  shows "case first_hazard cs of None \<Rightarrow> run_sound cs G | Some e \<Rightarrow> run_driver cs G = Some (Inl e)"
  using assms
proof (induction cs arbitrary: G)
  case Nil
  then show ?case using only_sessionI(3) [OF follows_refl] by (simp add: run_sound_def creations_def client_path.stays)
next
  case (Cons c cs)
  show ?case
  proof (cases "hazard c")
    case (Some e)
    then show ?thesis using callback_hazard [of G c e] Cons.prems by simp
  next
    case None
    have n: "creations (c # cs) = of_bool (creates c) + creations cs" by (simp add: creations_def)
    have "sound_call c G"
    proof (rule callback_sound [OF Cons.prems(1) _ _ _ None])
      show "\<not> naps c G" using Cons.prems(4) by (intro not_naps) auto
      show "next_slot G < 32000" if "creates c"
        using Cons.prems(3) that by (intro next_slot_bound) (simp add: n)
    qed (use Cons.prems in simp)
    then obtain G1 where G1: "driver_step c G = Some (Inr G1)" "driver_ok G1" "only_session G G1"
      "client_moves (clientpid G) c (clientpid G1)" "unat (NEW_PROCS_INDEX G1) \<le> unat (NEW_PROCS_INDEX G) + of_bool (creates c)"
      by (auto simp: sound_call_def)
    have "unat (NEW_PROCS_INDEX G1) + creations cs < 32000" using G1(5) Cons.prems(3) n by linarith
    moreover have "RESIST_TAMPERING G1 = RESIST_TAMPERING G" by (rule only_session_fields(7) [OF G1(3)])
    ultimately have ih: "case first_hazard cs of None \<Rightarrow> run_sound cs G1 | Some e \<Rightarrow> run_driver cs G1 = Some (Inl e)"
      using Cons.IH [OF G1(2)] Cons.prems by auto
    have "run_sound (c # cs) G" if "run_sound cs G1"
      using that G1 n only_session_trans [OF G1(3)] client_path.moves [OF G1(4)] unfolding run_sound_def
      by (elim exE conjE, intro exI) auto
    then show ?thesis using ih G1(1) None by (simp split: option.splits)
  qed
qed

lemma run_driver_sound:
  assumes "driver_ok G" "list_all event_ok cs" "unat (NEW_PROCS_INDEX G) + creations cs < 32000"
    and "RESIST_TAMPERING G \<Longrightarrow> list_all (\<lambda>c. \<not> kernel_handle c) cs" "first_hazard cs = None"
  obtains G' where "run_driver cs G = Some (Inr G')" "driver_ok G'" "only_session G G'"
    "client_path (clientpid G) cs (clientpid G')"
  using run_driver_outcome [OF assms(1-3)] assms(4,5) unfolding run_sound_def by auto

end
