(* ===== verification/MM_Init_Soundness.thy ===== *)
theory MM_Init_Soundness
  imports MM_Driver_Events MM_Cache_Properties
begin

text \<open>
  Where the running driver comes from: when \<open>InitMoonMon\<close> succeeds, the context it leaves is sound,
  whatever the registry holds. The configuration has been loaded item by item into empty lists, and the
  processes that were found running are in the table.
\<close>

section \<open>Loading\<close>

text \<open>An item that is inserted without a fault leaves its list sound.\<close>

lemma sound_list_append:
  assumes "sound_list slots n" "n < 65535" "built_group q"
  shows "sound_list (slots[n := q]) (Suc n)"
proof -
  have len: "length slots = 65535" using assms(1) by (simp add: sound_list_def)
  have "drop (Suc n) slots = drop 1 (drop n slots)" by simp
  then have "set (drop (Suc n) slots) \<subseteq> set (drop n slots)" using set_drop_subset by metis
  then have "list_all (\<lambda>q. q = Null) (drop (Suc n) slots)"
    using assms(1) by (auto simp: sound_list_def list_all_iff)
  then show ?thesis
    using assms len by (simp add: sound_list_def take_Suc_conv_app_nth)
qed

lemma sound_list_update:
  assumes "sound_list slots n" "i < n" "built_group q"
  shows "sound_list (slots[i := q]) n"
  using assms by (auto simp: sound_list_def take_update_swap list_all_length nth_list_update)

lemma sound_list_null: "sound_list slots n \<Longrightarrow> n < 65535 \<Longrightarrow> sound_list (slots[n := Null]) n"
  by (auto simp: sound_list_def list_all_length nth_list_update)

lemma config_ok_set:
  assumes "config_ok G" "VALID_PAGE (Ptr a ())" "sound_list slots (unat c)"
  shows "config_ok (set_count l c (set_list l (Ptr a slots) G))" 
  using assms by (auto simp: config_ok_def set_count_def set_list_def VALID_PAGE_def)

lemma loadConfigItem_sound:
  assumes "config_ok G" "wf_item x" "loadConfigItem R G t cfg x = Inr (s, G')"
  shows "config_ok G' \<and> (\<exists>L C. G' = G\<lparr>gc_list := L, gc_COUNT := C\<rparr>)"
proof (cases "list_of_type t")
  case None
  then have "G' = G" using assms(3) by (simp add: loadConfigItem_def resolveList_list)
  then show ?thesis using assms(1) by (auto intro!: exI [of _ "gc_list G"] exI [of _ "gc_COUNT G"])
next
  case (Some l)
  let ?n = "unat (gc_COUNT G l)"
  have snd: "VALID_PAGE (gc_list G l)" "sound_list (deref (gc_list G l)) ?n"
    using assms(1) by (simp_all add: config_ok_def)
  then obtain la slots where L: "gc_list G l = Ptr la slots" by (cases "gc_list G l") auto
  have vp: "VALID_PAGE (Ptr la ())" and sl: "sound_list slots ?n"
    using snd L by (simp_all add: VALID_PAGE_def)
  have len: "length slots = 65535" using sl by (simp add: sound_list_def)
  obtain found where f: "find_group slots (cfg_id cfg) 0 ?n = Inr found"
    using assms(3) by (auto simp: loadConfigItem_def resolveList_list Some L Let_def andthen_Inr_iff)
  have typed: "list_all (\<lambda>q. MM_TYPE_CHECK cg_tag q CALIBAN) (take ?n slots)"
    using sl by (intro built_typed) (simp add: sound_list_def)
  have set: "config_ok (set_list l (Ptr la s') G)" if "sound_list s' ?n" for s'
  proof -
    have "set_count l (gc_COUNT G l) (set_list l (Ptr la s') G) = set_list l (Ptr la s') G"
      by (simp add: set_count_def set_list_def)
    then show ?thesis using config_ok_set [OF assms(1) vp that, of l] by simp
  qed
  have frame: "\<exists>L C. set_count l c (set_list l s' G) = G\<lparr>gc_list := L, gc_COUNT := C\<rparr>"
    "\<exists>L C. set_list l s' G = G\<lparr>gc_list := L, gc_COUNT := C\<rparr>" for c s'
  proof -
    show "\<exists>L C. set_count l c (set_list l s' G) = G\<lparr>gc_list := L, gc_COUNT := C\<rparr>"
      by (auto simp: set_count_def set_list_def)
    show "\<exists>L C. set_list l s' G = G\<lparr>gc_list := L, gc_COUNT := C\<rparr>"
      by (intro exI [of _ "(gc_list G)(l := s')"] exI [of _ "gc_COUNT G"]) (simp add: set_list_def)
  qed
  show ?thesis
  proof (cases found)
    case (Some i)
    have i: "i < ?n"
      using find_group_spec [of 0 ?n slots "cfg_id cfg"] f Some typed sl by (auto simp: sound_list_def)
    let ?g = "deref (slots ! i)"
    have "slots ! i \<in> set (take ?n slots)" using i len sl by (auto simp: in_set_conv_nth sound_list_def intro!: exI [of _ i])
    then have g: "built_group (slots ! i)" using sl by (simp add: sound_list_def list_all_iff)
    have cnt: "unat (cg_count ?g) < 256"
      using assms(3) g Some \<open>list_of_type t = Some l\<close> f L
      by (auto simp: loadConfigItem_def resolveList_list Let_def built_group_def split: if_splits)
    have "G' = set_list l (Ptr la (slots[i := Ptr (addr (slots ! i)) (?g\<lparr>entries := (entries ?g)[unat (cg_count ?g) := x],
        cg_actions := cg_actions ?g AND cfg_actions cfg, cg_count := cg_count ?g + 1\<rparr>)])) G"
      using assms(3) Some \<open>list_of_type t = Some l\<close> f L
      by (auto simp: loadConfigItem_def resolveList_list Let_def split: if_splits)
    then show ?thesis
      using set [OF sound_list_update [OF sl i built_group_append [OF g cnt assms(2)]]] frame(2) by metis
  next
    case None
    have n: "?n < 65535"
      using assms(3) None \<open>list_of_type t = Some l\<close> f L len
      by (auto simp: loadConfigItem_def resolveList_list Let_def split: if_splits)
    then have c: "gc_COUNT G l < 65535" by (simp add: word_less_nat_alt)
    have c1: "unat (gc_COUNT G l + 1) = Suc ?n" using n by (simp add: unat_word_ariths)
    have "G' = set_list l (Ptr la (slots[?n := Null])) G \<or>
      (\<exists>a. G' = set_count l (gc_COUNT G l + 1) (set_list l (Ptr la (slots[?n := Ptr a (new_group cfg x)])) G))"
      using assms(3) None \<open>list_of_type t = Some l\<close> f L c
      by (auto simp: loadConfigItem_def resolveList_list Let_def split: if_splits)
    then show ?thesis
    proof
      assume "G' = set_list l (Ptr la (slots[?n := Null])) G"
      then show ?thesis using set [OF sound_list_null [OF sl n]] frame(2) by metis
    next
      assume "\<exists>a. G' = set_count l (gc_COUNT G l + 1) (set_list l (Ptr la (slots[?n := Ptr a (new_group cfg x)])) G)"
      then obtain a where G': "G' = set_count l (gc_COUNT G l + 1) (set_list l (Ptr la (slots[?n := Ptr a (new_group cfg x)])) G)" ..
      have "sound_list (slots[?n := Ptr a (new_group cfg x)]) (unat (gc_COUNT G l + 1))"
        unfolding c1 by (rule sound_list_append [OF sl n built_group_new(1) [OF assms(2)]])
      then show ?thesis using config_ok_set [OF assms(1) vp, of _ "gc_COUNT G l + 1" l] frame(1) G' by metis
    qed
  qed
qed

text \<open>Loading changes the configuration and nothing else.\<close>

definition loads :: "GC \<Rightarrow> GC \<Rightarrow> bool" where
  "loads G G' \<longleftrightarrow> config_ok G' \<and> NEW_PROCS G' = NEW_PROCS G \<and> NEW_PROCS_INDEX G' = NEW_PROCS_INDEX G
     \<and> gc_L G' = gc_L G \<and> L_SIZE_BYTES G' = L_SIZE_BYTES G \<and> clientpid G' = clientpid G
     \<and> gc_tag G' = gc_tag G \<and> gc_State G' = gc_State G \<and> gc_id G' = gc_id G"

lemma loads_refl: "config_ok G \<Longrightarrow> loads G G"
  by (simp add: loads_def)

lemma loads_trans [trans]: "loads G G' \<Longrightarrow> loads G' G'' \<Longrightarrow> loads G G''"
  by (simp add: loads_def)

lemma loads_ok: "loads G G' \<Longrightarrow> config_ok G'"
  by (simp add: loads_def)

lemma driver_ok_loads: "driver_ok G \<Longrightarrow> loads G G' \<Longrightarrow> driver_ok G'"
  using cache_same(1) [of G' G] by (auto simp: driver_ok_def loads_def procs_ok_def log_inv_def)

lemma apply_setting_loads: "config_ok G \<Longrightarrow> loads G (apply_setting i G)"
  unfolding apply_setting_def by (rule switch_cases) (simp_all add: loads_def config_ok_def)

lemma settings_loop_loads: "config_ok G \<Longrightarrow> settings_loop R Z name i ss G = Inr G' \<Longrightarrow> loads G G'"
proof (induction ss arbitrary: i G)
  case Nil
  then show ?case by (simp add: loads_refl)
next
  case (Cons s ss)
  obtain st n where q: "ZwQueryValueKey_size Z name = (st, n)" by force
  obtain st' info where v: "ZwQueryValueKey Z name n = (st', info)" by force
  note set = apply_setting_loads [OF Cons.prems(1), of i]
  have "settings_loop R Z name i (s # ss) G = Inr G'" by (rule Cons.prems(2))
  then have "G' = G \<or> settings_loop R Z name (Suc i) ss G = Inr G'
      \<or> settings_loop R Z name (Suc i) ss (apply_setting i G) = Inr G'"
    by (auto simp: q v andthen_Inr_iff split: if_splits)
  then show ?case
    using Cons.IH [OF Cons.prems(1)] Cons.IH [OF loads_ok [OF set]] loads_trans [OF set] loads_refl [OF Cons.prems(1)]
    by blast
qed

text \<open>The context a step of the load leaves.\<close>

fun after :: "load_step \<Rightarrow> GC" where
  "after (Next d st G) = G"
| "after (Leave st G) = G"
| "after (Return st G) = G"

lemma fail_statuses: "\<not> NT_SUCCESS STATUS_NO_MEMORY" "\<not> NT_SUCCESS STATUS_BAD_DATA" "\<not> NT_SUCCESS STATUS_INVALID_PARAMETER"
  by code_simp+

lemma makeNewItem_status:
  "makeNewItem R k cfi_zero ft n Data = Inr (st, x, freed) \<Longrightarrow> NT_SUCCESS st \<Longrightarrow> st = STATUS_SUCCESS"
  using fail_statuses
  by (auto simp: makeNewItem_def Let_def andthen_Inr_iff split: if_splits MM_TYPE.splits)

lemma load_binary_loads:
  assumes "config_ok G" "load_binary R k t n info st G = Inr step"
  shows "loads G (after step)"
proof -
  have item: "loads G G'" if "makeNewItem R k' cfi_zero ft m Data = Inr (st', x, freed)" "NT_SUCCESS st'"
    "loadConfigItem R G t cfg (Ptr a (x\<lparr>match_type := mt, field_type := ft', cfi_tag := tg\<rparr>)) = Inr (s, G')"
    for k' ft m Data st' x freed cfg a mt ft' tg s G'
  proof -
    have "makeNewItem R k' cfi_zero ft m Data = Inr (STATUS_SUCCESS, x, freed)"
      using that(1) makeNewItem_status [OF that(1,2)] by simp
    from loadConfigItem_sound [OF assms(1) makeNewItem_wf [OF this] that(3)]
    show ?thesis by (auto simp: loads_def)
  qed
  show ?thesis
    using assms(2) item loads_refl [OF assms(1)]
    by (auto simp: load_binary_def andthen_Inr_iff Let_def split: if_splits prod.splits)
qed

lemma load_value_loads:
  assumes "config_ok G" "load_value R Z k name rl st G = Inr step"
  shows "loads G (after step)"
  using assms(2) load_binary_loads [OF assms(1)] settings_loop_loads [OF assms(1)] loads_refl [OF assms(1)]
  by (auto simp: load_value_def loadGlobalSetting_def andthen_Inr_iff Let_def split: if_splits prod.splits)

lemma load_loop_loads:
  "config_ok G \<Longrightarrow> load_loop R Z fuel idx sz G = Some (Inr (st, G')) \<Longrightarrow> loads G G'"
proof (induction R Z fuel idx sz G rule: load_loop.induct)
  case (2 R Z fuel idx sz G)
  obtain st rl name where e: "ZwEnumerateValueKey Z idx sz = (st, rl, name)" by (metis prod_cases3)
  let ?k = "16 * ucast idx + 1000"
  note refl = loads_refl [OF 2(3)]
  show ?case
  proof (cases "load_value R Z (?k + 2) name rl st G")
    case (Inl f)
    then show ?thesis using 2 e refl by (auto simp: Let_def split: if_splits)
  next
    case (Inr step)
    note l = load_value_loads [OF 2(3) Inr]
    show ?thesis
      using 2 e Inr refl l loads_trans [OF l]
      by (cases step) (auto simp: Let_def split: if_splits dest: loads_ok)
  qed
qed simp

lemma LoadConfig_loads: "config_ok G \<Longrightarrow> LoadConfig R Z fuel G = Some (Inr (st, G')) \<Longrightarrow> loads G G'"
  by (auto simp: LoadConfig_def loads_refl split: if_splits dest: load_loop_loads)

section \<open>The context before the load\<close>

definition pool_valid :: "rtl \<Rightarrow> bool" where
  "pool_valid R \<longleftrightarrow> (\<forall>k n. VALID_PAGE (Ptr (ExAllocatePool2 R k n) ()))"

lemma pool_valid_ample: "pool_valid R \<Longrightarrow> pool_ample R"
proof -
  have "\<not> VALID_PAGE (Ptr 0 ())" by (simp add: VALID_PAGE_def)
  then show "pool_valid R \<Longrightarrow> pool_ample R" unfolding pool_valid_def pool_ample_def by metis
qed

lemma init_lists_lists:
  assumes "pool_valid R" "init_lists R ls k G = (s, G')"
  shows "s = STATUS_SUCCESS \<and> (\<exists>L. G' = G\<lparr>gc_list := L\<rparr>
    \<and> (\<forall>l. if l \<in> set ls then VALID_PAGE (L l) \<and> deref (L l) = replicate 65535 Null else L l = gc_list G l))"
  using assms(2)
proof (induction ls arbitrary: k G)
  case Nil
  then show ?case by (auto intro!: exI [of _ "gc_list G"])
next
  case (Cons l ls)
  let ?a = "ExAllocatePool2 R (of_nat k) (8 * 65535)"
  have vp: "VALID_PAGE (Ptr ?a v)" for v :: "CONFIG_GROUP ptr list"
    using assms(1) by (auto simp: pool_valid_def VALID_PAGE_def)
  have "?a \<noteq> 0" using pool_valid_ample [OF assms(1)] by (simp add: pool_ample_def)
  then have "init_lists R ls (Suc k) (G\<lparr>gc_list := (gc_list G)(l := Ptr ?a (replicate 65535 Null))\<rparr>) = (s, G')"
    using Cons.prems by (simp add: Let_def)
  from Cons.IH [OF this] obtain L where L: "s = STATUS_SUCCESS" "G' = G\<lparr>gc_list := L\<rparr>"
    "\<And>m. if m \<in> set ls then VALID_PAGE (L m) \<and> deref (L m) = replicate 65535 Null
      else L m = ((gc_list G)(l := Ptr ?a (replicate 65535 Null))) m"
    by auto
  have "if m \<in> set (l # ls) then VALID_PAGE (L m) \<and> deref (L m) = replicate 65535 Null else L m = gc_list G m" for m
    using L(3) [of m] vp by (auto split: if_splits)
  then show ?case using L(1,2) by blast
qed

lemma init_ready:
  assumes "pool_valid R" "initConfigLists R zeroed_gc = (s, G)"
  shows "s = STATUS_SUCCESS \<and> driver_ok (init_globals K G) \<and> NEW_PROCS_INDEX (init_globals K G) = 0"
proof -
  obtain L where L: "s = STATUS_SUCCESS" "G = zeroed_gc\<lparr>gc_list := L\<rparr>"
    "\<And>l. VALID_PAGE (L l) \<and> deref (L l) = replicate 65535 Null"
    using init_lists_lists [OF assms(1), of all_rule_lists 0 zeroed_gc s G] assms(2) all_rule_lists_UNIV
    unfolding initConfigLists_def by auto
  have "sound_list (replicate 65535 Null) 0" by (simp add: sound_list_def list_all_iff)
  then have "config_ok (init_globals K G)"
    using L(2,3) by (auto simp: config_ok_def init_globals_def zeroed_gc_def)
  moreover have "cache_ok (init_globals K G)"
    using L(2) zeroed_cache_ok by (simp add: cache_ok_def init_globals_def)
  moreover have "procs_ok (init_globals K G)"
    using L(2) by (simp add: procs_ok_def init_globals_def zeroed_gc_def zeroed_slot_def)
  ultimately show ?thesis
    using L(1,2) by (simp add: driver_ok_def log_inv_def init_globals_def zeroed_gc_def)
qed

section \<open>The processes that are running\<close>

lemma kill_loop_sound:
  assumes "driver_ok G" "pool_ample R" "wf_kernel K" "unat (NEW_PROCS_INDEX G) + length pids < 32000"
  shows "\<exists>G' killed freed. kill_loop R K G pids = Inr (G', killed, freed) \<and> driver_ok G' \<and> only_session G G'
    \<and> clientpid G' = clientpid G \<and> unat (NEW_PROCS_INDEX G') \<le> unat (NEW_PROCS_INDEX G) + length pids"
  using assms(1,4)
proof (induction pids arbitrary: G)
  case Nil
  then show ?case using only_sessionI(3) [OF follows_refl] by simp
next
  case (Cons pid pids)
  have same: "\<exists>G' killed freed. kill_loop R K G pids = Inr (G', killed, freed) \<and> driver_ok G' \<and> only_session G G'
      \<and> clientpid G' = clientpid G \<and> unat (NEW_PROCS_INDEX G') \<le> unat (NEW_PROCS_INDEX G) + length (pid # pids)"
    using Cons.IH [of G] Cons.prems by (auto intro: le_SucI)
  obtain status targp where lk: "PsLookupProcessByProcessId K pid = (status, targp)" by force
  obtain found PI0 where pi: "processInfoInit R (process_peb K targp) targp zero_pi Null False = (found, PI0)" by force
  have a: "ExAllocatePool2 R (pid + 2) 64 \<noteq> 0" using assms(2) by (simp add: pool_ample_def)
  show ?case
  proof (cases "5 <s pid \<and> status = STATUS_SUCCESS \<and> found")
    case False
    then show ?thesis using same a by (auto simp: lk pi)
  next
    case True
    let ?PI = "PI0\<lparr>pi_tag := PHOEBE\<rparr>"
    have "wf_proc PI0" using probe_spec [OF assms(3), of R targp found "local PI0"] pi by (simp add: probe_def)
    then have wf: "wf_proc ?PI" by (simp add: wf_proc_def)
    have "\<not> 5 <s (0 :: u64)" by code_simp
    then have pid: "pid \<noteq> 0" using True by auto
    have tag: "pi_tag ?PI = PHOEBE" by simp
    have "next_slot G < 32000" using Cons.prems(2) by (intro next_slot_bound) simp
    then obtain G1 freed n where add: "AddNewProcess R G pid (Ptr (ExAllocatePool2 R (pid + 2) 64) ?PI) = Inr (G1, freed)"
      "follows (at_index n G) G1" "unat n \<le> Suc (unat (NEW_PROCS_INDEX G))"
      by (rule follows_add [OF Cons.prems(1) pid _ assms(2) tag wf, where b = "ExAllocatePool2 R (pid + 2) 64"])
    have ok1: "driver_ok G1" using add(2) by (simp add: follows_def)
    have idx: "NEW_PROCS_INDEX G1 = n" "clientpid G1 = clientpid G"
      using add(2) by (auto simp: follows_def event_frame_def at_index_def)
    note f1 = only_sessionI(2) [OF add(2)]
    obtain r where r: "ProcessListMatch R G1 ?PI PROCESS_BLOCK_LIST (gc_COUNT G1 PBL) = Inr r"
      using process_rules.match_total [OF driver_okD(1) [OF ok1] _ config_ok_count [OF driver_okD(1) [OF ok1]]]
      unfolding ProcessListMatch_def process_list_simps by blast
    have "unat (NEW_PROCS_INDEX G1) + length pids < 32000" using add(3) idx Cons.prems(2) by simp
    from Cons.IH [OF ok1 this] obtain G2 killed fr where ih: "kill_loop R K G1 pids = Inr (G2, killed, fr)" "driver_ok G2"
      "only_session G1 G2" "clientpid G2 = clientpid G1" "unat (NEW_PROCS_INDEX G2) \<le> unat (NEW_PROCS_INDEX G1) + length pids"
      by blast
    show ?thesis
      using True a add(3) idx f1 ok1 ih only_session_trans [OF f1 ih(3)]
      by (cases "lr_matched r") (auto simp: lk pi add(1) r Let_def)
  qed
qed

lemma startup_sound:
  assumes "driver_ok G" "pool_ample R" "wf_kernel K"
    and "\<forall>m. length (snd (Q m)) \<le> n" "unat (NEW_PROCS_INDEX G) + n + 1 < 32000"
    and "startupKillBlockedProcesses R K Q fuel G = Some r"
  shows "\<exists>G' killed freed. r = Inr (G', killed, freed) \<and> driver_ok G' \<and> only_session G G'
    \<and> clientpid G' = clientpid G \<and> unat (NEW_PROCS_INDEX G') \<le> unat (NEW_PROCS_INDEX G) + (n + 1)"
proof -
  have q: "query_loop R Q f m = Some (Some pids) \<Longrightarrow> length pids \<le> n + 1" for f m pids
  proof (induction f arbitrary: m)
    case (Suc f)
    obtain s ps where Q: "Q m = (s, ps)" by force
    with assms(4) have "length ps \<le> n" by (metis snd_conv)
    then show ?case using Suc Q by (auto split: if_splits)
  qed simp
  obtain snapshot where s: "query_loop R Q fuel (0x10 * 0x1024) = Some snapshot"
    "r = (case snapshot of None \<Rightarrow> Inr (G, [], []) | Some pids \<Rightarrow> kill_loop R K G pids)"
    using assms(6) by (auto simp: startupKillBlockedProcesses_def)
  show ?thesis
  proof (cases snapshot)
    case None
    then show ?thesis using s(2) assms(1) only_sessionI(3) [OF follows_refl [OF assms(1)]] by simp
  next
    case (Some pids)
    then have p: "length pids \<le> n + 1" using q s(1) by blast
    then have "unat (NEW_PROCS_INDEX G) + length pids < 32000" using assms(5) by simp
    from kill_loop_sound [OF assms(1-3) this] show ?thesis
      using s(2) Some p by (auto intro: order_trans)
  qed
qed

section \<open>Initialisation\<close>

text \<open>A snapshot of the running processes fits the table.\<close>

definition few_processes :: "nat \<Rightarrow> query \<Rightarrow> bool" where
  "few_processes n Q \<longleftrightarrow> n < 31999 \<and> (\<forall>m. length (snd (Q m)) \<le> n)"

lemma init_context_sound:
  assumes "pool_valid R" "wf_kernel K" "few_processes n Q"
    and "init_context R Z K Q fuel = Some (Inr (status, G, killed))" "NT_SUCCESS status"
  shows "driver_ok G \<and> clientpid G = - 1 \<and> list_all id (take 7 (flags G)) \<and> gc_State G = 0
    \<and> unat (NEW_PROCS_INDEX G) \<le> n + 1"
proof -
  note pool = pool_valid_ample [OF assms(1)]
  obtain s G0 where i: "initConfigLists R zeroed_gc = (s, G0)" by force
  note r = init_ready [OF assms(1) i, of K]
  have g0: "gc_State (init_globals K G0) = 0"
    using init_lists_lists [OF assms(1), of all_rule_lists 0 zeroed_gc s G0] i
    by (auto simp: initConfigLists_def init_globals_def zeroed_gc_def)
  obtain st G1 where l: "LoadConfig R Z fuel (init_globals K G0) = Some (Inr (st, G1))" "NT_SUCCESS st"
    using assms(4,5) r fail_statuses by (auto simp: init_context_def i split: option.splits sum.splits if_splits)
  note loads = LoadConfig_loads [OF driver_okD(1) l(1)]
  have lo: "loads (init_globals K G0) G1" using loads r by blast
  have ok1: "driver_ok G1" by (rule driver_ok_loads [OF _ lo]) (use r in blast)
  have c1: "clientpid G1 = - 1" "NEW_PROCS_INDEX G1 = 0" "gc_State G1 = 0"
    using lo r g0 by (simp_all add: loads_def init_globals_def)
  have le: "flags_le (init_globals K G0) G1" by (rule LoadConfig_flags_le [OF l(1)])
  then have fl: "PROCESS_CALLBACK G1" "THREAD_CALLBACK G1" "MODULE_CALLBACK G1" "OBJECT_CALLBACK G1"
    "REGISTRY_CALLBACK G1" "FILE_CALLBACK G1" "WFP_CALLBACK G1"
    by (simp_all add: flags_le_def flags_def init_globals_def)
  obtain q where k: "startupKillBlockedProcesses R K Q fuel G1 = Some q"
    "andthen q (\<lambda>(G, killed, _). Inr (STATUS_SUCCESS, G, killed)) = Inr (status, G, killed)"
    using assms(4) r l fl by (auto simp: init_context_def i)
  have few: "\<forall>m. length (snd (Q m)) \<le> n" "unat (NEW_PROCS_INDEX G1) + n + 1 < 32000"
    using assms(3) c1(2) by (auto simp: few_processes_def)
  obtain G2 where "driver_ok G2" "only_session G1 G2" "clientpid G2 = clientpid G1" "G = G2"
    "unat (NEW_PROCS_INDEX G2) \<le> unat (NEW_PROCS_INDEX G1) + (n + 1)"
    using startup_sound [OF ok1 pool assms(2) few k(1)] k(2) by auto
  then show ?thesis
    using c1 fl only_session_fields(3,5) [of G1 G2] by (simp add: flags_def)
qed

section \<open>Registration\<close>

text \<open>Registering the callbacks stores two handles and a cookie in the context.\<close>

definition registers :: "GC \<Rightarrow> GC \<Rightarrow> bool" where
  "registers G G' \<longleftrightarrow> (\<exists>a b c. G' = G\<lparr>ObRegHandle := a, gc_Cookie := b, BFENotifyHandle := c\<rparr>)"

lemma registersI: "G' = G\<lparr>ObRegHandle := a, gc_Cookie := b, BFENotifyHandle := c\<rparr> \<Longrightarrow> registers G G'"
  unfolding registers_def by blast

lemma registers_steps [simp]:
  "registers G G" "registers G (G\<lparr>ObRegHandle := a\<rparr>)" "registers G (G\<lparr>gc_Cookie := b\<rparr>)"
  "registers G (G\<lparr>BFENotifyHandle := c\<rparr>)"
  by (rule registersI [where a = "ObRegHandle G" and b = "gc_Cookie G" and c = "BFENotifyHandle G"], simp,
      rule registersI [where a = a and b = "gc_Cookie G" and c = "BFENotifyHandle G"], simp,
      rule registersI [where a = "ObRegHandle G" and b = b and c = "BFENotifyHandle G"], simp,
      rule registersI [where a = "ObRegHandle G" and b = "gc_Cookie G" and c = c], simp)

lemma registers_trans: "registers G G' \<Longrightarrow> registers G' G'' \<Longrightarrow> registers G G''"
  unfolding registers_def by (elim exE) (intro exI, simp)

lemma registers_object: "registers G (snd (fst (run_state (register_object S G) h)))"
  by (simp add: register_object_def split_def)

lemma registers_registry: "registers G (snd (fst (run_state (register_registry S G) h)))"
  by (simp add: register_registry_def split_def)

lemma registers_network:
  "fst (run_state (register_network S G status) h) = Some (Inr (status', G')) \<Longrightarrow> registers G G'"
  by (auto simp: register_network_def split_def Let_def andthen_Inr_iff split: if_splits)

lemma registerCallbacks_registers:
  assumes "fst (run_state (registerCallbacks S G) h) = Some (Inr (status, G'))"
  shows "registers G G'"
proof -
  obtain st h1 where c: "run_state (syscalls_until (\<lambda>s. s \<noteq> STATUS_SUCCESS) S (notify_calls G) STATUS_SUCCESS) h = (st, h1)"
    by force
  obtain s1 G1 h2 where ob: "run_state (register_object S G) h1 = ((s1, G1), h2)" by (metis prod.exhaust)
  obtain s2 G2 h3 where re: "run_state (register_registry S G1) h2 = ((s2, G2), h3)" by (metis prod.exhaust)
  obtain s3 on h4 where fi: "run_state (register_files S G2 s2) h3 = ((s3, on), h4)" by (metis prod.exhaust)
  have "G' \<in> {G, G1, G2} \<or> fst (run_state (register_network S G2 s3) h4) = Some (Inr (status, G'))"
    using assms fi by (auto simp: registerCallbacks_def c ob re split: if_splits)
  moreover have g1: "registers G G1" using registers_object [of G S h1] by (simp add: ob)
  moreover have g2: "registers G G2"
    using registers_trans [OF g1] registers_registry [of G1 S h2] by (simp add: re)
  ultimately show ?thesis using registers_network registers_trans [OF g2] by auto
qed

lemma registers_ok:
  assumes "registers G G'"
  shows "driver_ok G' = driver_ok G" "clientpid G' = clientpid G" "flags G' = flags G"
    "NEW_PROCS_INDEX G' = NEW_PROCS_INDEX G"
  using assms
  by (auto simp: registers_def driver_ok_def config_ok_def cache_ok_def procs_ok_def log_inv_def flags_def)

lemma InitMoonMon_sound:
  assumes "pool_valid R" "wf_kernel K" "few_processes n Q"
    and "fst (run_state (InitMoonMon R Z K Q fuel S) h) = Some (Inr (status, q))" "NT_SUCCESS status"
  obtains a G where "q = Ptr a G" "driver_ok G" "clientpid G = - 1" "list_all id (take 7 (flags G))"
    "gc_State G = INITIALIZED" "unat (NEW_PROCS_INDEX G) \<le> n + 1"
proof -
  have a: "ExAllocatePool2 R 0 (sizeof_GC S) \<noteq> 0"
    using pool_valid_ample [OF assms(1)] by (simp add: pool_ample_def)
  obtain st G killed where c: "init_context R Z K Q fuel = Some (Inr (st, G, killed))"
    using assms(4) a by (auto simp: InitMoonMon_def Let_def split: option.splits sum.splits)
  have st: "NT_SUCCESS st"
    using assms(4,5) a c by (auto simp: InitMoonMon_def Let_def split: if_splits)
  note ok = init_context_sound [OF assms(1-3) c st]
  obtain s2 G2 where r: "fst (run_state (registerCallbacks S G) h) = Some (Inr (s2, G2))"
    "q = Ptr (ExAllocatePool2 R 0 (sizeof_GC S)) (if NT_SUCCESS s2 then G2\<lparr>gc_State := INITIALIZED\<rparr> else G2)" "s2 = status"
    using assms(4) a c st by (auto simp: InitMoonMon_def Let_def split_def andthen_Inr_iff)
  note same = registers_ok [OF registerCallbacks_registers [OF r(1)]]
  have "driver_ok (G2\<lparr>gc_State := INITIALIZED\<rparr>) = driver_ok G2" "flags (G2\<lparr>gc_State := INITIALIZED\<rparr>) = flags G2"
    by (simp_all add: driver_ok_def config_ok_def cache_ok_def procs_ok_def log_inv_def flags_def)
  then show thesis
    using that [of "ExAllocatePool2 R 0 (sizeof_GC S)" "G2\<lparr>gc_State := INITIALIZED\<rparr>"] ok same r assms(5) by simp
qed

end
