(* ===== verification/MM_Startup_Properties.thy ===== *)
theory MM_Startup_Properties
  imports MM_Init_Soundness MM_Callback_Records
begin

text \<open>
  The search of the running processes at the start of the driver, \<open>startupKillBlockedProcesses\<close> in
  \<open>src/MoonMon/MoonMon.c\<close>: how the snapshot is asked for, which processes are cached and which one is
  terminated.
\<close>

section \<open>The snapshot\<close>

text \<open>The buffer is doubled until the kernel accepts its size.\<close>

lemma query_loop_doubles:
  assumes "pool_ample R" "fst (Q (m * 2 ^ n)) \<noteq> STATUS_INFO_LENGTH_MISMATCH"
    and "\<And>k. k < n \<Longrightarrow> fst (Q (m * 2 ^ k)) = STATUS_INFO_LENGTH_MISMATCH" "n < fuel"
  shows "query_loop R Q fuel m
    = Some (Some (if NT_SUCCESS (fst (Q (m * 2 ^ n))) then snd (Q (m * 2 ^ n)) else [0]))"
  using assms(2-4)
proof (induction n arbitrary: m fuel)
  case 0
  then show ?case using assms(1) by (cases fuel) (auto simp: pool_ample_def split: prod.splits)
next
  case (Suc n)
  obtain f where f: "fuel = Suc f" "n < f" using Suc.prems(3) by (cases fuel) auto
  have shift: "m * 2 * 2 ^ k = m * 2 ^ Suc k" for k by (simp add: mult.assoc)
  have "fst (Q (m * 2 * 2 ^ n)) \<noteq> STATUS_INFO_LENGTH_MISMATCH" using Suc.prems(1) unfolding shift .
  moreover have "fst (Q (m * 2 * 2 ^ k)) = STATUS_INFO_LENGTH_MISMATCH" if "k < n" for k
    unfolding shift using Suc.prems(2) [of "Suc k"] that by simp
  ultimately have "query_loop R Q f (m * 2)
      = Some (Some (if NT_SUCCESS (fst (Q (m * 2 * 2 ^ n))) then snd (Q (m * 2 * 2 ^ n)) else [0]))"
    using Suc.IH f(2) by blast
  moreover have "fst (Q m) = STATUS_INFO_LENGTH_MISMATCH" using Suc.prems(2) [of 0] by simp
  ultimately show ?case
    using assms(1) by (auto simp: f(1) pool_ample_def shift split: prod.splits)
qed

section \<open>The walk\<close>

text \<open>What the walk learns of a process of the snapshot, when it looks at it and can read it, and whether
  the rules block it.\<close>

definition running_info :: "rtl \<Rightarrow> kernel \<Rightarrow> u64 \<Rightarrow> PROC_INFO option" where
  "running_info R K pid =
     (case PsLookupProcessByProcessId K pid of (status, targp) \<Rightarrow>
      case processInfoInit R (process_peb K targp) targp zero_pi Null False of (found, PI) \<Rightarrow>
        if 5 <s pid \<and> status = STATUS_SUCCESS \<and> found then Some (PI\<lparr>pi_tag := PHOEBE\<rparr>) else None)"

definition blocked_info :: "rtl \<Rightarrow> GC \<Rightarrow> PROC_INFO option \<Rightarrow> bool" where
  "blocked_info R G info =
     (case info of None \<Rightarrow> False | Some PI \<Rightarrow> lr_matched (rules_hit (process_holds R PI) G PBL))"

definition run_blocked :: "rtl \<Rightarrow> kernel \<Rightarrow> GC \<Rightarrow> u64 \<Rightarrow> bool" where
  "run_blocked R K G pid = blocked_info R G (running_info R K pid)"

text \<open>The processes up to and with the first blocked one.\<close>

fun walked :: "(u64 \<Rightarrow> bool) \<Rightarrow> u64 list \<Rightarrow> u64 list" where
  "walked P [] = []"
| "walked P (pid # pids) = pid # (if P pid then [] else walked P pids)"

text \<open>The cache after it: a process that was there keeps its information.\<close>

definition cache_running :: "rtl \<Rightarrow> kernel \<Rightarrow> (u64 \<Rightarrow> PROC_INFO option) \<Rightarrow> u64 \<Rightarrow> u64 \<Rightarrow> PROC_INFO option" where
  "cache_running R K C pid = (case running_info R K pid of None \<Rightarrow> C
     | Some PI \<Rightarrow> (if C pid = None then C(pid \<mapsto> pi_view PI) else C))"

definition free_slots :: "GC \<Rightarrow> bool" where
  "free_slots G \<longleftrightarrow> (\<forall>i < 32000. next_slot G \<le> i \<longrightarrow> pc_p (NEW_PROCS G ! i) = 0)"

text \<open>As long as the slots from the next one on are free, adding a process changes no other entry.\<close>

lemma add_to_free_slot:
  assumes "driver_ok G" "p \<noteq> 0" "unat (NEW_PROCS_INDEX G) + 1 < 32000" "free_slots G" "pool_ample R"
    and "pi_tag PI = PHOEBE" "wf_proc PI"
  obtains G' freed n where "AddNewProcess R G p (Ptr b PI) = Inr (G', freed)" "follows (at_index n G) G'"
    "unat (NEW_PROCS_INDEX G') \<le> unat (NEW_PROCS_INDEX G) + 1" "free_slots G'"
    "cached G' = (if cached G p = None then (cached G)(p \<mapsto> pi_view PI) else cached G)"
proof -
  have ok: "cache_ok G" using assms(1) by (simp add: driver_ok_def)
  have nxt: "next_slot G < 32000" using assms(3) by (rule next_slot_bound)
  have can: "cache_can R p PI G" using assms(2,5-7) nxt wf_proc_pi by (simp add: cache_can_def)
  obtain G' freed n where add: "AddNewProcess R G p (Ptr b PI) = Inr (G', freed)" "follows (at_index n G) G'"
    "unat n \<le> Suc (unat (NEW_PROCS_INDEX G))" "cached G' p = (case cached G p of None \<Rightarrow> Some (pi_view PI) | Some w \<Rightarrow> Some w)"
    by (rule follows_add [OF assms(1,2) nxt assms(5-7)])
  have n: "NEW_PROCS_INDEX G' = n" using add(2) by (auto simp: follows_def event_frame_def at_index_def)
  have "AddNewProcess R G p (Ptr b PI) = AddNewProcess R G p (Ptr p PI)"
    unfolding AddNewProcess_def ptr.sel MM_TYPE_CHECK_simps ..
  then have "AddNewProcess R G p (Ptr p PI) = Inr (G', freed)" using add(1) by metis
  then have ins: "cache_ins R p PI G = G'" by (simp add: cache_ins_def)
  have "free_slots G' \<and> cached G' = (if cached G p = None then (cached G)(p \<mapsto> pi_view PI) else cached G)"
  proof (cases rule: cache_ins_cases [OF ok can])
    case 1
    then show ?thesis using assms(4) ins by auto
  next
    case (2 s m)
    let ?i = "next_slot G"
    have len: "length (NEW_PROCS G) = 32000" using ok by (simp add: cache_ok_def)
    have G': "NEW_PROCS G' = (NEW_PROCS G)[?i := s]" "NEW_PROCS_INDEX G' = m"
      using 2(3) ins by (simp_all add: set_slot_def)
    have "Suc ?i \<le> next_slot G' \<or> 32000 \<le> next_slot G'"
      using G'(2) 2(7) nxt by (auto simp: next_slot_def word_le_nat_alt)
    then have "free_slots G'" using assms(4) by (auto simp: free_slots_def G'(1) nth_list_update)
    moreover have "cached G' q = cached G q" if q: "q \<noteq> p" for q
    proof -
      have "wf_slot (NEW_PROCS G ! ?i)" using ok nxt by (simp add: cache_ok_def)
      then have free: "pc_tag (NEW_PROCS G ! ?i) \<noteq> CHARON"
        using assms(4) nxt by (auto simp: free_slots_def wf_slot_def)
      have slots: "i < 32000 \<Longrightarrow> pc_tag (NEW_PROCS G' ! i) = CHARON \<and> pc_p (NEW_PROCS G' ! i) = q
          \<longleftrightarrow> pc_tag (NEW_PROCS G ! i) = CHARON \<and> pc_p (NEW_PROCS G ! i) = q" for i
        using free 2(4) q by (cases "i = ?i") (auto simp: G'(1) len)
      have "GetCachedProcess G' q = Some i \<longleftrightarrow> GetCachedProcess G q = Some i" for i
        using slots [of i] unfolding slot_get [OF ok] slot_get [OF 2(2) [unfolded ins]] by blast
      then have same: "GetCachedProcess G' q = GetCachedProcess G q" by (metis not_Some_eq)
      have "i \<noteq> ?i" if "GetCachedProcess G q = Some i" for i
        using that free unfolding slot_get [OF ok] by blast
      then show ?thesis by (cases "GetCachedProcess G q") (simp_all add: same cached_def G'(1))
    qed
    ultimately show ?thesis using add(4) 2(1) by auto
  qed
  then show thesis using that [OF add(1,2)] add(3) n by simp
qed

lemma running_info_wf:
  assumes "wf_kernel K" "running_info R K pid = Some PI"
  shows "wf_proc PI" "pi_tag PI = PHOEBE" "pid \<noteq> 0"
proof -
  obtain status targp found PI0 where pi: "PsLookupProcessByProcessId K pid = (status, targp)"
    "processInfoInit R (process_peb K targp) targp zero_pi Null False = (found, PI0)" "PI = PI0\<lparr>pi_tag := PHOEBE\<rparr>" "5 <s pid"
    using assms(2) by (auto simp: running_info_def split: prod.splits if_splits)
  have "wf_proc PI0" using probe_spec [OF assms(1), of R targp found "local PI0"] pi(2) by (simp add: probe_def)
  then show "wf_proc PI" "pi_tag PI = PHOEBE" by (simp_all add: wf_proc_def pi(3))
  have "\<not> 5 <s (0 :: u64)" by code_simp
  then show "pid \<noteq> 0" using pi(4) by auto
qed

lemma ProcessListMatch_block:
  assumes "driver_ok G"
  shows "ProcessListMatch R G PI PROCESS_BLOCK_LIST (gc_COUNT G PBL) = Inr (rules_hit (process_holds R PI) G PBL)"
proof (cases "gc_COUNT G PBL = 0")
  case True
  then show ?thesis by (simp add: ProcessListMatch_def list_match_def Let_def)
next
  case False
  then show ?thesis
    using config_ok_rules [OF driver_okD(1) [OF assms]] by (intro ProcessListMatch_hit) (simp_all add: word_gt_0)
qed

lemma kill_loop_walks:
  assumes "driver_ok G" "pool_ample R" "wf_kernel K" "unat (NEW_PROCS_INDEX G) + length pids < 32000" "free_slots G"
  shows "\<exists>G' freed. kill_loop R K G pids = Inr (G', (case find (run_blocked R K G) pids of None \<Rightarrow> []
      | Some pid \<Rightarrow> snd (TerminateProcess K (snd (PsLookupProcessByProcessId K pid)))), freed)
    \<and> driver_ok G' \<and> cached G' = foldl (cache_running R K) (cached G) (walked (run_blocked R K G) pids)"
  using assms(1,4,5)
proof (induction pids arbitrary: G)
  case (Cons pid pids)
  obtain status targp where lk: "PsLookupProcessByProcessId K pid = (status, targp)" by force
  obtain found PI0 where pi: "processInfoInit R (process_peb K targp) targp zero_pi Null False = (found, PI0)" by force
  let ?a = "ExAllocatePool2 R (pid + 2) 64"
  have a: "?a \<noteq> 0" using assms(2) by (simp add: pool_ample_def)
  have len: "unat (NEW_PROCS_INDEX G) + length pids < 32000" using Cons.prems(2) by simp
  note skip = Cons.IH [OF Cons.prems(1) len Cons.prems(3)]
  show ?case
  proof (cases "running_info R K pid")
    case None
    then have "\<not> (5 <s pid \<and> status = STATUS_SUCCESS \<and> found)" by (auto simp: running_info_def lk pi)
    then have same: "kill_loop R K G (pid # pids) = kill_loop R K G pids
        \<or> kill_loop R K G (pid # pids) = andthen (kill_loop R K G pids) (\<lambda>(G, killed, freed). Inr (G, killed, ?a # freed))"
      using a by (auto simp: lk pi)
    have b: "\<not> run_blocked R K G pid" using None by (simp add: run_blocked_def blocked_info_def)
    have c: "cache_running R K C pid = C" for C using None by (simp add: cache_running_def)
    show ?thesis using skip same b c by auto
  next
    case (Some PI)
    then have PI: "5 <s pid" "status = STATUS_SUCCESS" "found" "PI = PI0\<lparr>pi_tag := PHOEBE\<rparr>"
      by (auto simp: running_info_def lk pi split: if_splits)
    note wf = running_info_wf [OF assms(3) Some]
    have idx: "unat (NEW_PROCS_INDEX G) + 1 < 32000" using Cons.prems(2) by simp
    obtain G1 freed n where add: "AddNewProcess R G pid (Ptr ?a PI) = Inr (G1, freed)" "follows (at_index n G) G1"
      "unat (NEW_PROCS_INDEX G1) \<le> unat (NEW_PROCS_INDEX G) + 1" "free_slots G1"
      "cached G1 = (if cached G pid = None then (cached G)(pid \<mapsto> pi_view PI) else cached G)"
      by (rule add_to_free_slot [OF Cons.prems(1) wf(3) idx Cons.prems(3) assms(2) wf(2,1)])
    have ok1: "driver_ok G1" using add(2) by (simp add: follows_def)
    have "event_frame (at_index n G) G1" using add(2) by (simp add: follows_def)
    then have hits: "rules_hit h G1 PBL = rules_hit h G PBL" for h
      using rules_hit_frame [of "at_index n G" G1 h PBL] by (simp add: rules_hit_def at_index_def)
    then have same: "run_blocked R K G1 = run_blocked R K G" by (simp add: run_blocked_def blocked_info_def fun_eq_iff hits split: option.split)
    have len1: "unat (NEW_PROCS_INDEX G1) + length pids < 32000" using add(3) Cons.prems(2) by simp
    note rest = Cons.IH [OF ok1 len1 add(4), unfolded same]
    have b: "run_blocked R K G pid \<longleftrightarrow> lr_matched (rules_hit (process_holds R PI) G PBL)"
      by (simp add: run_blocked_def blocked_info_def Some)
    have c: "cached G1 = cache_running R K (cached G) pid" by (simp add: add(5) cache_running_def Some)
    show ?thesis
      using rest ok1 PI a add(1) ProcessListMatch_block [OF ok1, of R PI]
      by (cases "run_blocked R K G pid") (auto simp: lk pi Let_def hits b c)
  qed
qed simp

text \<open>C6: The search of the running processes at the start: the snapshot is the answer of the kernel to the
  first buffer size, doubled from \<open>0x10240\<close>, that it accepts; every process up to the first one the block rules
  hit is cached with what could be read of it; and that process, and no other, is terminated.\<close>
theorem startup_kills_first_blocked:
  assumes "driver_ok G" "pool_ample R" "wf_kernel K" "free_slots G"
    and "fst (Q (0x10240 * 2 ^ n)) \<noteq> STATUS_INFO_LENGTH_MISMATCH" "n < fuel"
    and "\<forall>k < n. fst (Q (0x10240 * 2 ^ k)) = STATUS_INFO_LENGTH_MISMATCH"
    and "pids = (if NT_SUCCESS (fst (Q (0x10240 * 2 ^ n))) then snd (Q (0x10240 * 2 ^ n)) else [0])"
    and "unat (NEW_PROCS_INDEX G) + length pids < 32000"
  shows "\<exists>G' freed. startupKillBlockedProcesses R K Q fuel G = Some (Inr (G',
      (case find (run_blocked R K G) pids of None \<Rightarrow> []
       | Some pid \<Rightarrow> snd (TerminateProcess K (snd (PsLookupProcessByProcessId K pid)))), freed))
    \<and> driver_ok G' \<and> cached G' = foldl (cache_running R K) (cached G) (walked (run_blocked R K G) pids)"
proof -
  have "query_loop R Q fuel (0x10 * 0x1024) = Some (Some pids)"
    using query_loop_doubles [OF assms(2), of Q "0x10240" n fuel] assms(5-8) by simp
  then show ?thesis
    using kill_loop_walks [OF assms(1-3,9,4)] by (simp add: startupKillBlockedProcesses_def)
qed

text \<open>One block rule, on the image \<open>b\<close>, and four processes, of which the last two run that image; the kernel accepts
  the second buffer.\<close>

definition block_rule :: "CONFIG_GROUP ptr" where
  "block_rule = Ptr page \<lparr>entries = str_item IMAGE_FILE_NAME EQUALS ''b'' # replicate 255 Null, cg_count = 1, cg_id = 7,
     cg_actions = 0, cg_tag = CALIBAN\<rparr>"

definition blocking_gc :: GC where
  "blocking_gc = started_gc\<lparr>gc_list := (gc_list started_gc)(PBL := Ptr page (block_rule # replicate 65534 Null)),
     gc_COUNT := (gc_COUNT started_gc)(PBL := 1)\<rparr>"

definition running_kernel :: kernel where
  "running_kernel = sample_kernel\<lparr>PsLookupProcessByProcessId := \<lambda>pid. (STATUS_SUCCESS, pid),
     process_peb := \<lambda>p. if 60 < p then Peb \<lparr>pp_ImageFileName = ustr ''b'', pp_CommandLine = Null,
       pp_WindowTitle = Null, pp_CWD = Null\<rparr> else NoPeb\<rparr>"

definition running_query :: query where
  "running_query m = (if m = 0x10240 then (STATUS_INFO_LENGTH_MISMATCH, []) else (STATUS_SUCCESS, [4, 60, 61, 62]))"

lemma blocking_ok: "driver_ok blocking_gc"
proof -
  have "wf_group (deref block_rule)" by code_simp
  then have "built_group block_rule"
    by (simp add: built_group_def block_rule_def MM_TYPE_CHECK_def VALID_PAGE_def page_def)
  then have "sound_list (block_rule # replicate 65534 Null) 1"
    by (simp add: sound_list_def list_all_iff)
  moreover have "config_ok started_gc" using started_ok driver_okD(1) by blast
  ultimately have "config_ok blocking_gc"
    by (simp add: config_ok_def blocking_gc_def VALID_PAGE_def page_def)
  moreover have "cache_ok blocking_gc = cache_ok started_gc" "procs_ok blocking_gc = procs_ok started_gc"
    "log_inv blocking_gc = log_inv started_gc"
    by (simp_all add: cache_ok_def procs_ok_def log_inv_def blocking_gc_def)
  ultimately show ?thesis using started_ok by (simp add: driver_ok_def blocking_gc_def)
qed

lemma blocking_hit:
  "lr_matched (rules_hit (process_holds R PI) blocking_gc PBL)
    \<longleftrightarrow> process_holds R PI (str_item IMAGE_FILE_NAME EQUALS ''b'')"
proof -
  have "MM_TYPE_CHECK cg_tag block_rule CALIBAN" "group_items (deref block_rule) = [str_item IMAGE_FILE_NAME EQUALS ''b'']"
    by code_simp+
  then show ?thesis
    by (simp add: rules_hit_def blocking_gc_def live_groups_def first_match_def)
qed

lemma running_blocked:
  "running_info ref_rtl running_kernel 4 = None"
  "running_info ref_rtl running_kernel 60 = Some (zero_pi\<lparr>pi_tag := PHOEBE\<rparr>)"
  "\<exists>PI. running_info ref_rtl running_kernel 61 = Some PI \<and> process_holds ref_rtl PI (str_item IMAGE_FILE_NAME EQUALS ''b'')"
  "\<not> process_holds ref_rtl (zero_pi\<lparr>pi_tag := PHOEBE\<rparr>) (str_item IMAGE_FILE_NAME EQUALS ''b'')"
proof -
  have signed: "5 <s (60 :: u64)" "5 <s (61 :: u64)" "\<not> 5 <s (4 :: u64)" by code_simp+
  note info = running_info_def running_kernel_def processInfoInit_def Let_def
  show "running_info ref_rtl running_kernel 4 = None" by (simp add: info signed)
  show "running_info ref_rtl running_kernel 60 = Some (zero_pi\<lparr>pi_tag := PHOEBE\<rparr>)" by (simp add: info signed)
  let ?PI = "(snd (processInfoInit ref_rtl (process_peb running_kernel 61) 61 zero_pi Null False))\<lparr>pi_tag := PHOEBE\<rparr>"
  have "process_holds ref_rtl ?PI (str_item IMAGE_FILE_NAME EQUALS ''b'')" by code_simp
  moreover have "running_info ref_rtl running_kernel 61 = Some ?PI" by (simp add: info signed)
  ultimately show "\<exists>PI. running_info ref_rtl running_kernel 61 = Some PI
      \<and> process_holds ref_rtl PI (str_item IMAGE_FILE_NAME EQUALS ''b'')" by blast
  show "\<not> process_holds ref_rtl (zero_pi\<lparr>pi_tag := PHOEBE\<rparr>) (str_item IMAGE_FILE_NAME EQUALS ''b'')" by code_simp
qed

lemma startup_kills_first_blocked_witness:
  "\<exists>G' freed. startupKillBlockedProcesses ref_rtl running_kernel running_query 2 blocking_gc = Some (Inr (G', [61], freed))
    \<and> cached G' 60 \<noteq> None \<and> cached G' 61 \<noteq> None \<and> cached G' 62 = None"
proof -
  let ?pids = "[4, 60, 61, 62] :: u64 list" and ?run = "run_blocked ref_rtl running_kernel blocking_gc"
  obtain PI where PI: "running_info ref_rtl running_kernel 61 = Some PI"
    "process_holds ref_rtl PI (str_item IMAGE_FILE_NAME EQUALS ''b'')" using running_blocked(3) by blast
  have run: "\<not> ?run 4" "\<not> ?run 60" "?run 61"
    using PI running_blocked by (simp_all add: run_blocked_def blocked_info_def blocking_hit)
  have 1: "wf_kernel running_kernel"
    by (simp add: running_kernel_def wf_kernel_def wf_peb_def wf_token_def sample_kernel_def)
  have 2: "free_slots blocking_gc"
    by (simp add: free_slots_def blocking_gc_def started_gc_def zeroed_gc_def zeroed_slot_def)
  have 3: "fst (running_query (0x10240 * 2 ^ 1)) \<noteq> STATUS_INFO_LENGTH_MISMATCH" "1 < (2 :: nat)"
    "\<forall>k < 1. fst (running_query (0x10240 * 2 ^ k)) = STATUS_INFO_LENGTH_MISMATCH"
    "?pids = (if NT_SUCCESS (fst (running_query (0x10240 * 2 ^ 1))) then snd (running_query (0x10240 * 2 ^ 1)) else [0])"
    "unat (NEW_PROCS_INDEX blocking_gc) + length ?pids < 32000"
    by (simp_all add: running_query_def blocking_gc_def)
  have none: "cached blocking_gc p = None" for p
    using started_cache(2) [of p] by (simp add: cached_def GetCachedProcess_def blocking_gc_def)
  have kill: "snd (TerminateProcess running_kernel (snd (PsLookupProcessByProcessId running_kernel 61))) = [61]"
    by (simp add: TerminateProcess_def running_kernel_def sample_kernel_def)
  have walk: "find ?run ?pids = Some 61" "walked ?run ?pids = [4, 60, 61]" using run by simp_all
  obtain G' freed where G': "startupKillBlockedProcesses ref_rtl running_kernel running_query 2 blocking_gc
      = Some (Inr (G', [61], freed))"
    "cached G' = foldl (cache_running ref_rtl running_kernel) (cached blocking_gc) [4, 60, 61]"
    using startup_kills_first_blocked [OF blocking_ok ref_rtl_ample 1 2 3] unfolding walk option.case kill by blast
  have "cached G' 60 \<noteq> None \<and> cached G' 61 \<noteq> None \<and> cached G' 62 = None"
    unfolding G'(2) by (simp add: none cache_running_def running_blocked(1,2) PI(1))
  then show ?thesis using G'(1) by blast
qed

end
