(* ===== verification/MM_Registration.thy ===== *)
theory MM_Registration
  imports MM_Driver
begin

text \<open>
  Which calls the set-up of the driver makes: programs over the history of calls that only make calls of a
  given set, or exactly the calls of a plan as long as every one is accepted; the plan of the filtering
  platform's set-up, and the cases of the minifilter's and the platform's registration.
\<close>

section \<open>Programs and their calls\<close>

text \<open>The calls a program makes: it extends the history by calls of a given set.\<close>

definition calls_in :: "call set \<Rightarrow> 'a sys \<Rightarrow> bool" where
  "calls_in C m \<longleftrightarrow> (\<forall>h. \<exists>rs. snd (run_state m h) = h @ rs \<and> fst ` set rs \<subseteq> C)"

lemma calls_in_basic:
  "calls_in C (State_Monad.return x)" "c \<in> C \<Longrightarrow> calls_in C (syscall S c)" "c \<in> C \<Longrightarrow> calls_in C (syshandle S c)"
  by (auto simp: calls_in_def)

lemma calls_in_bind:
  assumes "calls_in C m" "\<And>x. calls_in C (f x)"
  shows "calls_in C (State_Monad.bind m f)"
  unfolding calls_in_def
proof
  fix h
  obtain x h1 where m: "run_state m h = (x, h1)" by force
  then obtain rs where rs: "h1 = h @ rs" "fst ` set rs \<subseteq> C" using assms(1) unfolding calls_in_def by (metis snd_conv)
  obtain rs' where "snd (run_state (f x) h1) = h1 @ rs'" "fst ` set rs' \<subseteq> C" using assms(2) unfolding calls_in_def by blast
  then show "\<exists>rs. snd (run_state (State_Monad.bind m f) h) = h @ rs \<and> fst ` set rs \<subseteq> C"
    using m rs by (intro exI [of _ "rs @ rs'"]) (simp add: image_Un)
qed

lemma calls_in_if: "calls_in C m \<Longrightarrow> calls_in C n \<Longrightarrow> calls_in C (if b then m else n)"
  by simp

lemma calls_in_syscalls_until: "set cs \<subseteq> C \<Longrightarrow> calls_in C (syscalls_until failed S cs s)"
  by (induction cs arbitrary: s) (auto intro!: calls_in_basic calls_in_bind)

lemmas calls_in_intros = calls_in_basic calls_in_bind calls_in_if calls_in_syscalls_until

section \<open>The set-up of the driver\<close>

lemma calls_in_callouts: "calls_in UNIV (callouts_loop S fuel i)"
proof (induction fuel arbitrary: i)
  case (Suc fuel)
  then show ?case
    unfolding callouts_loop.simps Let_def
    by (auto intro!: calls_in_intros split: sum.split prod.split)
qed (simp add: callouts_loop.simps calls_in_basic)

lemma calls_in_filters: "calls_in UNIV (filters_loop S fs s)"
  by (induction fs arbitrary: s) (auto intro!: calls_in_intros)

lemma calls_in_registerCallouts: "calls_in UNIV (registerCallouts S)"
  by (simp add: registerCallouts_def calls_in_callouts)

lemma calls_in_setup: "calls_in UNIV (setupCalloutsAndFilters S)"
  unfolding setupCalloutsAndFilters_def setupFilters_def
  by (auto intro!: calls_in_intros calls_in_registerCallouts calls_in_filters split: option.split sum.split)

lemma calls_in_SetupWFP: "calls_in UNIV (SetupWFP S)"
  unfolding SetupWFP_def by (auto intro!: calls_in_intros calls_in_setup split: option.split sum.split)

lemma calls_in_network: "calls_in UNIV (register_network S G s)"
  unfolding register_network_def Let_def by (auto intro!: calls_in_intros calls_in_SetupWFP split: prod.split)

section \<open>Plans\<close>

text \<open>A program has a plan when it makes exactly these calls, with this result, as long as each of them is
  answered with \<open>STATUS_SUCCESS\<close>.\<close>

definition accepted :: "history \<Rightarrow> bool" where
  "accepted rs \<longleftrightarrow> list_all (\<lambda>(_, r). r = STATUS_SUCCESS) rs"

definition plans :: "call list \<Rightarrow> 'a \<Rightarrow> 'a sys \<Rightarrow> bool" where
  "plans cs x m \<longleftrightarrow> (\<forall>h. \<exists>rs. snd (run_state m h) = h @ rs
     \<and> (accepted rs \<longrightarrow> map fst rs = cs \<and> fst (run_state m h) = x))"

lemma plans_return: "plans [] x (State_Monad.return x)"
  by (simp add: plans_def)

lemma plans_bind:
  assumes "plans cs x m" "plans ds y (f x)" "\<And>z. calls_in UNIV (f z)"
  shows "plans (cs @ ds) y (State_Monad.bind m f)"
  unfolding plans_def
proof
  fix h
  obtain z h1 where m: "run_state m h = (z, h1)" by force
  then obtain rs where rs: "h1 = h @ rs" "accepted rs \<longrightarrow> map fst rs = cs \<and> z = x"
    using assms(1) unfolding plans_def by (metis fst_conv snd_conv)
  show "\<exists>rs. snd (run_state (State_Monad.bind m f) h) = h @ rs
     \<and> (accepted rs \<longrightarrow> map fst rs = cs @ ds \<and> fst (run_state (State_Monad.bind m f) h) = y)"
  proof (cases "accepted rs")
    case True
    then obtain rs' where "snd (run_state (f x) h1) = h1 @ rs'"
        "accepted rs' \<longrightarrow> map fst rs' = ds \<and> fst (run_state (f x) h1) = y"
      using assms(2) unfolding plans_def by blast
    then show ?thesis using m rs True by (intro exI [of _ "rs @ rs'"]) (simp add: accepted_def)
  next
    case False
    obtain rs' where "snd (run_state (f z) h1) = h1 @ rs'" using assms(3) unfolding calls_in_def by blast
    then show ?thesis using m rs False by (intro exI [of _ "rs @ rs'"]) (simp add: accepted_def)
  qed
qed

lemma plans_syscall:
  assumes "plans ds y (f STATUS_SUCCESS)" "\<And>z. calls_in UNIV (f z)"
  shows "plans (c # ds) y (State_Monad.bind (syscall S c) f)"
proof -
  have "plans [c] STATUS_SUCCESS (syscall S c)" by (simp add: plans_def accepted_def)
  from plans_bind [of "[c]" STATUS_SUCCESS "syscall S c" ds y f, OF this assms] show ?thesis by simp
qed

lemma plans_last: "plans [c] STATUS_SUCCESS (syscall S c)"
  by (simp add: plans_def accepted_def)

definition callout_calls :: "(wfp_layer \<times> GUID) list \<Rightarrow> call list" where
  "callout_calls rows = concat (map (\<lambda>(layer, key). [FwpsCalloutRegister key, FwpmCalloutAdd key layer]) rows)"

definition filter_calls :: "mm_filter list \<Rightarrow> call list" where
  "filter_calls fs = map (\<lambda>f. FwpmFilterAdd (fl_filterKey f) (fl_layerKey f) (fl_callout_key f)) fs"

text \<open>The calls of a set-up of the filtering platform in which nothing fails.\<close>

definition platform_calls :: "call list" where
  "platform_calls = [FwpmEngineOpen, FwpmProviderGetByKey MM_WFP_PROVIDER, FwpmProviderAdd MM_WFP_PROVIDER,
     FwpmTransactionBegin] @ callout_calls (take 10 callouts) @ [FwpmTransactionCommit, FwpmTransactionBegin]
     @ filter_calls (take 10 filters) @ [FwpmTransactionCommit, FwpmEngineClose]"

lemma plans_callouts:
  assumes "i \<le> 10" "10 < fuel + i"
  shows "plans (callout_calls (drop i (take 10 callouts))) (Some (Inr 10)) (callouts_loop S fuel (of_nat i))"
  using assms
proof (induction "10 - i" arbitrary: i fuel)
  case 0
  then obtain f where "fuel = Suc f" by (cases fuel) auto
  then show ?case using 0 by (simp add: callouts_loop.simps callout_calls_def plans_return)
next
  case (Suc n)
  then obtain f where f: "fuel = Suc f" by (cases fuel) auto
  have i: "i < 10" using Suc.hyps(2) by simp
  obtain layer key where row: "callouts ! i = (layer, key)" by force
  have u: "unat (of_nat i :: u32) = i" "(of_nat i :: u32) < 10"
    using i by (simp_all add: unat_of_nat_small word_less_nat_alt)
  have ix: "index callouts i = Inr (layer, key)" using i row by simp
  have calls: "callout_calls (drop i (take 10 callouts))
      = FwpsCalloutRegister key # FwpmCalloutAdd key layer # callout_calls (drop (Suc i) (take 10 callouts))"
    using i row by (simp add: callout_calls_def flip: Cons_nth_drop_Suc)
  have rest: "plans (callout_calls (drop (Suc i) (take 10 callouts))) (Some (Inr 10)) (callouts_loop S f (of_nat i + 1))"
    using Suc.hyps(1) [of "Suc i" f] Suc.hyps(2) Suc.prems f by (simp add: add.commute)
  show ?case
    unfolding calls f callouts_loop.simps using u ix
    by (simp, intro plans_syscall)
       (auto simp: Let_def rest intro!: plans_syscall calls_in_intros calls_in_callouts split: sum.split prod.split)
qed

lemma plans_filters: "plans (filter_calls fs) s (filters_loop S fs s)"
proof (induction fs arbitrary: s)
  case (Cons f fs)
  then show ?case
    using plans_syscall [of "filter_calls fs" s "\<lambda>r. filters_loop S fs (s OR r)"]
    by (simp add: filter_calls_def calls_in_filters)
qed (simp add: filter_calls_def plans_return)

lemma plans_registerCallouts: "plans (callout_calls (take 10 callouts)) (Some (Inr 10)) (registerCallouts S)"
  using plans_callouts [of 0 64 S] by (simp add: registerCallouts_def)

lemma plans_setupFilters: "plans (filter_calls (take 10 filters)) STATUS_SUCCESS (setupFilters S)"
  by (simp add: setupFilters_def plans_filters)

definition setup_calls :: "call list" where
  "setup_calls = FwpmTransactionBegin # callout_calls (take 10 callouts) @ FwpmTransactionCommit # FwpmTransactionBegin
     # filter_calls (take 10 filters) @ [FwpmTransactionCommit]"

lemma plans_setup: "plans setup_calls (Some (Inr STATUS_SUCCESS)) (setupCalloutsAndFilters S)"
  unfolding setupCalloutsAndFilters_def setup_calls_def
  by (rule plans_syscall, simp only: NT_SUCCESS_0 simp_thms if_False, rule plans_bind [OF plans_registerCallouts], simp,
      rule plans_syscall, simp only: NT_SUCCESS_0 simp_thms if_False, rule plans_syscall,
      simp only: NT_SUCCESS_0 simp_thms if_False, rule plans_bind [OF plans_setupFilters], rule plans_syscall)
     (auto intro!: plans_return calls_in_intros calls_in_registerCallouts calls_in_filters
      split: option.split sum.split simp: setupFilters_def)

lemma plans_SetupWFP: "plans platform_calls (Some (Inr STATUS_SUCCESS)) (SetupWFP S)"
proof -
  have calls: "platform_calls = FwpmEngineOpen # FwpmProviderGetByKey MM_WFP_PROVIDER # FwpmProviderAdd MM_WFP_PROVIDER
      # (setup_calls @ []) @ [FwpmEngineClose]"
    by (simp add: platform_calls_def setup_calls_def)
  show ?thesis
    unfolding SetupWFP_def calls
    by (rule plans_syscall, simp only: NT_SUCCESS_0 simp_thms if_False, rule plans_syscall, rule plans_syscall,
        simp only: NT_SUCCESS_0 simp_thms if_False, rule plans_bind, rule plans_bind [OF plans_setup])
       (auto intro!: plans_return plans_syscall calls_in_intros calls_in_setup split: option.split sum.split)
qed

text \<open>What the set-up of the network callbacks does: it subscribes to the state of the filtering engine, and when the
  engine runs it sets the platform up. Its failures stay without consequence.\<close>

lemma register_network_cases:
  assumes "run_state (register_network S G s) h = (Some (Inr (s', G')), h')" "WFP_CALLBACK G"
  shows "s' = s \<and> (\<exists>r net. h' = h @ (FwpmBfeStateSubscribeChanges, r) # net
    \<and> (if \<not> NT_SUCCESS r then net = [] \<and> G' = G
       else G' = G\<lparr>BFENotifyHandle := sys_handle S h FwpmBfeStateSubscribeChanges\<rparr>
         \<and> (\<exists>b w. net = (FwpmBfeStateGet, b) # w
              \<and> (if b \<noteq> FWPM_SERVICE_RUNNING then w = [] else accepted w \<longrightarrow> map fst w = platform_calls))))"
proof -
  define r b where "r = sys_status S h FwpmBfeStateSubscribeChanges"
    and "b = sys_status S (h @ [(FwpmBfeStateSubscribeChanges, r)]) FwpmBfeStateGet"
  let ?h = "h @ [(FwpmBfeStateSubscribeChanges, r), (FwpmBfeStateGet, b)]"
  obtain w where w: "snd (run_state (SetupWFP S) ?h) = ?h @ w" "accepted w \<longrightarrow> map fst w = platform_calls"
    using plans_SetupWFP unfolding plans_def by blast
  show ?thesis
  proof (cases "NT_SUCCESS r")
    case False
    then have "s' = s" "G' = G" "h' = h @ [(FwpmBfeStateSubscribeChanges, r)]"
      using assms by (auto simp: register_network_def Let_def r_def [symmetric])
    then show ?thesis using False by simp
  next
    case sub: True
    show ?thesis
    proof (cases "b = FWPM_SERVICE_RUNNING")
      case False
      then have "s' = s" "G' = G\<lparr>BFENotifyHandle := sys_handle S h FwpmBfeStateSubscribeChanges\<rparr>" "h' = ?h"
        using assms sub by (auto simp: register_network_def Let_def r_def [symmetric] b_def [symmetric])
      then show ?thesis using sub False by simp
    next
      case True
      then have "h' = ?h @ w" "s' = s" "G' = G\<lparr>BFENotifyHandle := sys_handle S h FwpmBfeStateSubscribeChanges\<rparr>"
        using assms sub w(1)
        by (auto simp: register_network_def Let_def r_def [symmetric] b_def [symmetric] andthen_Inr_iff split: prod.splits)
      then show ?thesis using sub True w(2) by simp
    qed
  qed
qed

section \<open>The minifilter\<close>

definition key_calls :: "call set" where
  "key_calls = {ZwOpenKey, ZwClose} \<union> range ZwCreateKey \<union> range ZwSetValueKey"

text \<open>The set-up of the keys makes no other calls, and one of them has failed when it fails.\<close>

lemma key_setup_calls: "calls_in key_calls (FsFilterRegistrySetup S)"
  unfolding FsFilterRegistrySetup_def by (intro calls_in_intros) (auto simp: key_calls_def)

lemma key_setup_fails:
  assumes "run_state (FsFilterRegistrySetup S) h = (status, h')" "\<not> NT_SUCCESS status"
  shows "\<exists>c s. (c, s) \<in> set h' \<and> c \<in> key_calls \<and> \<not> NT_SUCCESS s"
proof (cases "NT_SUCCESS (sys_status S h ZwOpenKey)")
  case False
  then have "(ZwOpenKey, sys_status S h ZwOpenKey) \<in> set h'"
    using assms(1) by (auto simp: FsFilterRegistrySetup_def)
  then show ?thesis using False by (auto simp: key_calls_def)
next
  case True
  let ?cs = "[ZwCreateKey ''Instances'', ZwSetValueKey ''DefaultInstance'',
          ZwCreateKey ''MoonMonFsFilterInstance'', ZwSetValueKey ''Altitude'', ZwSetValueKey ''Flags'']"
  let ?h1 = "h @ [(ZwOpenKey, sys_status S h ZwOpenKey)]"
  obtain s rs where r: "run_state (syscalls_until (\<lambda>s. \<not> NT_SUCCESS s) S ?cs (sys_status S h ZwOpenKey)) ?h1 = (s, ?h1 @ rs)"
    "prefix (map fst rs) ?cs" "if \<not> NT_SUCCESS s then rs \<noteq> [] \<and> snd (last rs) = s
      \<and> list_all (\<lambda>(c, r). \<not> \<not> NT_SUCCESS r) (butlast rs) else map fst rs = ?cs \<and> list_all (\<lambda>(c, r). \<not> \<not> NT_SUCCESS r) rs"
    using syscalls_until_history [of "\<lambda>s. \<not> NT_SUCCESS s" "sys_status S h ZwOpenKey" S ?cs ?h1] True by blast
  have same: "s = status" "set rs \<subseteq> set h'"
    using assms(1) True r(1) by (auto simp: FsFilterRegistrySetup_def split_def simp del: syscalls_until.simps)
  then have bad: "rs \<noteq> []" "snd (last rs) = status" using r(3) assms(2) by simp_all
  have "fst (last rs) \<in> set ?cs" using set_mono_prefix [OF r(2)] last_in_set [OF bad(1)] by force
  then have "fst (last rs) \<in> key_calls" by (auto simp: key_calls_def)
  moreover have "(fst (last rs), status) \<in> set h'" using last_in_set [OF bad(1)] same(2) bad(2) by auto
  ultimately show ?thesis using assms(2) by blast
qed

lemma register_files_calls:
  "calls_in (key_calls \<union> {FltRegisterFilter, FltStartFiltering, FltUnregisterFilter}) (register_files S G s)"
proof -
  have "calls_in (key_calls \<union> {FltRegisterFilter, FltStartFiltering, FltUnregisterFilter}) (FsFilterRegistrySetup S)"
    using key_setup_calls [of S] unfolding calls_in_def by blast
  then show ?thesis unfolding register_files_def by (auto intro!: calls_in_intros)
qed

lemma register_files_cases:
  assumes "run_state (register_files S G s) h = ((s', on), h')"
  obtains (off) "\<not> FILE_CALLBACK G" "on" "h' = h"
  | (keys) ks where "\<not> on" "h' = h @ ks" "fst ` set ks \<subseteq> key_calls"
      "\<exists>c s. (c, s) \<in> set h' \<and> c \<in> key_calls \<and> \<not> NT_SUCCESS s"
  | (started) "on" "{(FltRegisterFilter, STATUS_SUCCESS), (FltStartFiltering, STATUS_SUCCESS)} \<subseteq> set h'" "set h \<subseteq> set h'"
  | (failed) "\<not> on" "s' \<noteq> STATUS_SUCCESS"
proof (cases "FILE_CALLBACK G")
  case False
  then show thesis using assms off by (simp add: register_files_def)
next
  case True
  obtain k h1 where k: "run_state (FsFilterRegistrySetup S) h = (k, h1)" by force
  obtain ks where ks: "h1 = h @ ks" "fst ` set ks \<subseteq> key_calls"
    using key_setup_calls [of S] k unfolding calls_in_def by (metis snd_conv)
  show thesis
  proof (cases "NT_SUCCESS k")
    case False
    then have "\<not> on" "h' = h1" using assms True k by (auto simp: register_files_def)
    then show thesis using keys [of ks] ks key_setup_fails [OF k False] by simp
  next
    case ok: True
    show thesis
    proof (cases "on")
      case on: True
      then have "h' = h1 @ [(FltRegisterFilter, STATUS_SUCCESS), (FltStartFiltering, STATUS_SUCCESS)]"
        using assms True k ok by (auto simp: register_files_def split: if_splits)
      then show thesis using ks(1) on by (intro started) auto
    next
      case off: False
      then show thesis using failed assms True k ok by (auto simp: register_files_def split: if_splits)
    qed
  qed
qed

end
