(* ===== verification/MM_Driver_Properties.thy ===== *)
theory MM_Driver_Properties
  imports MM_Init_Soundness MM_Request_Properties MM_Registration
begin

text \<open>
  The driver as a whole: what a successful start leaves, which sequences of events it survives and at which
  event the others stop it, how long a client keeps its place, what it reads of an event, and what the stop
  gives back.
\<close>

section \<open>Running\<close>

text \<open>C2: Any sequence of events, in whatever order the kernel calls the entry points and however the rules
  decide, from a sound state, with well-formed arguments and no failing allocation. As long as fewer than 32000
  processes have been created in all, and no operation on a handle is the kernel's when tampering is resisted:
  without a hazard the run ends, the state is sound, and the rules and switches are what they were; with one it
  faults, with the fault of the first hazard. The hazards are the load of an image whose name cannot be had, for which the
  callback frees a local variable, and a network event with fewer fields than the callback reads.\<close>
theorem driver_runs_until_hazard:
  assumes "driver_ok G" "list_all event_ok cs" "unat (NEW_PROCS_INDEX G) + creations cs < 32000"
    and "RESIST_TAMPERING G \<Longrightarrow> list_all (\<lambda>c. \<not> kernel_handle c) cs"
  shows "case first_hazard cs of
      None \<Rightarrow> \<exists>G'. run_driver cs G = Some (Inr G') \<and> driver_ok G' \<and> gc_list G' = gc_list G
        \<and> gc_COUNT G' = gc_COUNT G \<and> flags G' = flags G \<and> gc_State G' = gc_State G
    | Some e \<Rightarrow> run_driver cs G = Some (Inl e)"
proof (cases "first_hazard cs")
  case None
  obtain G' where "run_driver cs G = Some (Inr G')" "driver_ok G'" "only_session G G'"
    by (rule run_driver_sound [OF assms None])
  then show ?thesis using None only_session_fields [of G G'] by auto
next
  case (Some e)
  then show ?thesis using run_driver_outcome [OF assms(1-3)] assms(4) by auto
qed

text \<open>A process is created, a network connection is made, an image is loaded, the process exits, and a client
  opens the device, reads and closes it; then an image without a name, or a socket that listens.\<close>

definition sample_call :: "driver_event \<Rightarrow> driver_call" where
  "sample_call e = \<lparr>dc_rtl = ref_rtl, dc_kernel = sample_kernel, dc_headers = sample_headers, dc_event = e\<rparr>"

definition sample_run :: "driver_call list" where
  "sample_run = map sample_call [ClientOpen, ProcessNotify 60 (Ptr page sample_create), NetClassify sample_connection,
     ImageLoad 60 (nameless_image\<lparr>ie_FullImageName := ustr ''f''\<rparr>), ClientRead 100 True, ProcessNotify 60 Null, ClientClose]"

lemma sample_off_stack: "off_stack ref_rtl sample_kernel"
  by (simp add: off_stack_def ref_rtl_def sample_kernel_def stack_def)

lemma sample_files: "wf_file_names sample_kernel"
  by (simp add: wf_file_names_def sample_kernel_def)

lemma sample_events:
  "wf_net_event sample_connection" "fields_there sample_headers sample_connection"
  "wf_net_event sample_listening" "\<not> fields_there sample_headers sample_listening"
  "wf_str (ustr ''f'')"
  "image_name ref_rtl sample_kernel (nameless_image\<lparr>ie_FullImageName := ustr ''f''\<rparr>) \<noteq> (Null, local empty_ustr)"
  "image_name ref_rtl sample_kernel nameless_image = (Null, local empty_ustr)"
  by code_simp+

lemma sample_run_ok: "list_all event_ok sample_run" "creations sample_run = 1" "first_hazard sample_run = None"
  using sample_off_stack sample_files sample_events
  by (simp_all add: sample_run_def sample_call_def event_ok_def creations_def creates_def wf_create_def
      sample_create_def ref_rtl_ample hazard_def)

text \<open>The same run with an image without a name, and with a socket that listens, before the client closes.\<close>

definition nameless_run :: "driver_call list" where
  "nameless_run = sample_run @ map sample_call [ImageLoad 4 nameless_image, NetClassify sample_listening, ClientClose]"

definition listening_run :: "driver_call list" where
  "listening_run = sample_run @ map sample_call [NetClassify sample_listening, ImageLoad 4 nameless_image, ClientClose]"

lemma first_hazard_append:
  "first_hazard (cs @ ds) = (case first_hazard cs of None \<Rightarrow> first_hazard ds | Some e \<Rightarrow> Some e)"
  by (induction cs) (auto split: option.split)

lemma hazard_runs_ok:
  "list_all event_ok nameless_run" "creations nameless_run = 1" "first_hazard nameless_run = Some BadFree"
  "list_all event_ok listening_run" "creations listening_run = 1" "first_hazard listening_run = Some OutOfBounds"
  using sample_run_ok sample_off_stack sample_files sample_events
  by (simp_all add: nameless_run_def listening_run_def sample_call_def event_ok_def creations_def creates_def
      ref_rtl_ample hazard_def first_hazard_append nameless_image_def)

lemma driver_runs_until_hazard_witness:
  "(\<exists>G'. run_driver sample_run started_gc = Some (Inr G') \<and> driver_ok G' \<and> gc_State G' = INITIALIZED)
   \<and> run_driver nameless_run started_gc = Some (Inl BadFree) \<and> run_driver listening_run started_gc = Some (Inl OutOfBounds)"
proof -
  have 1: "unat (NEW_PROCS_INDEX started_gc) + creations cs < 32000" if "creations cs = 1" for cs by (simp add: that)
  have 2: "RESIST_TAMPERING started_gc \<Longrightarrow> list_all (\<lambda>c. \<not> kernel_handle c) cs" for cs by simp
  note run = driver_runs_until_hazard [OF started_ok _ 1 2]
  show ?thesis
    using run [OF sample_run_ok(1,2)] run [OF hazard_runs_ok(1,2)] run [OF hazard_runs_ok(4,5)]
      sample_run_ok(3) hazard_runs_ok(3,6) by auto
qed

section \<open>Clients\<close>

text \<open>C14: A client that has opened the device keeps its place, and everyone else is denied, through any
  sequence of events, with well-formed arguments and no failing allocation, in which nobody closes the device and
  the client does not exit; the run ends then, unless it comes to a hazard, where it faults. But the place is lost when any process
  closes the device, whoever it is. Fewer than 32000 processes have been created in all, and no operation on a
  handle is the kernel's when tampering is resisted.\<close>
theorem client_keeps_session:
  assumes "driver_ok G" "list_all event_ok cs" "unat (NEW_PROCS_INDEX G) + creations cs < 32000"
    and "RESIST_TAMPERING G \<Longrightarrow> list_all (\<lambda>c. \<not> kernel_handle c) cs"
    and "0 <s clientpid G" "list_all (\<lambda>c. \<not> ends_session (clientpid G) c) cs"
  shows "case first_hazard cs of Some e \<Rightarrow> run_driver cs G = Some (Inl e)
    | None \<Rightarrow> \<exists>G'. run_driver cs G = Some (Inr G') \<and> clientpid G' = clientpid G
      \<and> (\<forall>K a. MoonMonDispatchCreate K (Ptr a G') = Inr (STATUS_RESOURCE_IN_USE, STATUS_SUCCESS, Ptr a G'))
      \<and> (\<forall>K a. \<exists>G''. MoonMonDispatchClose K (Ptr a G') = Inr (STATUS_SUCCESS, STATUS_SUCCESS, Ptr a G'')
          \<and> clientpid G'' = - 1)"
proof (cases "first_hazard cs")
  case (Some e)
  then show ?thesis using run_driver_outcome [OF assms(1-3)] assms(4) by auto
next
  case None
  obtain G' where G': "run_driver cs G = Some (Inr G')" "driver_ok G'" "client_path (clientpid G) cs (clientpid G')"
    by (rule run_driver_sound [OF assms(1-4) None])
  have keep: "clientpid G' = clientpid G" by (rule client_kept [OF G'(3) assms(5,6)])
  have "\<exists>G''. MoonMonDispatchClose K (Ptr a G') = Inr (STATUS_SUCCESS, STATUS_SUCCESS, Ptr a G'') \<and> clientpid G'' = - 1"
    for K a
  proof -
    obtain s f q G'' where one: "find_process (G'\<lparr>clientpid := - 1\<rparr>) (PsGetCurrentProcessId K) Null = (s, f, q, G'')"
      using prod_cases4 by blast
    then show ?thesis
      using client_found_fields [OF client_found [OF G'(2) one]] by (simp add: MoonMonDispatchClose_def)
  qed
  then show ?thesis
    using None G'(1) keep assms(5) by (auto simp: MoonMonDispatchCreate_def)
qed

lemma client_keeps_session_witness:
  "\<exists>G'. run_driver (map sample_call [ClientRead 100 True, ClientOpen]) (started_gc\<lparr>clientpid := 44\<rparr>) = Some (Inr G')
    \<and> clientpid G' = 44"
proof -
  let ?cs = "map sample_call [ClientRead 100 True, ClientOpen]" and ?G = "started_gc\<lparr>clientpid := 44\<rparr>"
  have 1: "list_all event_ok ?cs" "unat (NEW_PROCS_INDEX ?G) + creations ?cs < 32000"
    "RESIST_TAMPERING ?G \<Longrightarrow> list_all (\<lambda>c. \<not> kernel_handle c) ?cs"
    "list_all (\<lambda>c. \<not> ends_session (clientpid ?G) c) ?cs" "first_hazard ?cs = None"
    by (simp_all add: sample_call_def event_ok_def creations_def creates_def ends_session_def ref_rtl_ample hazard_def)
  have "0 <s (44 :: u64)" by code_simp
  then have 2: "0 <s clientpid ?G" by simp
  have "driver_ok ?G" by simp
  from client_keeps_session [OF this 1(1-3) 2 1(4)] 1(5) show ?thesis by auto
qed

section \<open>Starting\<close>

text \<open>C5: When the start succeeds, on a machine with at most \<open>n\<close> processes, the driver is in a sound,
  initialised state without a client and with every callback switched on, whatever the configuration
  says. From there, before \<open>31999 - n\<close> more processes have been created, and, if the configuration resists
  tampering, while no operation on a handle is the kernel's, any sequence of events with well-formed arguments
  and no failing allocation ends in a sound state when none of them is a hazard, and faults with the fault of the first hazard
  otherwise.\<close>
theorem started_driver_runs:
  assumes "pool_valid R" "wf_kernel K" "few_processes n Q"
    and "fst (run_state (InitMoonMon R Z K Q fuel S) h) = Some (Inr (status, q))" "NT_SUCCESS status"
  shows "\<exists>a G. q = Ptr a G \<and> driver_ok G \<and> gc_State G = INITIALIZED \<and> clientpid G = - 1
    \<and> list_all id [PROCESS_CALLBACK G, THREAD_CALLBACK G, MODULE_CALLBACK G, OBJECT_CALLBACK G,
        REGISTRY_CALLBACK G, FILE_CALLBACK G, WFP_CALLBACK G]
    \<and> (\<forall>cs. list_all event_ok cs \<and> n + creations cs < 31999
          \<and> (RESIST_TAMPERING G \<longrightarrow> list_all (\<lambda>c. \<not> kernel_handle c) cs) \<longrightarrow>
        (case first_hazard cs of None \<Rightarrow> \<exists>G'. run_driver cs G = Some (Inr G') \<and> driver_ok G'
         | Some e \<Rightarrow> run_driver cs G = Some (Inl e)))"
proof -
  obtain a G where G: "q = Ptr a G" "driver_ok G" "clientpid G = - 1" "list_all id (take 7 (flags G))"
    "gc_State G = INITIALIZED" "unat (NEW_PROCS_INDEX G) \<le> n + 1"
    by (rule InitMoonMon_sound [OF assms])
  have "case first_hazard cs of None \<Rightarrow> \<exists>G'. run_driver cs G = Some (Inr G') \<and> driver_ok G'
      | Some e \<Rightarrow> run_driver cs G = Some (Inl e)"
    if "list_all event_ok cs" "n + creations cs < 31999" "RESIST_TAMPERING G \<Longrightarrow> list_all (\<lambda>c. \<not> kernel_handle c) cs" for cs
    using run_driver_outcome [OF G(2) that(1) _ that(3)] that(2) G(6) by (auto simp: run_sound_def split: option.splits)
  moreover have "take 7 (flags G) = [PROCESS_CALLBACK G, THREAD_CALLBACK G, MODULE_CALLBACK G, OBJECT_CALLBACK G,
      REGISTRY_CALLBACK G, FILE_CALLBACK G, WFP_CALLBACK G]" by (simp add: flags_def)
  ultimately show ?thesis using G by (intro exI [of _ a] exI [of _ G]) simp
qed

text \<open>A start with an empty registry, on a machine without processes, where every call succeeds and the
  filtering engine is not running.\<close>

definition empty_registry :: registry where
  "empty_registry = \<lparr>ZwOpenKey_service = STATUS_SUCCESS, ZwOpenKey_Settings = STATUS_SUCCESS,
     ZwEnumerateValueKey = \<lambda>_ _. (STATUS_NO_MORE_ENTRIES, 0, []), ZwQueryValueKey_size = \<lambda>_. (STATUS_SUCCESS, 0),
     ZwQueryValueKey = \<lambda>_ _. (STATUS_NO_MEMORY, \<lparr>vi_Type = 0, vi_Data = []\<rparr>)\<rparr>"

definition willing_system :: system where
  "willing_system = \<lparr>sys_status = \<lambda>_ _. STATUS_SUCCESS, sys_handle = \<lambda>_ _. 9,
     STORE_DATA_STRUCTURE_CORRUPTION = 0, sizeof_GC = 1000\<rparr>"

lemma sample_start:
  "\<exists>q. fst (run_state (InitMoonMon ref_rtl empty_registry sample_kernel (\<lambda>_. (STATUS_SUCCESS, [])) (Suc 0) willing_system) [])
    = Some (Inr (STATUS_SUCCESS, q))"
proof -
  have pool: "pool_valid ref_rtl" by (simp add: pool_valid_def ref_rtl_def VALID_PAGE_def)
  obtain s G where i: "initConfigLists ref_rtl zeroed_gc = (s, G)" by force
  note r = init_ready [OF pool i, of sample_kernel]
  have a: "ExAllocatePool2 ref_rtl k n \<noteq> 0" for k n by (simp add: ref_rtl_def)
  have "LoadConfig ref_rtl empty_registry (Suc 0) H = Some (Inr (STATUS_SUCCESS, H))" for H
    by (simp add: LoadConfig_def empty_registry_def a)
  moreover have "startupKillBlockedProcesses ref_rtl sample_kernel (\<lambda>_. (STATUS_SUCCESS, [])) (Suc 0) H = Some (Inr (H, [], []))" for H
    by (simp add: startupKillBlockedProcesses_def a)
  moreover have "PROCESS_CALLBACK (init_globals sample_kernel G)" by (simp add: init_globals_def)
  ultimately have "init_context ref_rtl empty_registry sample_kernel (\<lambda>_. (STATUS_SUCCESS, [])) (Suc 0)
      = Some (Inr (STATUS_SUCCESS, init_globals sample_kernel G, []))"
    using r by (simp add: init_context_def i)
  moreover define H where "H = init_globals sample_kernel G"
  moreover have "gc_tag H = GANYMEDE" "PROCESS_CALLBACK H" "THREAD_CALLBACK H" "MODULE_CALLBACK H" "OBJECT_CALLBACK H"
    "REGISTRY_CALLBACK H" "FILE_CALLBACK H" "WFP_CALLBACK H"
    by (simp_all add: H_def init_globals_def)
  ultimately show ?thesis
    by (simp add: InitMoonMon_def a registerCallbacks_def notify_calls_def Let_def
        register_object_def register_registry_def register_files_def register_network_def FsFilterRegistrySetup_def
        willing_system_def)
qed

lemma started_driver_runs_witness:
  "\<exists>a G. fst (run_state (InitMoonMon ref_rtl empty_registry sample_kernel (\<lambda>_. (STATUS_SUCCESS, [])) (Suc 0) willing_system) [])
      = Some (Inr (STATUS_SUCCESS, Ptr a G)) \<and> gc_State G = INITIALIZED
    \<and> (\<exists>G'. run_driver sample_run G = Some (Inr G') \<and> driver_ok G') \<and> run_driver nameless_run G = Some (Inl BadFree)"
proof -
  have 1: "pool_valid ref_rtl" by (simp add: pool_valid_def ref_rtl_def VALID_PAGE_def)
  have 2: "few_processes 0 (\<lambda>_. (STATUS_SUCCESS, []))" by (simp add: few_processes_def)
  have 3: "NT_SUCCESS STATUS_SUCCESS" by simp
  obtain q where q: "fst (run_state (InitMoonMon ref_rtl empty_registry sample_kernel (\<lambda>_. (STATUS_SUCCESS, [])) (Suc 0)
      willing_system) []) = Some (Inr (STATUS_SUCCESS, q))" using sample_start by blast
  have 4: "list_all event_ok cs \<and> 0 + creations cs < 31999 \<and> (b \<longrightarrow> list_all (\<lambda>c. \<not> kernel_handle c) cs)"
    if "cs = sample_run \<or> cs = nameless_run" for cs b
    using that sample_run_ok hazard_runs_ok by (auto simp: sample_run_def nameless_run_def sample_call_def kernel_handle_def)
  obtain a G where G: "q = Ptr a G" "gc_State G = INITIALIZED"
    "\<forall>cs. list_all event_ok cs \<and> 0 + creations cs < 31999 \<and> (RESIST_TAMPERING G \<longrightarrow> list_all (\<lambda>c. \<not> kernel_handle c) cs) \<longrightarrow>
        (case first_hazard cs of None \<Rightarrow> \<exists>G'. run_driver cs G = Some (Inr G') \<and> driver_ok G'
         | Some e \<Rightarrow> run_driver cs G = Some (Inl e))"
    using started_driver_runs [OF 1 sample_kernel_ok(1) 2 q 3] by blast
  have "\<exists>G'. run_driver sample_run G = Some (Inr G') \<and> driver_ok G'"
    using spec [OF G(3), of sample_run] 4 [of sample_run] sample_run_ok(3) by simp
  moreover have "run_driver nameless_run G = Some (Inl BadFree)"
    using spec [OF G(3), of nameless_run] 4 [of nameless_run] hazard_runs_ok(3) by simp
  ultimately show ?thesis using q G(1,2) by blast
qed

text \<open>The stages of a successful registration, with the calls made before the minifilter.\<close>

lemma registration_stages:
  assumes "gc_tag G = GANYMEDE" "run_state (registerCallbacks S G) [] = (Some (Inr (STATUS_SUCCESS, G')), h)"
  obtains rs G2 s3 on h3 h4 where "map fst rs = notify_calls G" "list_all (\<lambda>(c, r). r = STATUS_SUCCESS) rs"
    "h3 = rs @ (if OBJECT_CALLBACK G then [(ObRegisterCallbacks, STATUS_SUCCESS)] else [])
      @ (if REGISTRY_CALLBACK G then [(CmRegisterCallbackEx, STATUS_SUCCESS)] else [])"
    "registers G G2" "run_state (register_files S G2 STATUS_SUCCESS) h3 = ((s3, on), h4)"
    "if on then run_state (register_network S G2 s3) h4 = (Some (Inr (STATUS_SUCCESS, G')), h)
      else s3 = STATUS_SUCCESS \<and> h = h4"
proof -
  obtain st h1 where c: "run_state (syscalls_until (\<lambda>s. s \<noteq> STATUS_SUCCESS) S (notify_calls G) STATUS_SUCCESS) [] = (st, h1)"
    by force
  obtain s1 G1 h2 where ob: "run_state (register_object S G) h1 = ((s1, G1), h2)" by (metis prod.exhaust)
  obtain s2 G2 h3 where re: "run_state (register_registry S G1) h2 = ((s2, G2), h3)" by (metis prod.exhaust)
  obtain s3 on h4 where fi: "run_state (register_files S G2 s2) h3 = ((s3, on), h4)" by (metis prod.exhaust)
  have ok: "st = STATUS_SUCCESS" "s1 = STATUS_SUCCESS" "s2 = STATUS_SUCCESS"
    "if on then run_state (register_network S G2 s3) h4 = (Some (Inr (STATUS_SUCCESS, G')), h) else s3 = STATUS_SUCCESS \<and> h = h4"
    using assms fi by (auto simp: registerCallbacks_def c ob re split: if_splits)
  obtain rs where h1: "h1 = rs" "map fst rs = notify_calls G" "list_all (\<lambda>(c, r). r = STATUS_SUCCESS) rs"
    using syscalls_until_history [of "\<lambda>s. s \<noteq> STATUS_SUCCESS" STATUS_SUCCESS S "notify_calls G" "[]"] c ok(1)
    by (auto split: if_splits)
  have h2: "h2 = h1 @ (if OBJECT_CALLBACK G then [(ObRegisterCallbacks, STATUS_SUCCESS)] else [])" "registers G G1"
    using ob ok(2) registers_object [of G S h1] by (auto simp: register_object_def split: if_splits)
  have h3: "h3 = h2 @ (if REGISTRY_CALLBACK G then [(CmRegisterCallbackEx, STATUS_SUCCESS)] else [])" "registers G G2"
    using re ok(3) registers_trans [OF h2(2)] registers_registry [of G1 S h2] h2(2)
    by (auto simp: register_registry_def registers_def split: if_splits)
  show thesis by (rule that [OF h1(2,3) _ h3(2) fi [unfolded ok(3)] ok(4)]) (simp add: h1(1) h2(1) h3(1))
qed

text \<open>C18: When registering the callbacks succeeds, the routines for processes, threads and images and the
  callbacks for handles and for the registry that are switched on have been accepted. The minifilter has been
  registered and started, or else one of the calls that set up its registry keys has failed and neither
  the minifilter nor anything of the filtering platform has been asked for: the failure is not
  reported. Otherwise, with the network callback switched on, the driver has asked to hear of the filtering
  engine's state; with that accepted it keeps the handle and asks for the state; and when the engine
  runs it has made all the calls that register the provider, ten callouts and ten filters, each of them
  accepted, or one of them was not: these failures are not reported either. Switched off, nothing is asked.\<close>
theorem success_means_registered:
  assumes "gc_tag G = GANYMEDE" "run_state (registerCallbacks S G) [] = (Some (Inr (STATUS_SUCCESS, G')), h)"
  shows "(\<forall>c \<in> set (notify_calls G @ (if OBJECT_CALLBACK G then [ObRegisterCallbacks] else [])
        @ (if REGISTRY_CALLBACK G then [CmRegisterCallbackEx] else [])). (c, STATUS_SUCCESS) \<in> set h)
    \<and> (FILE_CALLBACK G \<longrightarrow> {(FltRegisterFilter, STATUS_SUCCESS), (FltStartFiltering, STATUS_SUCCESS)} \<subseteq> set h
      \<or> (\<exists>c s. (c, s) \<in> set h \<and> c \<in> key_calls \<and> \<not> NT_SUCCESS s)
        \<and> (\<forall>c \<in> fst ` set h. c \<in> key_calls \<union> set (notify_calls G) \<union> {ObRegisterCallbacks, CmRegisterCallbackEx}))
    \<and> (WFP_CALLBACK G \<and> (FILE_CALLBACK G \<longrightarrow> (FltStartFiltering, STATUS_SUCCESS) \<in> set h) \<longrightarrow>
      (\<exists>hc r net. h = hc @ (FwpmBfeStateSubscribeChanges, r) # net
        \<and> (if \<not> NT_SUCCESS r then net = []
           else BFENotifyHandle G' = sys_handle S hc FwpmBfeStateSubscribeChanges
             \<and> (\<exists>b w. net = (FwpmBfeStateGet, b) # w
                 \<and> (if b \<noteq> FWPM_SERVICE_RUNNING then w = []
                    else map fst w = platform_calls \<or> (\<exists>(c, s) \<in> set w. s \<noteq> STATUS_SUCCESS))))))
    \<and> (\<not> WFP_CALLBACK G \<longrightarrow> FwpmBfeStateSubscribeChanges \<notin> fst ` set h)"
proof -
  obtain rs G2 s3 on h3 h4 where st: "map fst rs = notify_calls G" "list_all (\<lambda>(c, r). r = STATUS_SUCCESS) rs"
    "h3 = rs @ (if OBJECT_CALLBACK G then [(ObRegisterCallbacks, STATUS_SUCCESS)] else [])
      @ (if REGISTRY_CALLBACK G then [(CmRegisterCallbackEx, STATUS_SUCCESS)] else [])"
    "registers G G2" "run_state (register_files S G2 STATUS_SUCCESS) h3 = ((s3, on), h4)"
    "if on then run_state (register_network S G2 s3) h4 = (Some (Inr (STATUS_SUCCESS, G')), h)
      else s3 = STATUS_SUCCESS \<and> h = h4"
    by (rule registration_stages [OF assms])
  obtain rs' where h: "h = h4 @ rs'"
    using st(6) calls_in_network [of S G2 s3] unfolding calls_in_def by (metis append_Nil2 snd_conv)
  have sub: "set h4 \<subseteq> set h" using h by auto
  have "(c, STATUS_SUCCESS) \<in> set rs" if n: "c \<in> set (notify_calls G)" for c
  proof -
    obtain r where "(c, r) \<in> set rs" using n unfolding st(1) [symmetric] by auto
    then show ?thesis using st(2) by (auto simp: list_all_iff)
  qed
  then have all: "\<forall>c \<in> set (notify_calls G @ (if OBJECT_CALLBACK G then [ObRegisterCallbacks] else [])
        @ (if REGISTRY_CALLBACK G then [CmRegisterCallbackEx] else [])). (c, STATUS_SUCCESS) \<in> set h3"
    using st(3) by auto
  have kinds: "fst ` set h3 \<subseteq> set (notify_calls G) \<union> {ObRegisterCallbacks, CmRegisterCallbackEx}"
    unfolding st(1) [symmetric] st(3) by auto
  have flag: "FILE_CALLBACK G2 = FILE_CALLBACK G" "WFP_CALLBACK G2 = WFP_CALLBACK G"
    using st(4) by (auto simp: registers_def)
  obtain fs where fs: "h4 = h3 @ fs" "fst ` set fs \<subseteq> key_calls \<union> {FltRegisterFilter, FltStartFiltering, FltUnregisterFilter}"
    using register_files_calls [of S G2 STATUS_SUCCESS] st(5) unfolding calls_in_def by (metis snd_conv)
  have off: "FwpmBfeStateSubscribeChanges \<notin> fst ` set h" if "\<not> WFP_CALLBACK G"
  proof -
    have "h = h4" using st(6) that flag(2) by (cases on) (simp_all add: register_network_def)
    moreover have "FwpmBfeStateSubscribeChanges \<notin> fst ` set h3" "FwpmBfeStateSubscribeChanges \<notin> fst ` set fs"
      using kinds fs(2) by (auto simp: key_calls_def notify_calls_def split: if_splits)
    ultimately show ?thesis using fs(1) by auto
  qed
  have net: "\<exists>hc r net. h = hc @ (FwpmBfeStateSubscribeChanges, r) # net
        \<and> (if \<not> NT_SUCCESS r then net = []
           else BFENotifyHandle G' = sys_handle S hc FwpmBfeStateSubscribeChanges
             \<and> (\<exists>b w. net = (FwpmBfeStateGet, b) # w
                 \<and> (if b \<noteq> FWPM_SERVICE_RUNNING then w = []
                    else map fst w = platform_calls \<or> (\<exists>(c, s) \<in> set w. s \<noteq> STATUS_SUCCESS))))"
    if "WFP_CALLBACK G" "on"
  proof -
    have run: "run_state (register_network S G2 s3) h4 = (Some (Inr (STATUS_SUCCESS, G')), h)" using st(6) that(2) by simp
    have wfp: "WFP_CALLBACK G2" using that(1) flag(2) by simp
    obtain r net where n: "h = h4 @ (FwpmBfeStateSubscribeChanges, r) # net"
      "if \<not> NT_SUCCESS r then net = [] \<and> G' = G2
       else G' = G2\<lparr>BFENotifyHandle := sys_handle S h4 FwpmBfeStateSubscribeChanges\<rparr>
         \<and> (\<exists>b w. net = (FwpmBfeStateGet, b) # w
              \<and> (if b \<noteq> FWPM_SERVICE_RUNNING then w = [] else accepted w \<longrightarrow> map fst w = platform_calls))"
      using register_network_cases [OF run wfp] by blast
    have bad: "\<not> accepted w \<longleftrightarrow> (\<exists>(c, s) \<in> set w. s \<noteq> STATUS_SUCCESS)" for w
      by (auto simp: accepted_def list_all_iff)
    show ?thesis
      by (rule exI [of _ h4], rule exI [of _ r], rule exI [of _ net]) (use n bad in \<open>auto split: if_splits\<close>)
  qed
  show ?thesis
  proof (cases rule: register_files_cases [OF st(5)])
    case 1
    then show ?thesis using all sub flag(1) net off by auto
  next
    case (2 ks)
    then have h4: "h = h4" using st(6) by simp
    then have only: "\<forall>c \<in> fst ` set h. c \<in> key_calls \<union> set (notify_calls G) \<union> {ObRegisterCallbacks, CmRegisterCallbackEx}"
      using 2(2,3) kinds by auto
    moreover have "FltStartFiltering \<notin> key_calls \<union> set (notify_calls G) \<union> {ObRegisterCallbacks, CmRegisterCallbackEx}"
      by (auto simp: key_calls_def notify_calls_def)
    ultimately have "(FltStartFiltering, STATUS_SUCCESS) \<notin> set h" by force
    moreover have "FILE_CALLBACK G"
      using 2(1) st(5) flag(1) by (cases "FILE_CALLBACK G") (auto simp: register_files_def)
    ultimately show ?thesis using 2 h4 all only off by auto
  next
    case 3
    then show ?thesis using all sub net off by auto
  next
    case 4
    then show ?thesis using st(6) by simp
  qed
qed

definition keyless_system :: system where
  "keyless_system = willing_system\<lparr>sys_status := \<lambda>_ c. if c = ZwOpenKey then STATUS_NO_MEMORY else STATUS_SUCCESS\<rparr>"

text \<open>The filtering engine runs, but it cannot be opened: nothing of the platform is registered, and the start
  succeeds.\<close>

definition closed_engine :: system where
  "closed_engine = willing_system\<lparr>sys_status := \<lambda>_ c. if c = FwpmBfeStateGet then FWPM_SERVICE_RUNNING
     else if c = FwpmEngineOpen then STATUS_NO_MEMORY else STATUS_SUCCESS\<rparr>"

lemma success_means_registered_witness:
  "(\<exists>G' h. run_state (registerCallbacks keyless_system blank_gc) [] = (Some (Inr (STATUS_SUCCESS, G')), h)
    \<and> (ObRegisterCallbacks, STATUS_SUCCESS) \<in> set h \<and> FltRegisterFilter \<notin> fst ` set h)
   \<and> (\<exists>G' h hc net. run_state (registerCallbacks closed_engine blank_gc) [] = (Some (Inr (STATUS_SUCCESS, G')), h)
        \<and> h = hc @ (FwpmBfeStateSubscribeChanges, STATUS_SUCCESS) # net \<and> BFENotifyHandle G' = 9
        \<and> (FwpmEngineOpen, STATUS_NO_MEMORY) \<in> set h)"
proof (rule conjI)
  have 1: "gc_tag blank_gc = GANYMEDE" by (simp add: blank_gc_def)
  have "\<not> NT_SUCCESS STATUS_NO_MEMORY" by (simp add: NT_SUCCESS_def)
  then obtain G' h where 2: "run_state (registerCallbacks keyless_system blank_gc) [] = (Some (Inr (STATUS_SUCCESS, G')), h)"
      "(ObRegisterCallbacks, STATUS_SUCCESS) \<in> set h \<and> (FltRegisterFilter, STATUS_SUCCESS) \<notin> set h"
    by (simp add: registerCallbacks_def 1 notify_calls_def register_object_def register_registry_def
        register_files_def FsFilterRegistrySetup_def keyless_system_def blank_gc_def)
  have "FILE_CALLBACK blank_gc" by (simp add: blank_gc_def)
  then have "\<forall>c \<in> fst ` set h. c \<in> key_calls \<union> set (notify_calls blank_gc) \<union> {ObRegisterCallbacks, CmRegisterCallbackEx}"
    using success_means_registered [OF 1 2(1)] 2(2) by auto
  then have "FltRegisterFilter \<notin> fst ` set h" by (auto simp: key_calls_def notify_calls_def split: if_splits)
  then show "\<exists>G' h. run_state (registerCallbacks keyless_system blank_gc) [] = (Some (Inr (STATUS_SUCCESS, G')), h)
    \<and> (ObRegisterCallbacks, STATUS_SUCCESS) \<in> set h \<and> FltRegisterFilter \<notin> fst ` set h" using 2 by blast
next
  have 1: "gc_tag blank_gc = GANYMEDE" "FILE_CALLBACK blank_gc" "WFP_CALLBACK blank_gc" by (simp_all add: blank_gc_def)
  have "\<not> NT_SUCCESS STATUS_NO_MEMORY" by (simp add: NT_SUCCESS_def)
  then obtain G' h where 2: "run_state (registerCallbacks closed_engine blank_gc) [] = (Some (Inr (STATUS_SUCCESS, G')), h)"
      "(FltStartFiltering, STATUS_SUCCESS) \<in> set h" "(FwpmEngineOpen, STATUS_NO_MEMORY) \<in> set h"
      "\<And>r. (FwpmBfeStateSubscribeChanges, r) \<in> set h \<Longrightarrow> r = STATUS_SUCCESS"
    by (simp add: registerCallbacks_def 1 notify_calls_def register_object_def register_registry_def
        register_files_def FsFilterRegistrySetup_def closed_engine_def blank_gc_def willing_system_def
        register_network_def SetupWFP_def Let_def)
  obtain hc r net where 3: "h = hc @ (FwpmBfeStateSubscribeChanges, r) # net"
    "NT_SUCCESS r \<Longrightarrow> BFENotifyHandle G' = sys_handle closed_engine hc FwpmBfeStateSubscribeChanges"
    using success_means_registered [OF 1(1) 2(1)] 1(3) 2(2) by (auto split: if_splits)
  have "r = STATUS_SUCCESS" using 2(4) [of r] 3(1) by simp
  moreover have "sys_handle closed_engine hc FwpmBfeStateSubscribeChanges = 9"
    by (simp add: closed_engine_def willing_system_def)
  ultimately show "\<exists>G' h hc net. run_state (registerCallbacks closed_engine blank_gc) [] = (Some (Inr (STATUS_SUCCESS, G')), h)
        \<and> h = hc @ (FwpmBfeStateSubscribeChanges, STATUS_SUCCESS) # net \<and> BFENotifyHandle G' = 9
        \<and> (FwpmEngineOpen, STATUS_NO_MEMORY) \<in> set h"
    using 2(1,3) 3 NT_SUCCESS_0 by (intro exI [of _ G'] exI [of _ h] exI [of _ hc] exI [of _ net]) simp
qed

text \<open>C20: Registering the callouts with the filtering engine, as it is documented: either the first ten rows of
  the table, and not the last two, are registered and added, each call accepted at once, or some call fails,
  and then the loop walks back to the start of the table and reads outside of it. It never ends with a part of
  them registered.\<close>
theorem callouts_all_or_fault:
  assumes "engine_documented S"
  shows "run_state (registerCallouts S) h = (Some (Inr 10),
      h @ concat (map (\<lambda>(layer, key). [(FwpsCalloutRegister key, STATUS_SUCCESS), (FwpmCalloutAdd key layer, STATUS_SUCCESS)])
        (take 10 callouts)))
    \<or> (\<exists>h' c s. run_state (registerCallouts S) h = (Some (Inl OutOfBounds), h') \<and> (c, s) \<in> set h' \<and> s \<noteq> STATUS_SUCCESS)"
proof (cases rule: registerCallouts_cases [OF assms, of h])
  case 1
  have "take 10 callouts = map ((!) callouts) [0..<10]" by (simp add: callouts_def upt_rec)
  then have "map (\<lambda>(layer, key). [(FwpsCalloutRegister key, STATUS_SUCCESS), (FwpmCalloutAdd key layer, STATUS_SUCCESS)])
      (take 10 callouts) = map callout_row [0..<10]"
    by (auto simp: callout_row_def callout_call_def split: prod.splits)
  then show ?thesis using 1 by simp
next
  case 2
  then show ?thesis by blast
qed

definition refusing_system :: system where
  "refusing_system = willing_system\<lparr>sys_status := \<lambda>_ _. STATUS_NO_MEMORY\<rparr>"

lemma callouts_all_or_fault_witness:
  "\<exists>h c s. run_state (registerCallouts refusing_system) [] = (Some (Inl OutOfBounds), h) \<and> (c, s) \<in> set h
    \<and> s \<noteq> STATUS_SUCCESS"
proof -
  have "engine_documented refusing_system"
    by (simp add: engine_documented_def refusing_system_def NT_SUCCESS_def)
  note cases = callouts_all_or_fault [OF this, of "[]"]
  have "fst (run_state (registerCallouts refusing_system) []) = Some (Inl OutOfBounds)"
    using callouts_pass [of 0 refusing_system 63 "[]"] by (simp add: registerCallouts_def refusing_system_def Let_def)
  with cases show ?thesis by auto
qed

section \<open>Reading\<close>

text \<open>C10: What a callback logs is what the client decodes: with an empty log, a read with a large enough buffer
  after the records of an event delivers them all, and the buffer decodes to their types, the id and the time
  of the event and their bytes, in the order of the statements that logged them.\<close>
theorem event_read_back:
  assumes "log_ok G" "gc_L G = []" "pool_ample R" "list_all call_ok cs" "logged cs \<noteq> []"
    and "calls_bytes cs < 200000000" "calls_bytes cs \<le> unat len"
  shows "\<exists>G1 G2 b. log_all R rnd k rid ts cs G = Inr G1
    \<and> ReadLogEntry (Ptr a G1) len True
        = (\<lparr>rr_status = STATUS_SUCCESS, rr_bytes = calls_bytes cs, rr_buffer = Some b\<rparr>, Ptr a G2)
    \<and> decode_log b = map (\<lambda>(type, bs). (type, rid, ts, bs)) (logged cs) \<and> gc_L G2 = []"
proof -
  have inv: "log_inv G" using assms(1) by (simp add: log_ok_def)
  have room: "log_bytes (gc_L G) + calls_bytes cs < 200000000" using assms(2,6) by simp
  obtain G1 where G1: "log_all R rnd k rid ts cs G = Inr G1" "log_inv G1" "log_frame G G1"
    "log_contents G1 = log_contents G @ fields_of rid ts cs" "log_bytes (gc_L G1) = log_bytes (gc_L G) + calls_bytes cs"
    using log_all_spec [OF inv assms(3,4) room] by blast
  have "log_contents G = []" using assms(2) decode_encode [of "[]" "[]"] by (simp add: log_contents_def)
  then have c: "log_contents G1 = fields_of rid ts cs" "log_bytes (gc_L G1) = calls_bytes cs" using G1(4,5) assms(2) by simp_all
  have ok: "log_ok G1" using assms(1) G1(2) log_frame_fields(8,9) [OF G1(3)] by (simp add: log_ok_def)
  have ne: "gc_L G1 \<noteq> []" using c(1) assms(5) decode_encode [of "[]" "[]"] by (auto simp: log_contents_def fields_of_def)
  obtain n G2 b where r: "ReadLogEntry (Ptr a G1) len True =
      (\<lparr>rr_status = if n = 0 then STATUS_INVALID_BUFFER_SIZE else STATUS_SUCCESS,
        rr_bytes = log_bytes (take n (gc_L G1)), rr_buffer = Some b\<rparr>, Ptr a G2)"
    "n \<le> length (gc_L G1)" "gc_L G2 = drop n (gc_L G1)"
    "decode_log b = decode_log (concat (map le_data (take n (gc_L G1))))"
    "n = 0 \<longleftrightarrow> unat len < unat (le_size (hd (gc_L G1)))"
    "n < length (gc_L G1) \<longrightarrow> unat (len - 12) \<le> log_bytes (take n (gc_L G1)) \<or> unat len < log_bytes (take (Suc n) (gc_L G1))"
    using ReadLogEntry_spec [OF ok ne, of a len] by blast
  have split: "log_bytes (take m (gc_L G1)) + log_bytes (drop m (gc_L G1)) = calls_bytes cs" for m
    unfolding c(2) [symmetric] log_bytes_def by (simp flip: sum_list_append map_append)
  have "n = length (gc_L G1)"
  proof (rule ccontr)
    assume "n \<noteq> length (gc_L G1)"
    then have n: "n < length (gc_L G1)" using r(2) by simp
    then have e: "29 < unat (le_size (gc_L G1 ! n))"
      using wf_entry_size G1(2) nth_mem [OF n] unfolding log_inv_def by blast
    have "log_bytes (drop n (gc_L G1)) = unat (le_size (gc_L G1 ! n)) + log_bytes (drop (Suc n) (gc_L G1))"
      by (simp add: Cons_nth_drop_Suc [OF n, symmetric] log_bytes_def)
    then have room: "log_bytes (take n (gc_L G1)) + 29 < unat len" using split [of n] e assms(7) by linarith
    then have "unat (len - 12) = unat len - 12"
      by (simp add: unat_sub word_le_nat_alt)
    then show False using r(6) n room split [of "Suc n"] assms(7) by linarith
  qed
  moreover have "n \<noteq> 0" using ne calculation by simp
  ultimately have "ReadLogEntry (Ptr a G1) len True
      = (\<lparr>rr_status = STATUS_SUCCESS, rr_bytes = calls_bytes cs, rr_buffer = Some b\<rparr>, Ptr a G2)"
    "decode_log b = fields_of rid ts cs" "gc_L G2 = []"
    using r(1,3,4) c by (simp_all add: log_contents_def)
  then show ?thesis using G1(1) unfolding fields_of_def by blast
qed

lemma event_read_back_witness:
  "\<exists>G1 G2 b. log_all ref_rtl (\<lambda>_. 0) 0 5 77 [log_u32 MATCH_ID 7, None, log_u16 EVENT_TYPE 1] started_gc = Inr G1
    \<and> ReadLogEntry (Ptr 1 G1) 100 True = (\<lparr>rr_status = STATUS_SUCCESS, rr_bytes = 64, rr_buffer = Some b\<rparr>, Ptr 1 G2)
    \<and> decode_log b = [(MATCH_ID, 5, 77, [7, 0, 0, 0]), (EVENT_TYPE, 5, 77, [1, 0])]"
proof -
  let ?cs = "[log_u32 MATCH_ID 7, None, log_u16 EVENT_TYPE 1]"
  have recs: "logged ?cs = [(MATCH_ID, [7, 0, 0, 0]), (EVENT_TYPE, [1, 0])]" by code_simp
  have 1: "log_ok started_gc" using started_ok by (simp add: log_ok_def driver_ok_def)
  have 2: "gc_L started_gc = []" by simp
  have 3: "list_all call_ok ?cs" by simp
  have 4: "logged ?cs \<noteq> []" "calls_bytes ?cs < 200000000" "calls_bytes ?cs \<le> unat (100 :: u32)"
    unfolding calls_bytes_def recs by simp_all
  have "calls_bytes ?cs = 64" unfolding calls_bytes_def recs by simp
  then show ?thesis
    using event_read_back [OF 1 2 ref_rtl_ample 3 4, of "\<lambda>_. 0" 0 5 77 1] unfolding recs by auto
qed

section \<open>Stopping\<close>

text \<open>The lists in the order \<open>UnloadConfig\<close> purges them.\<close>

lemma unload_order_lists: "map list_of_type unload_order = map Some all_rule_lists"
  by (simp add: unload_order_def list_of_type_def all_rule_lists_def)

lemma purge_lists_owned:
  assumes "map list_of_type ts = map Some ls" "distinct ls"
    and "\<forall>l \<in> set ls. VALID_PAGE (gc_list G l) \<and> sound_list (deref (gc_list G l)) (unat (gc_COUNT G l))"
  shows "\<exists>G'. purge_lists G ts
    = Inr (G', concat (map (\<lambda>l. owned (take (unat (gc_COUNT G l)) (deref (gc_list G l)))) ls))"
  using assms
proof (induction ts arbitrary: ls G)
  case Nil
  then show ?case by simp
next
  case (Cons t ts)
  then obtain l ls' where ls: "ls = l # ls'" "list_of_type t = Some l" "map list_of_type ts = map Some ls'" by (cases ls) auto
  obtain la slots where L: "gc_list G l = Ptr la slots" using Cons.prems(3) ls(1) by (cases "gc_list G l") auto
  define n where "n = unat (gc_COUNT G l)"
  have n: "list_all built_group (take n (drop 0 slots))" "0 + n \<le> length slots" "n \<le> 65535"
    using Cons.prems(3) ls(1) L by (simp_all add: sound_list_def n_def)
  obtain slots' where "purge_loop slots 0 n = Inr (slots', owned (take n slots))"
    using purge_loop_owned [OF n(1,2)] by auto
  then have one: "purgeConfigList G t = Inr (STATUS_SUCCESS, set_list l (Ptr la slots') G, owned (take n slots))"
    using ls(2) L n(3) by (simp add: purgeConfigList_def resolveList_list flip: n_def)
  have same: "gc_COUNT (set_list l (Ptr la slots') G) m = gc_COUNT G m"
    "m \<noteq> l \<Longrightarrow> gc_list (set_list l (Ptr la slots') G) m = gc_list G m" for m by (simp_all add: set_list_def)
  have notin: "l \<notin> set ls'" using Cons.prems(2) ls(1) by simp
  moreover have "distinct ls'" using Cons.prems(2) ls(1) by simp
  moreover have "\<forall>m \<in> set ls'. VALID_PAGE (gc_list (set_list l (Ptr la slots') G) m)
      \<and> sound_list (deref (gc_list (set_list l (Ptr la slots') G) m)) (unat (gc_COUNT (set_list l (Ptr la slots') G) m))"
  proof (intro ballI)
    fix m assume m: "m \<in> set ls'"
    then have "m \<noteq> l" using notin by blast
    then show "VALID_PAGE (gc_list (set_list l (Ptr la slots') G) m)
      \<and> sound_list (deref (gc_list (set_list l (Ptr la slots') G) m)) (unat (gc_COUNT (set_list l (Ptr la slots') G) m))"
      using Cons.prems(3) ls(1) m same by simp
  qed
  ultimately obtain G' where rest: "purge_lists (set_list l (Ptr la slots') G) ts = Inr (G', concat (map (\<lambda>m.
      owned (take (unat (gc_COUNT (set_list l (Ptr la slots') G) m)) (deref (gc_list (set_list l (Ptr la slots') G) m)))) ls'))"
    using Cons.IH [OF ls(3)] by blast
  have eq: "map (\<lambda>m. owned (take (unat (gc_COUNT (set_list l (Ptr la slots') G) m)) (deref (gc_list (set_list l (Ptr la slots') G) m)))) ls'
      = map (\<lambda>m. owned (take (unat (gc_COUNT G m)) (deref (gc_list G m)))) ls'"
    using notin same by (intro map_cong refl) metis
  show ?case
    using L by (simp add: one rest [unfolded eq] ls(1) n_def)
qed

text \<open>C19: Unloading the configuration of a sound state gives back, list by list, every item and every rule of
  the 26 lists, each once and the items of a rule before the rule, and at the end the context; the tables of
  the lists and the strings of the items are not among what is given back.\<close>
theorem unload_frees_rules:
  assumes "driver_ok G"
  shows "UnloadConfig a G = Inr (concat (map (\<lambda>l. concat (map (\<lambda>rule. map addr (group_items (deref rule)) @ [addr rule])
      (take (unat (gc_COUNT G l)) (deref (gc_list G l))))) all_rule_lists) @ [a])
    \<and> distinct all_rule_lists \<and> set all_rule_lists = UNIV"
proof -
  have d: "distinct all_rule_lists" by (simp add: all_rule_lists_def)
  obtain G' where "purge_lists G unload_order
      = Inr (G', concat (map (\<lambda>l. owned (take (unat (gc_COUNT G l)) (deref (gc_list G l)))) all_rule_lists))"
    using purge_lists_owned [OF unload_order_lists d] driver_okD(1) [OF assms] unfolding config_ok_def by blast
  then show ?thesis using d all_rule_lists_UNIV by (auto simp: UnloadConfig_def owned_def)
qed

lemma unload_frees_rules_witness: "UnloadConfig 77 started_gc = Inr [77]"
  using unload_frees_rules [OF started_ok, of 77] by simp

end
