(* ===== verification/Spec2Isabelle.thy ===== *)
theory Spec2Isabelle
  imports MM_Rule_Properties MM_Check_Properties MM_Config_Properties MM_Log_Properties
    MM_Cache_Properties MM_Sharing MM_Callback_Properties MM_Request_Properties MM_Startup_Properties
    MM_Driver_Properties
begin

text \<open>
  A model of the MoonMon driver, the kernel part of the monitor, in \<open>src/MoonMon\<close>: a Windows driver that is
  told by the kernel of processes, threads, images, handles, registry operations, file operations and
  network connections, decides by configured rules whether to block and whether to record each of them,
  and keeps the records in a list that a client, the agent, reads through a device.

  \<^bold>\<open>The parts and how they interact.\<close> The configuration (\<open>Config.c\<close>) is read from the registry once, at the
  start, into 26 lists of rules. A callback (\<open>MoonMon.c\<close>) takes a fresh id, looks the process of its event up
  in a cache of recent processes (\<open>Process.c\<close>), marks the slot it uses, gathers the event, has it inspected by
  the rules of its kind (\<open>Process.c\<close>, \<open>Thread.c\<close>, \<open>Imageload.c\<close>, \<open>Object.c\<close>, \<open>Registry.c\<close>, \<open>FS.c\<close>, \<open>WFP.c\<close>),
  which search the block, include and exclude lists with the comparisons of \<open>Utils.c\<close>, writes the event to the
  log (\<open>Logging.c\<close>) as a run of records with the same id and time, answers the kernel, and unmarks the slot.
  The client opens the device, reads the log and closes (\<open>MoonMon.c\<close>). All state is in one global context,
  the structure \<open>GLOBALS\<close> of \<open>DataTypes.h\<close>, here the record \<open>GC\<close>.

  \<^bold>\<open>How the code is rendered.\<close> A function that changes the context takes it and returns it. Integers are words
  of their width. A pointer (\<open>'a ptr\<close>) is \<open>Null\<close>, or an address with what it points to; \<open>VALID_PAGE\<close> is the
  test of the code for kernel addresses. A fault, the reading of a null pointer or outside of a
  buffer, is the left side of \<open>res\<close>, and so is, in a run of the driver, the freeing of memory that is not the
  pool's. The exception filters of the driver are \<open>EXCEPTION_CONTINUE_SEARCH\<close> in the build that \<open>DataTypes.h\<close>
  selects: they let a fault go on, so that faults propagate in the model too. A loop that need not end, and \<open>NapTime\<close>, give \<open>None\<close>.
  Conditions of \<open>MM_ASSERT\<close> hold in checked builds only and do not stop the model. A callback is one step:
  the code holds its locks around the list and the table, and what it does between two of them touches
  only marked slots; \<open>MM_Sharing\<close> takes the steps apart for two callbacks at one process. Strings are counted strings of bytes, as in the code.

  \<^bold>\<open>Parameters.\<close> What is not in \<open>src\<close> is an argument: \<open>rtl\<close> (the pool and the string routines of the runtime
  library; the keys that distinguish the allocations of a call are the model's), \<open>registry\<close>, \<open>kernel\<close> (the
  answers of the kernel during one callback), \<open>query\<close> (the snapshot of the running processes), \<open>system\<close> (the
  status of the calls of the set-up, which may depend on the calls made before), \<open>wfp_headers\<close> (the positions
  of the fields at a layer). The hypotheses about them are \<open>pool_ample\<close> and \<open>pool_valid\<close> (allocations
  succeed), \<open>wf_kernel\<close>, \<open>wf_create\<close>, \<open>wf_request\<close>, \<open>wf_reg_args\<close>, \<open>wf_net_event\<close> and their like (buffers are
  as long as they say; of the number of values of a network event nothing is assumed), \<open>off_stack\<close> (the pool gives
  no address of the stack), \<open>event_ok\<close> (these, for one event), \<open>enum_documented\<close> (the registry accepts the
  buffer size it has asked for) and \<open>engine_documented\<close> (a callout is not accepted again while it stands).

  \<^bold>\<open>The theories.\<close>
  \<^item> \<open>MM_Prelude\<close>: words, pointers, faults, the C \<open>switch\<close>, bytes of integers, the collections \<open>mm_simps\<close> and
    \<open>mm_intros\<close>. \<open>MM_Types\<close>: the structures and constants of \<open>DataTypes.h\<close>, \<open>Utils.h\<close> and \<open>WFP.h\<close>.
  \<^item> \<open>MM_Utils\<close>: the comparisons, the string helpers and \<open>mm_id\<close> of \<open>Utils.c\<close>.
  \<^item> \<open>MM_Match\<close>: the search that the eight \<open>ListMatch\<close> functions share, with the locales \<open>counting_check\<close> (the
    check of an item adds to the counter of matches) and \<open>predicate_check\<close> (it adds one exactly when a
    predicate holds), under which a search is the first rule all of whose items hold. \<open>MM_Rules\<close>: the
    decision tables of the inspections. The eight searches and their inspections are in \<open>MM_Process_Rules\<close>,
    \<open>MM_Thread_Rules\<close>, \<open>MM_Module_Rules\<close>, \<open>MM_Object_Rules\<close>, \<open>MM_Registry_Rules\<close>, \<open>MM_File_Rules\<close> and
    \<open>MM_Network_Rules\<close>, each with an interpretation of these locales.
  \<^item> \<open>MM_Config\<close>, \<open>MM_Config_Load\<close>: the lists of \<open>Config.c\<close> (\<open>loadConfigItem\<close>, \<open>purgeConfigList\<close>), with the abstract
    rules they stand for, and \<open>LoadConfig\<close>.
  \<^item> \<open>MM_Process_Cache\<close>: the ring of 32000 slots, \<open>AddNewProcess\<close>, \<open>PurgeCachedProcess\<close>, \<open>GetCachedProcess\<close>,
    \<open>processInfoInit\<close> and its inverse; it interprets the locale \<open>lossy_cache\<close>.
  \<^item> \<open>MM_Log\<close>: \<open>AddLogEntry\<close>, \<open>DeleteLogEntry\<close>, \<open>ReadLogEntry\<close>, with the decoder a client would use; it interprets
    the locale \<open>fifo\<close>. \<open>MM_Log_Calls\<close>: a callback's run of logging statements as one list of calls.
  \<^item> \<open>MM_Kernel\<close>, \<open>MM_Process_Callbacks\<close>, \<open>MM_Registry_Callback\<close>, \<open>MM_File_Callbacks\<close>, \<open>MM_Network_Callback\<close>: the
    callbacks of \<open>MoonMon.c\<close>, each a whole handler, and the search of the running processes at the start.
  \<^item> \<open>MM_System\<close>, \<open>MM_WFP_Setup\<close>, \<open>MM_Driver\<close>: calls with a history in the state monad of the library; the tables
    and the set-up of \<open>WFP.c\<close>; \<open>DriverEntry\<close>, \<open>InitMoonMon\<close>, \<open>registerCallbacks\<close>, \<open>UnregisterMoonMon\<close>,
    \<open>UnloadConfig\<close> and the dispatch routines. \<open>MM_Registration\<close>: which calls these make, as a \<open>plan\<close> that
    is either carried out or stopped by the first call that is refused.
  \<^item> \<open>MM_Event_Records\<close>, \<open>MM_Soundness\<close>: what the records of a process are, the invariant \<open>driver_ok\<close> of the
    context, and the relation \<open>follows\<close> between the context before and after a step of a callback.
    \<open>MM_Process_Soundness\<close>, \<open>MM_Event_Soundness\<close>, \<open>MM_Request_Soundness\<close>, \<open>MM_Registry_Network_Soundness\<close> and
    \<open>MM_Network_Soundness\<close> prove it of every callback, the last three through one lemma, \<open>handled\<close>.
    \<open>MM_Network_Soundness\<close> also says which positions of a network event are read (\<open>fields_there\<close>) and what each
    member of the event is then (\<open>net_expected\<close>). \<open>MM_Driver_Events\<close> composes the callbacks to runs of events and
    names the two calls that stop the machine, its \<open>hazard\<close>s; \<open>MM_Init_Soundness\<close> starts the runs.
  \<^item> \<open>MM_Samples\<close>, \<open>MM_Callback_Records\<close>: data for the witnesses, and the records of each event. The properties are
    in the theories named \<open>Properties\<close> and in \<open>MM_Sharing\<close>, each after a text with its number.

  \<^bold>\<open>What is shown.\<close> Of the rules: what each comparison tests, where it differs from its operator, and what a list
  of loaded items decides (\<open>MM_Check_Properties\<close>, \<open>MM_Rule_Properties\<close>, \<open>MM_Config_Properties\<close>). Of the log: it is a
  queue that delivers every record once, whole and in order, drops the newest when it is full, and is
  blocked by a record larger than the client's buffer (\<open>MM_Log_Properties\<close>). Of the cache: its answers have
  been added under the handle asked for (\<open>MM_Cache_Properties\<close>), but the mark of a slot does not protect the
  second of two callbacks that use it (\<open>MM_Sharing\<close>). Of the callbacks: their answer to the kernel, their records
  and what they keep (\<open>MM_Callback_Properties\<close>, \<open>MM_Request_Properties\<close>). Of the search at the start: the snapshot
  it takes, what it caches and what it terminates (\<open>MM_Startup_Properties\<close>). Of the driver: a successful start leaves a sound
  context; a run of events ends in one, or faults at its first hazard: the load of an image whose name cannot be
  had, or a network event with fewer fields than the callback reads; the place of a client; what registration and unloading do
  (\<open>MM_Driver_Properties\<close>).

  \<^bold>\<open>Bounds and fuel.\<close> The load of the configuration gets fuel; 64000 passes are enough, since every value costs at
  most two and the index is bounded by 32000. The search of the running processes gets one more pass than the
  kernel refuses buffers. The loop over the callouts gets 64 passes; ten rows up, and at
  most nine back, are enough with a documented engine. The table of processes has 32000 slots and its index runs over
  it when the 32000th process is added, which the properties exclude by counting creations. The log
  is full at 200000000 bytes.

  \<^bold>\<open>Not modelled.\<close> The agent (a program in Go), the build files and the installer; \<open>NetNotifyCallback\<close>, the
  layers of name resolution and the teardown of an instance of the minifilter, which only print; the
  names shown to an administrator; other interleavings of callbacks within a step. \<open>MM_Genrand\<close> and \<open>_ts\<close> only read
  a generator and a clock and are part of the parameter \<open>kernel\<close>.
\<close>

end
